(* ===== verification/Go_Prelude.thy ===== *)
theory Go_Prelude
  imports Main "HOL-Library.Sublist"
begin

text \<open>
  Shared vocabulary of the development: the parts of the Go language and of its standard
  library that the packages under \<^verbatim>\<open>src/pkg\<close> rely on, as executable functions.
  A Go string is a list of bytes (\<^typ>\<open>string\<close>), an \<^verbatim>\<open>int\<close> or \<^verbatim>\<open>int64\<close> is an
  \<^typ>\<open>int\<close> whose arithmetic is reduced to 64 bits by \<open>wrap64\<close> wherever it could leave
  that range, and an error is a value of \<open>goerror\<close>.  The theory also declares the
  named collections the component theories fill.
\<close>

named_theorems go_string \<open>evaluation rules for the string library\<close>
named_theorems io_frame \<open>which part of the world an operation leaves alone\<close>
named_theorems verdict_rules \<open>the priority of the verdicts in each sandbox backend\<close>

section \<open>Fixed-width integers\<close>

definition wrap64 :: "int \<Rightarrow> int" where
  "wrap64 x = (x + 2 ^ 63) mod 2 ^ 64 - 2 ^ 63"

definition int64_ok :: "int \<Rightarrow> bool" where
  "int64_ok x \<longleftrightarrow> - (2 ^ 63) \<le> x \<and> x < 2 ^ 63"

lemma wrap64_id [simp]: "int64_ok x \<Longrightarrow> wrap64 x = x"
  by (simp add: wrap64_def int64_ok_def)

lemma int64_ok_wrap64 [simp]: "int64_ok (wrap64 x)"
proof -
  have "0 \<le> (x + 2 ^ 63) mod 2 ^ 64" and "(x + 2 ^ 63) mod 2 ^ 64 < (2 ^ 64 :: int)"
    by simp_all
  then show ?thesis by (simp add: wrap64_def int64_ok_def)
qed

lemma wrap64_idem [simp]: "wrap64 (wrap64 x) = wrap64 x"
  by simp

text \<open>Go's \<^verbatim>\<open>/\<close> and \<^verbatim>\<open>%\<close> on signed integers truncate towards zero.\<close>

definition go_div :: "int \<Rightarrow> int \<Rightarrow> int" where
  "go_div a b = sgn a * sgn b * (\<bar>a\<bar> div \<bar>b\<bar>)"

definition go_mod :: "int \<Rightarrow> int \<Rightarrow> int" where
  "go_mod a b = a - b * go_div a b"

lemma go_div_nonneg [simp]: "0 \<le> a \<Longrightarrow> 0 < b \<Longrightarrow> go_div a b = a div b"
  by (cases "a = 0") (simp_all add: go_div_def)

lemma go_mod_nonneg [simp]: "0 \<le> a \<Longrightarrow> 0 < b \<Longrightarrow> go_mod a b = a mod b"
  by (simp add: go_mod_def minus_mult_div_eq_mod)

section \<open>Errors\<close>

text \<open>
  The sentinel errors of the packages are constructors, \<^verbatim>\<open>fmt.Errorf("p: %w", e)\<close> is
  \<open>ErrWrap ''p: '' e\<close>, an \<^verbatim>\<open>exec.ExitError\<close> carries its exit code and the errors of the
  host (operating system, Redis, JSON) are \<open>ErrHost\<close> with their text.
\<close>

datatype goerror =
    ErrNew string
  | ErrWrap string goerror
  | ErrQueueEmpty
  | ErrQueueClosed
  | ErrBackpressureExceeded
  | ErrNotFound
  | ErrCanceled
  | ErrDeadlineExceeded
  | ErrRedisNil
  | ErrExit int
  | ErrHost string
  | ErrPanic string

text \<open>
  \<open>ErrPanic\<close> stands for a panic that unwinds through the call instead of an error it returns.
  \<^verbatim>\<open>errors.Is\<close> follows the chain of wrapped errors.
\<close>

fun errors_Is :: "goerror \<Rightarrow> goerror \<Rightarrow> bool" where
  "errors_Is (ErrWrap p e) target \<longleftrightarrow> ErrWrap p e = target \<or> errors_Is e target"
| "errors_Is e target \<longleftrightarrow> e = target"

section \<open>Strings\<close>

text \<open>Valid UTF-8, as \<^verbatim>\<open>unicode/utf8\<close> decides it.\<close>

definition utf8_cont :: "char \<Rightarrow> bool" where
  "utf8_cont c \<longleftrightarrow> 128 \<le> (of_char c :: int) \<and> (of_char c :: int) \<le> 191"

definition utf8_range :: "int \<Rightarrow> int \<Rightarrow> char \<Rightarrow> bool" where
  "utf8_range lo hi c \<longleftrightarrow> lo \<le> of_char c \<and> of_char c \<le> hi"

text \<open>The number of continuation bytes after a leading byte, and the range of the first of them.\<close>

definition utf8_lead :: "char \<Rightarrow> (nat \<times> int \<times> int) option" where
  "utf8_lead c =
     (let b = of_char c :: int in
      if b < 128 then Some (0, 0, 0)
      else if b < 194 then None
      else if b < 224 then Some (1, 128, 191)
      else if b = 224 then Some (2, 160, 191)
      else if b = 237 then Some (2, 128, 159)
      else if b < 240 then Some (2, 128, 191)
      else if b = 240 then Some (3, 144, 191)
      else if b < 244 then Some (3, 128, 191)
      else if b = 244 then Some (3, 128, 143)
      else None)"

fun utf8_valid :: "string \<Rightarrow> bool" where
  "utf8_valid [] \<longleftrightarrow> True"
| "utf8_valid (c # s) \<longleftrightarrow>
     (case utf8_lead c of
        None \<Rightarrow> False
      | Some (n, lo, hi) \<Rightarrow>
          n \<le> length s \<and> (n = 0 \<or> utf8_range lo hi (hd s)) \<and> list_all utf8_cont (take n s) \<and>
          utf8_valid (drop n s))"

definition is_ascii :: "string \<Rightarrow> bool" where
  "is_ascii s \<longleftrightarrow> list_all (\<lambda>c. of_char c < (128 :: nat)) s"

definition lower_byte :: "char \<Rightarrow> char" where
  "lower_byte c = (let n = of_char c :: nat in if 65 \<le> n \<and> n \<le> 90 then char_of (n + 32) else c)"

text \<open>
  \<^verbatim>\<open>strings.ToLower\<close>: bytewise on ASCII strings; on other strings Go consults its Unicode
  tables, which are the parameter \<open>uni\<close>.
\<close>

definition ToLower :: "(string \<Rightarrow> string) \<Rightarrow> string \<Rightarrow> string" where
  "ToLower uni s = (if is_ascii s then map lower_byte s else uni s)"

text \<open>
  The UTF-8 encodings of the runes with Unicode's \<^verbatim>\<open>White_Space\<close> property, which
  \<^verbatim>\<open>strings.TrimSpace\<close> and \<^verbatim>\<open>strings.Fields\<close> use.
\<close>

definition space_runes :: "string list" where
  "space_runes =
     [[CHR 0x20], [CHR 0x0A], [CHR 0x0D], [CHR 0x09], [CHR 0x0B], [CHR 0x0C],
      [CHR 0xC2, CHR 0x85], [CHR 0xC2, CHR 0xA0], [CHR 0xE1, CHR 0x9A, CHR 0x80],
      [CHR 0xE2, CHR 0x80, CHR 0x80], [CHR 0xE2, CHR 0x80, CHR 0x81],
      [CHR 0xE2, CHR 0x80, CHR 0x82], [CHR 0xE2, CHR 0x80, CHR 0x83],
      [CHR 0xE2, CHR 0x80, CHR 0x84], [CHR 0xE2, CHR 0x80, CHR 0x85],
      [CHR 0xE2, CHR 0x80, CHR 0x86], [CHR 0xE2, CHR 0x80, CHR 0x87],
      [CHR 0xE2, CHR 0x80, CHR 0x88], [CHR 0xE2, CHR 0x80, CHR 0x89],
      [CHR 0xE2, CHR 0x80, CHR 0x8A], [CHR 0xE2, CHR 0x80, CHR 0xA8],
      [CHR 0xE2, CHR 0x80, CHR 0xA9], [CHR 0xE2, CHR 0x80, CHR 0xAF],
      [CHR 0xE2, CHR 0x81, CHR 0x9F], [CHR 0xE3, CHR 0x80, CHR 0x80]]"

definition first_match :: "string list \<Rightarrow> string \<Rightarrow> string option" where
  "first_match rs s = find (\<lambda>r. r \<noteq> [] \<and> prefix r s) rs"

lemma first_match_Some:
  "first_match rs s = Some r \<Longrightarrow> r \<in> set rs \<and> r \<noteq> [] \<and> prefix r s"
  by (auto simp: first_match_def find_Some_iff)

lemma first_match_shorter: "first_match rs s = Some r \<Longrightarrow> length s - length r < length s"
  by (drule first_match_Some) (auto simp: prefix_def)

function strip_left :: "string list \<Rightarrow> string \<Rightarrow> string" where
  "strip_left rs s =
     (case first_match rs s of None \<Rightarrow> s | Some r \<Rightarrow> strip_left rs (drop (length r) s))"
  by pat_completeness auto
termination
  by (relation "measure (\<lambda>(rs, s). length s)") (auto dest: first_match_shorter)

declare strip_left.simps [simp del]

definition strip_right :: "string list \<Rightarrow> string \<Rightarrow> string" where
  "strip_right rs s = rev (strip_left (map rev rs) (rev s))"

definition TrimSpace :: "string \<Rightarrow> string" where
  "TrimSpace s = strip_right space_runes (strip_left space_runes s)"

definition TrimRight :: "string \<Rightarrow> string \<Rightarrow> string" where
  "TrimRight s cutset = rev (dropWhile (\<lambda>c. c \<in> set cutset) (rev s))"

definition Trim :: "string \<Rightarrow> string \<Rightarrow> string" where
  "Trim s cutset = TrimRight (dropWhile (\<lambda>c. c \<in> set cutset) s) cutset"

definition HasPrefix :: "string \<Rightarrow> string \<Rightarrow> bool" where
  "HasPrefix s p = prefix p s"

definition HasSuffix :: "string \<Rightarrow> string \<Rightarrow> bool" where
  "HasSuffix s p = suffix p s"

definition TrimPrefix :: "string \<Rightarrow> string \<Rightarrow> string" where
  "TrimPrefix s p = (if HasPrefix s p then drop (length p) s else s)"

text \<open>\<^verbatim>\<open>strings.Split\<close> with a separator of one byte.\<close>

fun Split :: "string \<Rightarrow> char \<Rightarrow> string list" where
  "Split [] c = [[]]"
| "Split (x # xs) c =
     (if x = c then [] # Split xs c
      else (case Split xs c of [] \<Rightarrow> [[x]] | p # ps \<Rightarrow> (x # p) # ps))"

fun join_with :: "string \<Rightarrow> string list \<Rightarrow> string" where
  "join_with sep [] = []"
| "join_with sep [x] = x"
| "join_with sep (x # y # ys) = x @ sep @ join_with sep (y # ys)"

text \<open>\<^verbatim>\<open>strings.Fields\<close>: the maximal runs without white space.\<close>

function fields_from :: "string \<Rightarrow> string \<Rightarrow> string list" where
  "fields_from acc s =
     (case s of
        [] \<Rightarrow> (if acc = [] then [] else [acc])
      | c # cs \<Rightarrow>
          (case first_match space_runes s of
             Some r \<Rightarrow> (if acc = [] then fields_from [] (drop (length r) s)
                        else acc # fields_from [] (drop (length r) s))
           | None \<Rightarrow> fields_from (acc @ [c]) cs))"
  by pat_completeness auto
termination
  by (relation "measure (\<lambda>(acc, s). length s)") (auto dest: first_match_shorter)

declare fields_from.simps [simp del]

definition Fields :: "string \<Rightarrow> string list" where
  "Fields s = fields_from [] s"

subsection \<open>Trimming and lower case\<close>

lemma strip_left_None: "first_match rs s = None \<Longrightarrow> strip_left rs s = s"
  by (simp add: strip_left.simps)

lemma first_match_strip_left [simp]: "first_match rs (strip_left rs s) = None"
proof (induction rs s rule: strip_left.induct)
  case (1 rs s)
  then show ?case
    by (cases "first_match rs s") (simp_all add: strip_left.simps [of rs s])
qed

lemma suffix_strip_left: "suffix (strip_left rs s) s"
proof (induction rs s rule: strip_left.induct)
  case (1 rs s)
  then show ?case
    by (cases "first_match rs s")
      (auto simp: strip_left.simps [of rs s] intro: suffix_order.trans suffix_drop)
qed

lemma prefix_strip_right: "prefix (strip_right rs s) s"
  using suffix_strip_left [of "map rev rs" "rev s"]
  by (simp add: strip_right_def suffix_to_prefix)

lemma first_match_prefix_None: "first_match rs s = None \<Longrightarrow> prefix t s \<Longrightarrow> first_match rs t = None"
  by (auto simp: first_match_def find_None_iff dest: prefix_order.trans)

text \<open>A string with no white space at either end.\<close>

definition trimmed :: "string \<Rightarrow> bool" where
  "trimmed s \<longleftrightarrow>
     first_match space_runes s = None \<and> first_match (map rev space_runes) (rev s) = None"

lemma trimmed_TrimSpace [simp]: "trimmed (TrimSpace s)"
proof -
  have "first_match space_runes (TrimSpace s) = None"
    unfolding TrimSpace_def
    by (rule first_match_prefix_None [OF _ prefix_strip_right]) simp
  then show ?thesis
    by (simp add: trimmed_def TrimSpace_def strip_right_def)
qed

lemma TrimSpace_trimmed [simp]: "trimmed s \<Longrightarrow> TrimSpace s = s"
  by (simp add: trimmed_def TrimSpace_def strip_right_def strip_left_None)

lemma of_char_lower_byte:
  "of_char (lower_byte c) =
     (if 65 \<le> (of_char c :: nat) \<and> of_char c \<le> (90 :: nat) then of_char c + 32 else of_char c :: nat)"
  by (simp add: lower_byte_def Let_def)

lemma lower_byte_idem [simp]: "lower_byte (lower_byte c) = lower_byte c"
  by (auto simp: lower_byte_def [of "lower_byte c"] of_char_lower_byte Let_def)

definition is_lower :: "char \<Rightarrow> bool" where
  "is_lower d \<longleftrightarrow> 97 \<le> (of_char d :: nat) \<and> of_char d \<le> (122 :: nat)"

lemma lower_byte_fixed: "\<not> is_lower (lower_byte c) \<Longrightarrow> lower_byte c = c"
  by (auto simp: is_lower_def of_char_lower_byte) (auto simp: lower_byte_def Let_def)

lemma is_ascii_lower [simp]: "is_ascii s \<Longrightarrow> is_ascii (map lower_byte s)"
  by (auto simp: is_ascii_def list_all_iff of_char_lower_byte)

lemma ToLower_ascii [simp]: "is_ascii s \<Longrightarrow> ToLower uni s = map lower_byte s"
  by (simp add: ToLower_def)

definition no_letters :: "string \<Rightarrow> bool" where
  "no_letters r \<longleftrightarrow> list_all (\<lambda>d. \<not> is_lower d) r"

lemma prefix_map_lower: "no_letters r \<Longrightarrow> prefix r (map lower_byte s) \<Longrightarrow> prefix r s"
proof (induction r arbitrary: s)
  case (Cons d r)
  then show ?case
    by (cases s) (auto simp: no_letters_def intro: lower_byte_fixed)
qed simp

lemma first_match_map_lower:
  "list_all no_letters rs \<Longrightarrow> first_match rs s = None \<Longrightarrow> first_match rs (map lower_byte s) = None"
  by (auto simp: first_match_def find_None_iff list_all_iff dest: prefix_map_lower)

lemma space_runes_no_letters:
  "list_all no_letters space_runes" "list_all no_letters (map rev space_runes)"
  by code_simp+

lemma trimmed_lower [simp]: "trimmed s \<Longrightarrow> trimmed (map lower_byte s)"
  using space_runes_no_letters by (simp add: trimmed_def rev_map first_match_map_lower)

section \<open>Decimal numbers\<close>

definition digit_char :: "int \<Rightarrow> char" where
  "digit_char d = ''0123456789'' ! nat d"

definition digit_val :: "char \<Rightarrow> int option" where
  "digit_val c = (let n = of_char c :: int in if 48 \<le> n \<and> n \<le> 57 then Some (n - 48) else None)"

function dec :: "int \<Rightarrow> string" where
  "dec n = (if n < 10 then [digit_char n] else dec (n div 10) @ [digit_char (n mod 10)])"
  by pat_completeness auto
termination
  by (relation "measure nat") auto

declare dec.simps [simp del]

text \<open>\<^verbatim>\<open>strconv.Itoa\<close>, \<^verbatim>\<open>strconv.FormatInt(i, 10)\<close> and the verb \<^verbatim>\<open>%d\<close>.\<close>

definition FormatInt :: "int \<Rightarrow> string" where
  "FormatInt i = (if i < 0 then CHR ''-'' # dec (- i) else dec i)"

text \<open>\<^verbatim>\<open>err.Error()\<close>, the text of an error.\<close>

fun err_Error :: "goerror \<Rightarrow> string" where
  "err_Error (ErrNew s) = s"
| "err_Error (ErrWrap p e) = p @ err_Error e"
| "err_Error ErrQueueEmpty = ''queue is empty''"
| "err_Error ErrQueueClosed = ''queue is closed''"
| "err_Error ErrBackpressureExceeded = ''queue capacity exceeded; backpressure active''"
| "err_Error ErrNotFound = ''submission not found''"
| "err_Error ErrCanceled = ''context canceled''"
| "err_Error ErrDeadlineExceeded = ''context deadline exceeded''"
| "err_Error ErrRedisNil = ''redis: nil''"
| "err_Error (ErrExit n) = ''exit status '' @ FormatInt n"
| "err_Error (ErrHost s) = s"
| "err_Error (ErrPanic s) = s"

datatype parse_result = ParseOk int | ParseSyntax | ParseRange

text \<open>\<^verbatim>\<open>strconv.ParseUint(s, 10, 64)\<close> digit by digit, with its two overflow tests.\<close>

fun parse_uint :: "int \<Rightarrow> string \<Rightarrow> parse_result" where
  "parse_uint n [] = ParseOk n"
| "parse_uint n (c # cs) =
     (case digit_val c of
        None \<Rightarrow> ParseSyntax
      | Some d \<Rightarrow>
          if (2 ^ 64 - 1) div 10 + 1 \<le> n then ParseRange
          else if 2 ^ 64 - 1 < 10 * n + d then ParseRange
          else parse_uint (10 * n + d) cs)"

text \<open>
  The value of \<^verbatim>\<open>strconv.ParseInt(s, 10, 64)\<close> for a caller that ignores the error, as all
  callers here do: zero on a syntax error, the nearest bound on a range error.
\<close>

definition ParseInt :: "string \<Rightarrow> int" where
  "ParseInt s =
     (let neg = (case s of c # _ \<Rightarrow> c = CHR ''-'' | [] \<Rightarrow> False);
          body = (case s of c # cs \<Rightarrow> if c = CHR ''-'' \<or> c = CHR ''+'' then cs else s | [] \<Rightarrow> [])
      in if body = [] then 0
         else case parse_uint 0 body of
             ParseSyntax \<Rightarrow> 0
           | ParseRange \<Rightarrow> if neg then - (2 ^ 63) else 2 ^ 63 - 1
           | ParseOk n \<Rightarrow>
               if \<not> neg \<and> 2 ^ 63 \<le> n then 2 ^ 63 - 1
               else if neg \<and> 2 ^ 63 < n then - (2 ^ 63)
               else if neg then - n else n)"

lemma digit_val_digit_char [simp]: "0 \<le> d \<Longrightarrow> d < 10 \<Longrightarrow> digit_val (digit_char d) = Some d"
proof -
  assume "0 \<le> d" and "d < 10"
  then have "d = 0 \<or> d = 1 \<or> d = 2 \<or> d = 3 \<or> d = 4 \<or> d = 5 \<or> d = 6 \<or> d = 7 \<or> d = 8 \<or> d = 9"
    by presburger
  then show ?thesis by (auto simp: digit_char_def digit_val_def)
qed

lemma digit_char_ascii: "0 \<le> d \<Longrightarrow> d < 10 \<Longrightarrow> digit_char d \<in> set ''0123456789''"
  unfolding digit_char_def by (rule nth_mem) simp

lemma dec_digits: "0 \<le> n \<Longrightarrow> set (dec n) \<subseteq> set ''0123456789''"
proof (induction n rule: dec.induct)
  case (1 n)
  have "digit_char (n mod 10) \<in> set ''0123456789''"
    by (rule digit_char_ascii) simp_all
  moreover have "n < 10 \<Longrightarrow> digit_char n \<in> set ''0123456789''"
    using "1.prems" by (rule digit_char_ascii)
  ultimately show ?case
    using "1" by (subst dec.simps) simp
qed

lemma dec_nonempty [simp]: "dec n \<noteq> []"
  by (subst dec.simps) simp

lemma parse_uint_append:
  "parse_uint n (s @ t) = (case parse_uint n s of ParseOk m \<Rightarrow> parse_uint m t | e \<Rightarrow> e)"
  by (induction n s rule: parse_uint.induct) (auto split: option.splits)

lemma parse_uint_dec: "0 \<le> n \<Longrightarrow> n < 2 ^ 64 \<Longrightarrow> parse_uint 0 (dec n) = ParseOk n"
proof (induction n rule: dec.induct)
  case (1 n)
  show ?case
  proof (cases "n < 10")
    case True
    with "1.prems" show ?thesis by (subst dec.simps) simp
  next
    case False
    with "1" have "parse_uint 0 (dec (n div 10)) = ParseOk (n div 10)" by simp
    moreover have "n div 10 < (2 ^ 64 - 1) div 10 + 1" and "10 * (n div 10) + n mod 10 = n"
      using "1.prems" by simp_all
    ultimately show ?thesis
      using False "1.prems" by (subst dec.simps) (simp add: parse_uint_append)
  qed
qed

lemma hd_dec: "0 \<le> n \<Longrightarrow> dec n = c # cs \<Longrightarrow> c \<noteq> CHR ''-'' \<and> c \<noteq> CHR ''+''"
  using dec_digits [of n] by auto

text \<open>Formatting a 64-bit integer and parsing it back is the identity.\<close>

lemma ParseInt_FormatInt [simp]: "int64_ok i \<Longrightarrow> ParseInt (FormatInt i) = i"
proof (cases "i < 0")
  case True
  moreover assume "int64_ok i"
  ultimately show ?thesis
    by (auto simp: FormatInt_def ParseInt_def int64_ok_def parse_uint_dec)
next
  case False
  moreover assume "int64_ok i"
  ultimately have "0 \<le> i" and "i < 2 ^ 63" by (simp_all add: int64_ok_def)
  moreover from this have "parse_uint 0 (dec i) = ParseOk i" by (simp add: parse_uint_dec)
  moreover obtain c cs where "dec i = c # cs" by (cases "dec i") simp_all
  ultimately show ?thesis
    using hd_dec [of i c cs] by (simp add: FormatInt_def ParseInt_def)
qed

section \<open>Paths\<close>

text \<open>
  \<^verbatim>\<open>filepath.Clean\<close> on Unix: the components are pushed on a stack (kept in reverse);
  \<^verbatim>\<open>..\<close> pops a component, is kept at the start of a relative path and dropped at the start
  of a rooted one.
\<close>

fun clean_push :: "bool \<Rightarrow> string list \<Rightarrow> string list \<Rightarrow> string list" where
  "clean_push rooted out [] = out"
| "clean_push rooted out (p # ps) =
     (if p = [] \<or> p = ''.'' then clean_push rooted out ps
      else if p = ''..'' then
        (case out of
           q # qs \<Rightarrow> if q \<noteq> ''..'' then clean_push rooted qs ps
                     else clean_push rooted (p # out) ps
         | [] \<Rightarrow> if rooted then clean_push rooted [] ps else clean_push rooted [p] ps)
      else clean_push rooted (p # out) ps)"

definition Clean :: "string \<Rightarrow> string" where
  "Clean path =
     (if path = [] then ''.''
      else let rooted = (hd path = CHR ''/'');
               out = rev (clean_push rooted [] (Split path (CHR ''/'')))
           in if rooted then CHR ''/'' # join_with ''/'' out
              else if out = [] then ''.'' else join_with ''/'' out)"

definition Join :: "string list \<Rightarrow> string" where
  "Join elems =
     (case dropWhile (\<lambda>e. e = []) elems of
        [] \<Rightarrow> []
      | es \<Rightarrow> Clean (join_with ''/'' es))"

text \<open>\<^verbatim>\<open>filepath.Ext\<close>: the suffix from the last dot of the last path element.\<close>

definition Ext :: "string \<Rightarrow> string" where
  "Ext path =
     (let base = rev (takeWhile (\<lambda>c. c \<noteq> CHR ''/'') (rev path));
          tail = takeWhile (\<lambda>c. c \<noteq> CHR ''.'') (rev base)
      in if length tail = length base then [] else CHR ''.'' # rev tail)"

subsection \<open>Clean absolute paths\<close>

text \<open>A path element that \<open>Clean\<close> keeps, and the absolute path made of such elements.\<close>

definition simple_name :: "string \<Rightarrow> bool" where
  "simple_name f \<longleftrightarrow> f \<noteq> [] \<and> CHR ''/'' \<notin> set f \<and> f \<noteq> ''.'' \<and> f \<noteq> ''..''"

definition abs_path :: "string list \<Rightarrow> string" where
  "abs_path ps = CHR ''/'' # join_with ''/'' ps"

lemma Split_no_sep: "c \<notin> set x \<Longrightarrow> Split x c = [x]"
  by (induction x) auto

lemma Split_append_sep: "c \<notin> set x \<Longrightarrow> Split (x @ c # y) c = x # Split y c"
  by (induction x) auto

lemma Split_join_with:
  "ps \<noteq> [] \<Longrightarrow> \<forall>p\<in>set ps. CHR ''/'' \<notin> set p \<Longrightarrow> Split (join_with ''/'' ps) (CHR ''/'') = ps"
proof (induction ps rule: induct_list012)
  case (2 x)
  then show ?case by (simp add: Split_no_sep)
next
  case (3 x y zs)
  then show ?case by (simp add: Split_append_sep)
qed simp

lemma clean_push_simple: "list_all simple_name ps \<Longrightarrow> clean_push rooted out ps = rev ps @ out"
  by (induction ps arbitrary: out) (auto simp: simple_name_def)

lemma clean_push_append:
  "clean_push rooted out (ps @ qs) = clean_push rooted (clean_push rooted out ps) qs"
  by (induction rooted out ps rule: clean_push.induct) (auto split: list.splits)

text \<open>
  The cleaned form of an absolute directory joined with any relative path: the elements of the
  relative path are applied to the directory's elements one by one.
\<close>

lemma Join_abs_path_general:
  assumes ps: "list_all simple_name ps" and f: "f \<noteq> []"
  shows "Join [abs_path ps, f] =
    CHR ''/'' # join_with ''/'' (rev (clean_push True (rev ps) (Split f (CHR ''/''))))"
proof (cases "ps = []")
  case True
  then show ?thesis by (simp add: Join_def Clean_def abs_path_def)
next
  case False
  have no_sep: "\<forall>p\<in>set ps. CHR ''/'' \<notin> set p"
    using ps by (auto simp: list_all_iff simple_name_def)
  have sp: "\<And>qs. qs \<noteq> [] \<Longrightarrow> \<forall>p\<in>set qs. CHR ''/'' \<notin> set p \<Longrightarrow>
      Split (join_with ''/'' qs @ CHR ''/'' # f) (CHR ''/'') = qs @ Split f (CHR ''/'')"
    subgoal for qs
      by (induction qs rule: induct_list012) (simp_all add: Split_append_sep)
    done
  have "Split (abs_path ps @ CHR ''/'' # f) (CHR ''/'') = [] # ps @ Split f (CHR ''/'')"
    using sp [OF False no_sep] by (simp add: abs_path_def)
  then show ?thesis
    using ps by (simp add: Join_def Clean_def clean_push_append clean_push_simple)
      (simp add: abs_path_def)
qed

lemma Join_simple:
  "list_all simple_name ps \<Longrightarrow> simple_name f \<Longrightarrow> Join [abs_path ps, f] = abs_path (ps @ [f])"
  by (simp add: Join_abs_path_general simple_name_def Split_no_sep) (simp add: abs_path_def)

lemma abs_path_inject:
  assumes "list_all simple_name ps" and "list_all simple_name qs" and "ps \<noteq> []" and "qs \<noteq> []"
  shows "abs_path ps = abs_path qs \<longleftrightarrow> ps = qs"
proof
  assume "abs_path ps = abs_path qs"
  then have "Split (join_with ''/'' ps) (CHR ''/'') = Split (join_with ''/'' qs) (CHR ''/'')"
    by (simp add: abs_path_def)
  moreover have "\<forall>p\<in>set ps. CHR ''/'' \<notin> set p" and "\<forall>p\<in>set qs. CHR ''/'' \<notin> set p"
    using assms by (auto simp: list_all_iff simple_name_def)
  ultimately show "ps = qs" using assms by (simp add: Split_join_with)
qed simp

section \<open>Lists\<close>

lemma sublist_concat: "b \<in> set bs \<Longrightarrow> sublist b (concat bs)"
  by (metis concat.simps(2) concat_append split_list sublist_appendI)

end
