(* ===== verification/Float64.thy ===== *)
theory Float64
  imports Go_Prelude "HOL-Library.Log_Nat"
begin

text \<open>
  Go's \<^verbatim>\<open>float64\<close>: a finite value is a rational, and every arithmetic operation rounds its
  exact result to 53 bits, ties to even, with subnormals below \<open>2^-1022\<close> and infinities from
  \<open>2^1024\<close> on.  The two zeros are identified: no operation of the program distinguishes them.
  The lemmas say that the conversions used for the limits and the clock are exact in the range
  where the program uses them.
\<close>

datatype float64 = Fin rat | PInf | NInf | NaN

definition pow2 :: "int \<Rightarrow> rat" where
  "pow2 e = (if 0 \<le> e then 2 ^ nat e else 1 / 2 ^ nat (- e))"

text \<open>The exponent of the leading bit of a positive rational.\<close>

definition fexp :: "rat \<Rightarrow> int" where
  "fexp q =
     (let (n, d) = quotient_of q; e = bitlen n - bitlen d in if pow2 e \<le> q then e else e - 1)"

definition round_even :: "rat \<Rightarrow> int" where
  "round_even q =
     (let f = \<lfloor>q\<rfloor>; r = q - of_int f
      in if r < 1 / 2 then f else if 1 / 2 < r then f + 1 else if even f then f else f + 1)"

definition fl :: "rat \<Rightarrow> float64" where
  "fl q =
     (if q = 0 then Fin 0
      else let u = pow2 (max (fexp \<bar>q\<bar> - 52) (- 1074));
               r = of_int (round_even (q / u)) * u
           in if 2 ^ 1024 \<le> r then PInf else if r \<le> - (2 ^ 1024) then NInf else Fin r)"

definition float_of_int :: "int \<Rightarrow> float64" where
  "float_of_int n = fl (of_int n)"

fun fadd :: "float64 \<Rightarrow> float64 \<Rightarrow> float64" where
  "fadd (Fin a) (Fin b) = fl (a + b)"
| "fadd NaN _ = NaN"
| "fadd _ NaN = NaN"
| "fadd PInf NInf = NaN"
| "fadd NInf PInf = NaN"
| "fadd PInf _ = PInf"
| "fadd _ PInf = PInf"
| "fadd NInf _ = NInf"
| "fadd _ NInf = NInf"

definition signed_inf :: "bool \<Rightarrow> float64" where
  "signed_inf pos = (if pos then PInf else NInf)"

fun fmul :: "float64 \<Rightarrow> float64 \<Rightarrow> float64" where
  "fmul (Fin a) (Fin b) = fl (a * b)"
| "fmul NaN _ = NaN"
| "fmul _ NaN = NaN"
| "fmul (Fin a) PInf = (if a = 0 then NaN else signed_inf (0 < a))"
| "fmul PInf (Fin a) = (if a = 0 then NaN else signed_inf (0 < a))"
| "fmul (Fin a) NInf = (if a = 0 then NaN else signed_inf (a < 0))"
| "fmul NInf (Fin a) = (if a = 0 then NaN else signed_inf (a < 0))"
| "fmul PInf PInf = PInf"
| "fmul NInf NInf = PInf"
| "fmul PInf NInf = NInf"
| "fmul NInf PInf = NInf"

text \<open>Division by a finite constant other than zero, the only division the program makes.\<close>

fun fdivc :: "float64 \<Rightarrow> rat \<Rightarrow> float64" where
  "fdivc (Fin a) c = fl (a / c)"
| "fdivc NaN c = NaN"
| "fdivc PInf c = signed_inf (0 < c)"
| "fdivc NInf c = signed_inf (c < 0)"

text \<open>The comparisons: false as soon as an operand is not a number.\<close>

fun flt :: "float64 \<Rightarrow> float64 \<Rightarrow> bool" where
  "flt (Fin a) (Fin b) = (a < b)"
| "flt NaN _ = False"
| "flt _ NaN = False"
| "flt NInf x = (x \<noteq> NInf)"
| "flt _ NInf = False"
| "flt PInf _ = False"
| "flt _ PInf = True"

fun feq :: "float64 \<Rightarrow> float64 \<Rightarrow> bool" where
  "feq NaN _ = False"
| "feq x y = (x = y)"

definition fle :: "float64 \<Rightarrow> float64 \<Rightarrow> bool" where
  "fle x y \<longleftrightarrow> flt x y \<or> feq x y"

text \<open>
  The conversion \<^verbatim>\<open>int64(f)\<close> truncates; the language leaves the result open when the value does
  not fit, so that case is the parameter \<open>imp\<close>.
\<close>

definition trunc_rat :: "rat \<Rightarrow> int" where
  "trunc_rat q = (if 0 \<le> q then \<lfloor>q\<rfloor> else \<lceil>q\<rceil>)"

definition float_to_int :: "(float64 \<Rightarrow> int) \<Rightarrow> float64 \<Rightarrow> int" where
  "float_to_int imp f =
     (case f of
        Fin q \<Rightarrow> if int64_ok (trunc_rat q) then trunc_rat q else imp f
      | _ \<Rightarrow> imp f)"

text \<open>The verb \<^verbatim>\<open>%.2f\<close>: the exact value rounded to two decimals, ties to even.\<close>

definition fmt_f2 :: "float64 \<Rightarrow> string" where
  "fmt_f2 f =
     (case f of
        NaN \<Rightarrow> ''NaN'' | PInf \<Rightarrow> ''+Inf'' | NInf \<Rightarrow> ''-Inf''
      | Fin q \<Rightarrow>
          let n = round_even (\<bar>q\<bar> * 100)
          in (if q < 0 then ''-'' else []) @ dec (n div 100) @ ''.'' @
             [digit_char ((n mod 100) div 10), digit_char (n mod 10)])"

section \<open>Exactness\<close>

lemma pow2_pos [simp]: "0 < pow2 e"
  by (simp add: pow2_def)

lemma pow2_nonneg_exp [simp]: "0 \<le> e \<Longrightarrow> pow2 e = 2 ^ nat e"
  by (simp add: pow2_def)

lemma round_even_of_int [simp]: "round_even (of_int n) = n"
  by (simp add: round_even_def)

lemma fexp_of_int: "0 < n \<Longrightarrow> fexp (of_int n) = bitlen n - 1"
proof -
  assume n: "0 < n"
  have b1: "bitlen (1 :: int) = 1" by code_simp
  have "bitlen n \<noteq> 0" using n by (simp add: bitlen_eq_zero_iff)
  then have "1 \<le> bitlen n" using bitlen_nonneg [of n] by linarith
  moreover have "2 ^ nat (bitlen n - 1) \<le> n" using bitlen_bounds [OF n] by simp
  then have "(2 :: rat) ^ nat (bitlen n - 1) \<le> of_int n"
    by (metis of_int_le_iff of_int_numeral of_int_power)
  ultimately show ?thesis
    by (simp add: fexp_def b1 quotient_of_int)
qed

lemma div_pow2_int:
  assumes "e \<le> 0"
  shows "\<exists>m. (of_int n :: rat) / pow2 e = of_int m"
proof (intro exI)
  show "(of_int n :: rat) / pow2 e = of_int (n * 2 ^ nat (- e))"
    using assms by (cases "e = 0") (simp_all add: pow2_def)
qed

lemma fl_of_int_exact:
  assumes "\<bar>n\<bar> < 2 ^ 53"
  shows "fl (of_int n) = Fin (of_int n)"
proof (cases "n = 0")
  case False
  define e where "e = max (fexp \<bar>of_int n\<bar> - 52) (- 1074)"
  have "0 < \<bar>n\<bar>" using False by simp
  then have fe: "fexp \<bar>of_int n\<bar> = bitlen \<bar>n\<bar> - 1"
    using fexp_of_int [of "\<bar>n\<bar>"] by simp
  have "bitlen \<bar>n\<bar> \<le> 53"
  proof (rule ccontr)
    assume "\<not> bitlen \<bar>n\<bar> \<le> 53"
    then have "(53 :: nat) \<le> nat (bitlen \<bar>n\<bar> - 1)" by simp
    then have "(2 :: int) ^ 53 \<le> 2 ^ nat (bitlen \<bar>n\<bar> - 1)"
      by (rule power_increasing) simp
    with bitlen_bounds [OF \<open>0 < \<bar>n\<bar>\<close>] assms show False by linarith
  qed
  with fe have "e \<le> 0" by (simp add: e_def)
  then obtain m where m: "(of_int n :: rat) / pow2 e = of_int m"
    using div_pow2_int by blast
  then have r: "of_int (round_even (of_int n / pow2 e)) * pow2 e = (of_int n :: rat)"
    using pow2_pos [of e] by (simp add: field_simps)
  have big: "(of_int \<bar>n\<bar> :: rat) < 2 ^ 1024"
  proof -
    have "(of_int \<bar>n\<bar> :: rat) < of_int (2 ^ 53)" using assms by (simp only: of_int_less_iff)
    also have "\<dots> \<le> 2 ^ 1024" by simp
    finally show ?thesis .
  qed
  then have "\<not> (2 ^ 1024 \<le> (of_int n :: rat))" and "\<not> ((of_int n :: rat) \<le> - (2 ^ 1024))"
    by (simp_all add: abs_if split: if_splits)
  with False r show ?thesis
    by (simp add: fl_def Let_def e_def [symmetric])
qed (simp add: fl_def)

lemma float_of_int_exact [simp]: "\<bar>n\<bar> < 2 ^ 53 \<Longrightarrow> float_of_int n = Fin (of_int n)"
  by (simp add: float_of_int_def fl_of_int_exact)

lemma flt_irrefl [simp]: "\<not> flt x x"
  by (cases x) simp_all

end
