(* ===== verification/Go_IO.thy ===== *)
theory Go_IO
  imports Float64 "HOL-Library.State_Monad" "HOL-Library.Word"
begin

text \<open>
  The world the program runs in.  Every call that leaves the program (operating system, child
  processes, clock, random numbers, Redis, Prometheus) is an \<open>io_op\<close>; the world records the
  calls made so far in order, and a \<open>host\<close> answers each call from that history.  The host is a
  parameter of every operation, so a theorem that does not restrict it holds for every behaviour
  of the environment.  Operations are computations of the state monad over the world, and
  \<open>io_only\<close> says that a computation touches nothing of the world but the history and the
  round-robin core counter.
\<close>

section \<open>Calls to the outside\<close>

record SysProcAttr =
  spa_Setpgid :: bool
  spa_Uid :: int
  spa_Gid :: int
  spa_Pdeathsig :: string
  spa_Cloneflags :: "string list"

record cmdspec =
  cmd_Name :: string
  cmd_Args :: "string list"
  cmd_Dir :: string
  cmd_Stdin :: "string option"
  cmd_Timeout :: "int option"
  cmd_SysProcAttr :: "SysProcAttr option"

text \<open>\<^verbatim>\<open>exec.Command\<close> with nothing but a name and arguments, and an optional timeout.\<close>

definition plain_cmd :: "string \<Rightarrow> string list \<Rightarrow> int option \<Rightarrow> cmdspec" where
  "plain_cmd name args timeout =
     \<lparr>cmd_Name = name, cmd_Args = args, cmd_Dir = [], cmd_Stdin = None, cmd_Timeout = timeout,
      cmd_SysProcAttr = None\<rparr>"

text \<open>
  What a child process did: the error of \<^verbatim>\<open>Run\<close> or \<^verbatim>\<open>Wait\<close> and the chunks it wrote, in
  order.
\<close>

record proc =
  pr_Err :: "goerror option"
  pr_Stdout :: "string list"
  pr_Stderr :: "string list"

datatype io_op =
    Now
  | RandRead int
  | UuidNew
  | Getenv string
  | Hostname
  | Geteuid
  | NumCPU
  | Statfs string
  | MkdirTemp string
  | MkdirAll string int
  | WriteFile string string int
  | Chown string int int
  | Chmod string int
  | RemoveAll string
  | Remove string
  | Stat string
  | ReadFile string
  | OpenFile string
  | RunCmd cmdspec
  | CtxErr
  | WithTimeout int
  | SelectCase
  | StartCmd cmdspec
  | WaitCmd int
  | KillProcess int
  | KillGroup int
  | Rusage int
  | SchedSetaffinity int "64 word list"
  | RedisLPush string string
  | RedisBRPop string int
  | RedisLLen string
  | RedisPublish string string
  | RedisSubscribe string
  | PubSubClose string
  | RedisSet string string int
  | RedisGet string
  | RedisClose
  | MetricInc string "string list"
  | MetricObserve string "string list" float64
  | AuditLog string
  | WriteStdout string
  | WriteStderr string
  | Exit int
  | Sleep int
  | WsUpgrade
  | WsWriteJSON string
  | WsWriteMessage int string
  | WsClose
  | RedisParseURL string
  | RedisPing int
  | ListenAndServe string
  | ServerShutdown int
  | AwaitSignal

text \<open>
  The answers.  \<open>h_formatTime\<close> formats a local time by a layout and \<open>h_timeJSON\<close> a UTC time as JSON
  does; both depend on the host's time zone database only.  Calls that report only success or failure share \<open>h_err\<close>; \<open>h_ctxErr\<close> is the
  state of the context in force and \<open>h_select\<close> the case the runtime picks in a \<^verbatim>\<open>select\<close>.  \<open>h_wait\<close> says
  whether the watchdog fired before the child ended, and what the child did.
\<close>

record host =
  h_goos :: string
  h_unicodeLower :: "string \<Rightarrow> string"
  h_floatToInt :: "float64 \<Rightarrow> int"
  h_formatTime :: "string \<Rightarrow> int \<Rightarrow> string"
  h_timeJSON :: "int \<Rightarrow> string"
  h_now :: "io_op list \<Rightarrow> int"
  h_rand :: "io_op list \<Rightarrow> int \<Rightarrow> goerror + string"
  h_uuid :: "io_op list \<Rightarrow> string"
  h_getenv :: "io_op list \<Rightarrow> string \<Rightarrow> string"
  h_hostname :: "io_op list \<Rightarrow> goerror + string"
  h_geteuid :: "io_op list \<Rightarrow> int"
  h_numcpu :: "io_op list \<Rightarrow> int"
  h_statfs :: "io_op list \<Rightarrow> string \<Rightarrow> goerror + int"
  h_mkdirTemp :: "io_op list \<Rightarrow> string \<Rightarrow> goerror + string"
  h_err :: "io_op list \<Rightarrow> io_op \<Rightarrow> goerror option"
  h_read :: "io_op list \<Rightarrow> string \<Rightarrow> goerror + string"
  h_run :: "io_op list \<Rightarrow> cmdspec \<Rightarrow> proc"
  h_ctxErr :: "io_op list \<Rightarrow> goerror option"
  h_select :: "io_op list \<Rightarrow> nat"
  h_start :: "io_op list \<Rightarrow> cmdspec \<Rightarrow> goerror + int"
  h_wait :: "io_op list \<Rightarrow> int \<Rightarrow> bool \<times> proc"
  h_rusage :: "io_op list \<Rightarrow> int \<Rightarrow> (int \<times> int \<times> int \<times> int) option"
  h_parseInspect :: "string \<Rightarrow> goerror + (int \<times> bool) list"
  h_redisPop :: "io_op list \<Rightarrow> string \<Rightarrow> goerror + string list"
  h_redisLen :: "io_op list \<Rightarrow> string \<Rightarrow> goerror + int"
  h_redisGet :: "io_op list \<Rightarrow> string \<Rightarrow> goerror + string"

record world =
  w_trace :: "io_op list"
  w_nextCore :: int

text \<open>The world at program start; \<open>nextCore\<close> is Go's zero value.\<close>

definition world0 :: world where
  "world0 = \<lparr>w_trace = [], w_nextCore = 0\<rparr>"

abbreviation ret :: "'a \<Rightarrow> ('s, 'a) state" where
  "ret \<equiv> State_Monad.return"

definition perform :: "io_op \<Rightarrow> (io_op list \<Rightarrow> 'a) \<Rightarrow> ('z world_scheme, 'a) state" where
  "perform op answer = State (\<lambda>w. (answer (w_trace w), w\<lparr>w_trace := w_trace w @ [op]\<rparr>))"

lemma run_perform [simp]:
  "run_state (perform op f) w = (f (w_trace w), w\<lparr>w_trace := w_trace w @ [op]\<rparr>)"
  by (simp add: perform_def)

definition io_now :: "host \<Rightarrow> ('z world_scheme, int) state" where
  "io_now h = perform Now (h_now h)"

definition io_err :: "host \<Rightarrow> io_op \<Rightarrow> ('z world_scheme, goerror option) state" where
  "io_err h op = perform op (\<lambda>tr. h_err h tr op)"

text \<open>A call whose outcome the program never looks at, such as a counter increment.\<close>

definition io_do :: "io_op \<Rightarrow> ('z world_scheme, unit) state" where
  "io_do op = perform op (\<lambda>_. ())"

lemma run_io_now [simp]:
  "run_state (io_now h) w = (h_now h (w_trace w), w\<lparr>w_trace := w_trace w @ [Now]\<rparr>)"
  by (simp add: io_now_def)

lemma run_io_err [simp]:
  "run_state (io_err h op) w = (h_err h (w_trace w) op, w\<lparr>w_trace := w_trace w @ [op]\<rparr>)"
  by (simp add: io_err_def)

lemma run_io_do [simp]: "run_state (io_do op) w = ((), w\<lparr>w_trace := w_trace w @ [op]\<rparr>)"
  by (simp add: io_do_def)

lemma run_pair: "run_state m w = (fst (run_state m w), snd (run_state m w))"
  by simp

lemma run_unit: "run_state m w = ((), snd (run_state m w))"
  by (simp add: prod_eq_iff)

section \<open>Time\<close>

text \<open>
  A \<^verbatim>\<open>time.Time\<close> is a number of nanoseconds, zero for Go's zero time; a
  \<^verbatim>\<open>time.Duration\<close> is a 64-bit number of nanoseconds.
\<close>

type_synonym gotime = int

definition IsZero :: "gotime \<Rightarrow> bool" where
  "IsZero t \<longleftrightarrow> t = 0"

definition Millisecond :: int where "Millisecond = 1000000"

definition Second :: int where "Second = 1000000000"

definition Hour :: int where "Hour = 3600 * Second"

text \<open>\<^verbatim>\<open>time.Since(start)\<close>, saturating as \<^verbatim>\<open>Time.Sub\<close> does, and \<^verbatim>\<open>Duration.Seconds\<close>.\<close>

definition time_sub :: "gotime \<Rightarrow> gotime \<Rightarrow> int" where
  "time_sub t u = max (- (2 ^ 63)) (min (2 ^ 63 - 1) (t - u))"

definition Seconds :: "int \<Rightarrow> float64" where
  "Seconds d =
     fadd (float_of_int (go_div d Second)) (fdivc (float_of_int (go_mod d Second)) 1000000000)"

text \<open>The recurring expression \<^verbatim>\<open>time.Since(start).Seconds() * 1000.0\<close>.\<close>

definition elapsed_ms :: "gotime \<Rightarrow> gotime \<Rightarrow> float64" where
  "elapsed_ms start stop = fmul (Seconds (time_sub stop start)) (Fin 1000)"

section \<open>JSON\<close>

text \<open>
  \<^verbatim>\<open>json.Marshal\<close> and \<^verbatim>\<open>json.Unmarshal\<close> at one type.  A codec is faithful on a set of values when
  what it encodes decodes to the same value; Go's is on values whose strings are valid UTF-8.
\<close>

record 'a codec =
  cd_Marshal :: "'a \<Rightarrow> goerror + string"
  cd_Unmarshal :: "string \<Rightarrow> goerror + 'a"

definition codec_faithful :: "('a \<Rightarrow> bool) \<Rightarrow> 'a codec \<Rightarrow> bool" where
  "codec_faithful P c \<longleftrightarrow>
     (\<forall>x s. P x \<longrightarrow> cd_Marshal c x = Inr s \<longrightarrow> cd_Unmarshal c s = Inr x)"

lemma codec_faithfulD:
  "codec_faithful P c \<Longrightarrow> P x \<Longrightarrow> cd_Marshal c x = Inr s \<Longrightarrow> cd_Unmarshal c s = Inr x"
  by (simp add: codec_faithful_def)

section \<open>Frames\<close>

definition io_only :: "('z world_scheme, 'a) state \<Rightarrow> bool" where
  "io_only m \<longleftrightarrow>
     (\<forall>w. \<exists>ops c. snd (run_state m w) = w\<lparr>w_trace := w_trace w @ ops, w_nextCore := c\<rparr>)"

lemma io_only_E:
  assumes "io_only m"
  obtains ops c where "snd (run_state m w) = w\<lparr>w_trace := w_trace w @ ops, w_nextCore := c\<rparr>"
  using assms unfolding io_only_def by blast

lemma io_only_run:
  assumes "io_only m" and "run_state m w = (x, w')"
  obtains ops c where "w' = w\<lparr>w_trace := w_trace w @ ops, w_nextCore := c\<rparr>"
  using io_only_E [OF assms(1), of w] assms(2) by (metis snd_conv)

lemma io_only_return [io_frame]: "io_only (State_Monad.return x)"
  unfolding io_only_def
proof
  fix w :: "'a world_scheme"
  have "snd (run_state (State_Monad.return x) w) =
      w\<lparr>w_trace := w_trace w @ [], w_nextCore := w_nextCore w\<rparr>" by simp
  then show "\<exists>ops c. snd (run_state (State_Monad.return x) w) =
      w\<lparr>w_trace := w_trace w @ ops, w_nextCore := c\<rparr>" by blast
qed

lemma io_only_perform [io_frame]: "io_only (perform op f)"
  unfolding io_only_def
proof
  fix w :: "'a world_scheme"
  have "snd (run_state (perform op f) w) =
      w\<lparr>w_trace := w_trace w @ [op], w_nextCore := w_nextCore w\<rparr>" by simp
  then show "\<exists>ops c. snd (run_state (perform op f) w) =
      w\<lparr>w_trace := w_trace w @ ops, w_nextCore := c\<rparr>" by blast
qed

lemma io_only_bind [io_frame]:
  assumes m: "io_only m" and f: "\<And>x. io_only (f x)"
  shows "io_only (State_Monad.bind m f)"
  unfolding io_only_def
proof
  fix w
  obtain x w' where w': "run_state m w = (x, w')" by (cases "run_state m w")
  obtain ops c where 1: "w' = w\<lparr>w_trace := w_trace w @ ops, w_nextCore := c\<rparr>"
    using io_only_run [OF m w'] by blast
  obtain ops' c' where 2:
    "snd (run_state (f x) w') = w'\<lparr>w_trace := w_trace w' @ ops', w_nextCore := c'\<rparr>"
    using io_only_E [OF f] by blast
  have "snd (run_state (State_Monad.bind m f) w) =
      w\<lparr>w_trace := w_trace w @ (ops @ ops'), w_nextCore := c'\<rparr>"
    using 2 by (simp add: w' 1)
  then show "\<exists>ops c. snd (run_state (State_Monad.bind m f) w) =
      w\<lparr>w_trace := w_trace w @ ops, w_nextCore := c\<rparr>" by blast
qed

lemma io_only_now [io_frame]: "io_only (io_now h)"
  unfolding io_now_def by (rule io_only_perform)

lemma io_only_err [io_frame]: "io_only (io_err h op)"
  unfolding io_err_def by (rule io_only_perform)

lemma io_only_do [io_frame]: "io_only (io_do op)"
  unfolding io_do_def by (rule io_only_perform)

lemma io_only_if [io_frame]: "io_only m \<Longrightarrow> io_only n \<Longrightarrow> io_only (if b then m else n)"
  by simp

lemma io_only_case_sum [io_frame]:
  "(\<And>x. io_only (f x)) \<Longrightarrow> (\<And>y. io_only (g y)) \<Longrightarrow>
    io_only (case s of Inl x \<Rightarrow> f x | Inr y \<Rightarrow> g y)"
  by (cases s) simp_all

lemma io_only_case_option [io_frame]:
  "io_only m \<Longrightarrow> (\<And>x. io_only (f x)) \<Longrightarrow> io_only (case opt of None \<Rightarrow> m | Some x \<Rightarrow> f x)"
  by (cases opt) simp_all

lemma io_only_case_prod [io_frame]:
  "(\<And>x y. io_only (f x y)) \<Longrightarrow> io_only (case p of (x, y) \<Rightarrow> f x y)"
  by (cases p) simp

lemma io_only_Let [io_frame]: "(\<And>x. io_only (f x)) \<Longrightarrow> io_only (let x = e in f x)"
  by simp

end
