(* ===== verification/Models.thy ===== *)
theory Models
  imports Go_IO
begin

text \<open>
  Package \<^verbatim>\<open>models\<close>: the verdicts, the execution request with its defaults and caps, and the
  results.  The main facts are that \<open>Normalize\<close> puts every limit into its range, that it is
  idempotent, and that the watchdog duration of a normalized request is exact.
\<close>

section \<open>Verdicts\<close>

text \<open>\<open>VerdictNone\<close> is the zero value, the empty string, of a result that was never judged.\<close>

datatype Verdict =
    VerdictAccepted
  | VerdictWrongAnswer
  | VerdictTimeLimitExceeded
  | VerdictMemoryLimitExceeded
  | VerdictCompilationError
  | VerdictRuntimeError
  | VerdictOutputLimitExceeded
  | VerdictSystemError
  | VerdictNone

fun Verdict_String :: "Verdict \<Rightarrow> string" where
  "Verdict_String VerdictAccepted = ''ACCEPTED''"
| "Verdict_String VerdictWrongAnswer = ''WRONG_ANSWER''"
| "Verdict_String VerdictTimeLimitExceeded = ''TIME_LIMIT_EXCEEDED''"
| "Verdict_String VerdictMemoryLimitExceeded = ''MEMORY_LIMIT_EXCEEDED''"
| "Verdict_String VerdictCompilationError = ''COMPILATION_ERROR''"
| "Verdict_String VerdictRuntimeError = ''RUNTIME_ERROR''"
| "Verdict_String VerdictOutputLimitExceeded = ''OUTPUT_LIMIT_EXCEEDED''"
| "Verdict_String VerdictSystemError = ''SYSTEM_ERROR''"
| "Verdict_String VerdictNone = []"

section \<open>Results\<close>

record CompilationResult =
  comp_Success :: bool
  comp_ExitCode :: int
  comp_Stdout :: string
  comp_Stderr :: string
  comp_TimeMs :: float64

definition CompilationResult_zero :: CompilationResult where
  "CompilationResult_zero =
     \<lparr>comp_Success = False, comp_ExitCode = 0, comp_Stdout = [], comp_Stderr = [],
      comp_TimeMs = Fin 0\<rparr>"

record ExecutionResult =
  er_ID :: string
  er_Verdict :: Verdict
  er_ExitCode :: int
  er_Stdout :: string
  er_Stderr :: string
  er_WallTimeMs :: float64
  er_CpuTimeMs :: float64
  er_PeakMemoryKB :: int
  er_PeakMemoryMB :: float64
  er_OOMKilled :: bool
  er_Compilation :: "CompilationResult option"
  er_ErrorDetails :: string
  er_SandboxBackend :: string
  er_ExecutedAt :: gotime

definition ExecutionResult_zero :: ExecutionResult where
  "ExecutionResult_zero =
     \<lparr>er_ID = [], er_Verdict = VerdictNone, er_ExitCode = 0, er_Stdout = [], er_Stderr = [],
      er_WallTimeMs = Fin 0, er_CpuTimeMs = Fin 0, er_PeakMemoryKB = 0, er_PeakMemoryMB = Fin 0,
      er_OOMKilled = False, er_Compilation = None, er_ErrorDetails = [], er_SandboxBackend = [],
      er_ExecutedAt = 0\<rparr>"

section \<open>Requests\<close>

definition DefaultTimeLimitMs :: int where "DefaultTimeLimitMs = 2000"
definition DefaultMemoryLimitMB :: int where "DefaultMemoryLimitMB = 128"
definition DefaultCpuQuota :: float64 where "DefaultCpuQuota = Fin 1"
definition DefaultPidsLimit :: int where "DefaultPidsLimit = 32"
definition DefaultMaxOutputBytes :: int where "DefaultMaxOutputBytes = 1048576"
definition MaxAllowedTimeLimitMs :: int where "MaxAllowedTimeLimitMs = 10000"
definition MaxAllowedMemoryMB :: int where "MaxAllowedMemoryMB = 1024"

lemmas limit_defs =
  DefaultTimeLimitMs_def DefaultMemoryLimitMB_def DefaultCpuQuota_def DefaultPidsLimit_def
  DefaultMaxOutputBytes_def MaxAllowedTimeLimitMs_def MaxAllowedMemoryMB_def

record ExecutionRequest =
  req_ID :: string
  req_Language :: string
  req_Code :: string
  req_Stdin :: string
  req_ExpectedOutput :: string
  req_TimeLimitMs :: int
  req_MemoryLimitMB :: int
  req_CpuQuota :: float64
  req_PidsLimit :: int
  req_MaxOutputBytes :: int
  req_SandboxType :: string

definition hex_digit :: "nat \<Rightarrow> char" where
  "hex_digit d = ''0123456789abcdef'' ! d"

definition hex_EncodeToString :: "string \<Rightarrow> string" where
  "hex_EncodeToString bs =
     concat (map (\<lambda>b. [hex_digit (of_char b div 16), hex_digit (of_char b mod 16)]) bs)"

definition generateExecutionID :: "host \<Rightarrow> ('z world_scheme, string) state" where
  "generateExecutionID h = do {
     r \<leftarrow> perform (RandRead 8) (\<lambda>tr. h_rand h tr 8);
     (case r of
        Inl _ \<Rightarrow> do { t \<leftarrow> io_now h; ret (''exec-'' @ h_formatTime h ''20060102150405'' t) }
      | Inr b \<Rightarrow> ret (''exec-'' @ hex_EncodeToString b))
   }"

text \<open>The canonical language name, as \<open>Normalize\<close> computes it in place.\<close>

definition normalize_language :: "host \<Rightarrow> string \<Rightarrow> string" where
  "normalize_language h l =
     (let l1 = ToLower (h_unicodeLower h) (TrimSpace l);
          l2 = (if l1 = ''py'' \<or> l1 = ''python'' then ''python3'' else l1)
      in if l2 = ''c++'' \<or> l2 = ''g++'' then ''cpp'' else l2)"

text \<open>The assignments of \<open>Normalize\<close> after the identifier is settled.\<close>

definition normalize_fields :: "host \<Rightarrow> string \<Rightarrow> ExecutionRequest \<Rightarrow> ExecutionRequest" where
  "normalize_fields h i r =
     r\<lparr>req_ID := i,
       req_Language := normalize_language h (req_Language r),
       req_TimeLimitMs :=
         (if req_TimeLimitMs r \<le> 0 then DefaultTimeLimitMs
          else if MaxAllowedTimeLimitMs < req_TimeLimitMs r then MaxAllowedTimeLimitMs
          else req_TimeLimitMs r),
       req_MemoryLimitMB :=
         (if req_MemoryLimitMB r \<le> 0 then DefaultMemoryLimitMB
          else if MaxAllowedMemoryMB < req_MemoryLimitMB r then MaxAllowedMemoryMB
          else req_MemoryLimitMB r),
       req_CpuQuota := (if fle (req_CpuQuota r) (Fin 0) then DefaultCpuQuota else req_CpuQuota r),
       req_PidsLimit := (if req_PidsLimit r \<le> 0 then DefaultPidsLimit else req_PidsLimit r),
       req_MaxOutputBytes :=
         (if req_MaxOutputBytes r \<le> 0 then DefaultMaxOutputBytes else req_MaxOutputBytes r),
       req_SandboxType := (if req_SandboxType r = [] then ''auto'' else req_SandboxType r)\<rparr>"

definition Normalize :: "host \<Rightarrow> ExecutionRequest \<Rightarrow> ('z world_scheme, ExecutionRequest) state" where
  "Normalize h r = do {
     i \<leftarrow> (if req_ID r = [] then generateExecutionID h else ret (req_ID r));
     ret (normalize_fields h i r)
   }"

definition TimeoutDuration :: "ExecutionRequest \<Rightarrow> int" where
  "TimeoutDuration r = wrap64 (req_TimeLimitMs r * Millisecond)"

section \<open>Normalized requests\<close>

text \<open>What the rest of the program may rely on after \<open>Normalize\<close>.\<close>

definition normalized :: "ExecutionRequest \<Rightarrow> bool" where
  "normalized r \<longleftrightarrow>
     req_ID r \<noteq> [] \<and>
     0 < req_TimeLimitMs r \<and> req_TimeLimitMs r \<le> MaxAllowedTimeLimitMs \<and>
     0 < req_MemoryLimitMB r \<and> req_MemoryLimitMB r \<le> MaxAllowedMemoryMB \<and>
     \<not> fle (req_CpuQuota r) (Fin 0) \<and>
     0 < req_PidsLimit r \<and> 0 < req_MaxOutputBytes r \<and> req_SandboxType r \<noteq> []"

lemma generateExecutionID_prefix:
  "prefix ''exec-'' (fst (run_state (generateExecutionID h) w))"
  by (auto simp: generateExecutionID_def split: sum.splits)

lemma generateExecutionID_nonempty [simp]: "fst (run_state (generateExecutionID h) w) \<noteq> []"
  using generateExecutionID_prefix [of h w] by auto

lemma io_only_generateExecutionID [io_frame]: "io_only (generateExecutionID h)"
  unfolding generateExecutionID_def by (intro io_frame)

lemma io_only_Normalize [io_frame]: "io_only (Normalize h r)"
  unfolding Normalize_def by (intro io_frame)

lemma normalized_fields: "i \<noteq> [] \<Longrightarrow> normalized (normalize_fields h i r)"
  by (simp add: normalize_fields_def normalized_def limit_defs fle_def)

lemma Normalize_fst:
  "fst (run_state (Normalize h r) w) =
     normalize_fields h
       (if req_ID r = [] then fst (run_state (generateExecutionID h) w) else req_ID r) r"
  by (simp add: Normalize_def split_def)

lemma Normalize_normalized: "normalized (fst (run_state (Normalize h r) w))"
  by (simp add: Normalize_fst normalized_fields)

text \<open>What \<open>Normalize\<close> never changes.\<close>

lemma normalize_fields_frame [simp]:
  "req_ID (normalize_fields h i r) = i"
  "req_Code (normalize_fields h i r) = req_Code r"
  "req_Stdin (normalize_fields h i r) = req_Stdin r"
  "req_ExpectedOutput (normalize_fields h i r) = req_ExpectedOutput r"
  "req_Language (normalize_fields h i r) = normalize_language h (req_Language r)"
  by (simp_all add: normalize_fields_def)

lemma Normalize_given_id:
  "req_ID r \<noteq> [] \<Longrightarrow> run_state (Normalize h r) w = (normalize_fields h (req_ID r) r, w)"
  by (simp add: Normalize_def)

lemma normalize_fields_normalized:
  "normalized r \<Longrightarrow> normalize_language h (req_Language r) = req_Language r \<Longrightarrow>
    normalize_fields h (req_ID r) r = r"
  by (simp add: normalize_fields_def normalized_def)

lemma normalize_language_canonical [simp]:
  "normalize_language h ''python3'' = ''python3''" "normalize_language h ''cpp'' = ''cpp''"
proof -
  have "trimmed ''python3''" and "trimmed ''cpp''" and "is_ascii ''python3''" and "is_ascii ''cpp''"
    and "map lower_byte ''python3'' = ''python3''" and "map lower_byte ''cpp'' = ''cpp''"
    by code_simp+
  then show "normalize_language h ''python3'' = ''python3''" "normalize_language h ''cpp'' = ''cpp''"
    by (simp_all add: normalize_language_def)
qed

text \<open>Normalizing a language name twice is the same as once, for names that Go lowers bytewise.\<close>

lemma normalize_language_idem:
  assumes "is_ascii (TrimSpace l)"
  shows "normalize_language h (normalize_language h l) = normalize_language h l"
proof -
  define t where "t = map lower_byte (TrimSpace l)"
  have t: "trimmed t" "is_ascii t" "map lower_byte t = t"
    using assms by (simp_all add: t_def)
  have l: "normalize_language h l =
      (if t = ''py'' \<or> t = ''python'' then ''python3'' else if t = ''c++'' \<or> t = ''g++'' then ''cpp'' else t)"
    using assms by (auto simp: normalize_language_def t_def Let_def)
  show ?thesis
    using t by (auto simp: l) (auto simp: normalize_language_def Let_def)
qed

lemma TimeoutDuration_exact:
  "normalized r \<Longrightarrow> TimeoutDuration r = req_TimeLimitMs r * 1000000"
  by (simp add: TimeoutDuration_def Millisecond_def normalized_def limit_defs int64_ok_def)

end
