(* ===== verification/Languages.thy ===== *)
theory Languages
  imports Models "HOL-Library.AList"
begin

text \<open>
  Package \<^verbatim>\<open>languages\<close>: the \<^verbatim>\<open>LanguageHandler\<close> interface as a record of its methods, the two
  handlers, and the registry with its alias-resolving lookup.  The locale \<open>language_handler\<close>
  states what the sandbox backends rely on; both handlers are interpretations of it.
\<close>

record LanguageHandler =
  lh_Name :: string
  lh_SourceFilename :: string
  lh_BinaryFilename :: string
  lh_NeedsCompilation :: bool
  lh_CompileCommand :: "string \<Rightarrow> string \<Rightarrow> string \<times> string list"
  lh_RunCommand :: "string \<Rightarrow> string \<times> string list"

section \<open>The handlers\<close>

definition Cpp_CompileCommand :: "string \<Rightarrow> string \<Rightarrow> string \<times> string list" where
  "Cpp_CompileCommand sourcePath binaryPath =
     (''g++'', [''-O3'', ''-std=c++17'', ''-Wall'', ''-Wextra'', ''-DONLINE_JUDGE'', ''-pipe'',
        sourcePath, ''-o'', binaryPath])"

definition Cpp_RunCommand :: "string \<Rightarrow> string \<times> string list" where
  "Cpp_RunCommand targetPath = (targetPath, [])"

definition CppHandler :: LanguageHandler where
  "CppHandler =
     \<lparr>lh_Name = ''cpp'', lh_SourceFilename = ''solution.cpp'', lh_BinaryFilename = ''solution'',
      lh_NeedsCompilation = True, lh_CompileCommand = Cpp_CompileCommand,
      lh_RunCommand = Cpp_RunCommand\<rparr>"

definition Python_CompileCommand :: "string \<Rightarrow> string \<Rightarrow> string \<times> string list" where
  "Python_CompileCommand _ _ = ([], [])"

definition Python_RunCommand :: "string \<Rightarrow> string \<times> string list" where
  "Python_RunCommand targetPath = (''python3'', [''-u'', ''-B'', targetPath])"

definition PythonHandler :: LanguageHandler where
  "PythonHandler =
     \<lparr>lh_Name = ''python3'', lh_SourceFilename = ''solution.py'', lh_BinaryFilename = [],
      lh_NeedsCompilation = False, lh_CompileCommand = Python_CompileCommand,
      lh_RunCommand = Python_RunCommand\<rparr>"

section \<open>The registry\<close>

type_synonym registry = "(string \<times> LanguageHandler) list"

definition Register :: "host \<Rightarrow> LanguageHandler \<Rightarrow> registry \<Rightarrow> registry" where
  "Register h handler reg = AList.update (ToLower (h_unicodeLower h) (lh_Name handler)) handler reg"

definition init_registry :: "host \<Rightarrow> registry" where
  "init_registry h = Register h PythonHandler (Register h CppHandler [])"

definition unsupported_language :: "string \<Rightarrow> goerror" where
  "unsupported_language lang =
     ErrNew (''unsupported language: '' @ [CHR 0x27] @ lang @ [CHR 0x27] @
       '' (supported: cpp, python3)'')"

definition Get :: "host \<Rightarrow> registry \<Rightarrow> string \<Rightarrow> goerror + LanguageHandler" where
  "Get h reg lang =
     (let n0 = ToLower (h_unicodeLower h) (TrimSpace lang);
          n1 = (if n0 = ''python'' \<or> n0 = ''py'' then ''python3'' else n0);
          n2 = (if n1 = ''c++'' \<or> n1 = ''g++'' then ''cpp'' else n1)
      in case map_of reg n2 of
           None \<Rightarrow> Inl (unsupported_language lang)
         | Some handler \<Rightarrow> Inr handler)"

text \<open>
  The names of all registered languages; Go iterates over a map in an unspecified order, so the
  result is any list with these elements.
\<close>

definition is_SupportedLanguages :: "registry \<Rightarrow> string list \<Rightarrow> bool" where
  "is_SupportedLanguages reg ks \<longleftrightarrow> distinct ks \<and> set ks = fst ` set reg"

section \<open>What a handler promises\<close>

locale language_handler =
  fixes lh :: LanguageHandler
  assumes source_simple: "simple_name (lh_SourceFilename lh)"
    and binary_iff: "lh_NeedsCompilation lh \<longleftrightarrow> lh_BinaryFilename lh \<noteq> []"
    and binary_simple: "lh_NeedsCompilation lh \<Longrightarrow> simple_name (lh_BinaryFilename lh)"
    and files_differ: "lh_SourceFilename lh \<noteq> lh_BinaryFilename lh"
    and run_uses_target:
      "lh_RunCommand lh t = (c, as) \<Longrightarrow> t \<in> insert c (set as)"
    and compile_uses_paths:
      "lh_NeedsCompilation lh \<Longrightarrow> lh_CompileCommand lh s b = (c, as) \<Longrightarrow> {s, b} \<subseteq> set as"
begin

text \<open>Inside a clean directory the source and the program are two different files.\<close>

lemma source_path:
  "list_all simple_name ps \<Longrightarrow> Join [abs_path ps, lh_SourceFilename lh] = abs_path (ps @ [lh_SourceFilename lh])"
  by (simp add: Join_simple source_simple)

lemma binary_path:
  "lh_NeedsCompilation lh \<Longrightarrow> list_all simple_name ps \<Longrightarrow>
    Join [abs_path ps, lh_BinaryFilename lh] = abs_path (ps @ [lh_BinaryFilename lh])"
  by (simp add: Join_simple binary_simple)

lemma paths_differ:
  "lh_NeedsCompilation lh \<Longrightarrow> list_all simple_name ps \<Longrightarrow>
    Join [abs_path ps, lh_SourceFilename lh] \<noteq> Join [abs_path ps, lh_BinaryFilename lh]"
  using files_differ
  by (simp add: Join_simple source_simple binary_simple abs_path_inject)

end

lemmas handler_defs =
  CppHandler_def PythonHandler_def Cpp_CompileCommand_def Cpp_RunCommand_def
  Python_CompileCommand_def Python_RunCommand_def

interpretation cpp: language_handler CppHandler
  by unfold_locales (auto simp: handler_defs simple_name_def)

interpretation python: language_handler PythonHandler
  by unfold_locales (auto simp: handler_defs simple_name_def)

section \<open>The lookup\<close>

lemma init_registry_eq:
  "init_registry h = [(''cpp'', CppHandler), (''python3'', PythonHandler)]"
proof -
  have a: "is_ascii ''cpp''" "is_ascii ''python3''"
    "map lower_byte ''cpp'' = ''cpp''" "map lower_byte ''python3'' = ''python3''"
    by code_simp+
  then show ?thesis
    by (simp add: init_registry_def Register_def CppHandler_def [THEN arg_cong [where f = lh_Name]]
        PythonHandler_def [THEN arg_cong [where f = lh_Name]])
qed

lemma map_of_init_registry:
  "map_of (init_registry h) n =
     (if n = ''cpp'' then Some CppHandler else if n = ''python3'' then Some PythonHandler else None)"
  by (simp add: init_registry_eq)

text \<open>
  The lookup canonicalises a name exactly as \<open>Normalize\<close> does, so a handler found for a request
  is found again, and is the same, after normalization.
\<close>

lemma Get_normalize_language:
  "Get h reg l =
     (case map_of reg (normalize_language h l) of
        None \<Rightarrow> Inl (unsupported_language l) | Some lh \<Rightarrow> Inr lh)"
  by (auto simp: Get_def normalize_language_def Let_def)

lemma Get_Inr_iff:
  "Get h (init_registry h) l = Inr lh \<longleftrightarrow>
     (normalize_language h l = ''cpp'' \<and> lh = CppHandler) \<or>
     (normalize_language h l = ''python3'' \<and> lh = PythonHandler)"
  by (auto simp: Get_normalize_language map_of_init_registry split: option.splits if_splits)

lemma Get_handler: "Get h (init_registry h) l = Inr lh \<Longrightarrow> language_handler lh"
  by (auto simp: Get_Inr_iff cpp.language_handler_axioms python.language_handler_axioms)

lemma Get_Name: "Get h (init_registry h) l = Inr lh \<Longrightarrow> lh_Name lh = normalize_language h l"
  by (auto simp: Get_Inr_iff CppHandler_def PythonHandler_def)

lemma Get_Inl: "Get h reg l = Inl e \<Longrightarrow> e = unsupported_language l"
  by (auto simp: Get_normalize_language split: option.splits)

lemma Get_spellings:
  "Get h (init_registry h) l =
     (if ToLower (h_unicodeLower h) (TrimSpace l) \<in> {''cpp'', ''c++'', ''g++''} then Inr CppHandler
      else if ToLower (h_unicodeLower h) (TrimSpace l) \<in> {''python3'', ''python'', ''py''} then Inr PythonHandler
      else Inl (unsupported_language l))"
  by (auto simp: Get_def map_of_init_registry Let_def)

lemma Get_again:
  "Get h (init_registry h) l = Inr lh \<Longrightarrow> Get h (init_registry h) (normalize_language h l) = Inr lh"
  by (auto simp: Get_Inr_iff)

end
