(* ===== verification/Watchdog.thy ===== *)
theory Watchdog
  imports Go_Prelude
begin

text \<open>
  \<^verbatim>\<open>sandbox/watchdog.go\<close>: the bounded buffer that captures a child's output.  The abstract view
  of a buffer is the sequence of bytes written to it; \<open>capture_view\<close> relates it to the concrete
  fields, and the lemmas show that any sequence of writes keeps that relation: the buffer holds
  the first bytes up to the cap, whatever the chunking, and never more.
\<close>

record BoundedBuffer =
  bb_buf :: string
  bb_maxBytes :: int
  bb_written :: int
  bb_exceeded :: bool

definition NewBoundedBuffer :: "int \<Rightarrow> BoundedBuffer" where
  "NewBoundedBuffer maxBytes =
     \<lparr>bb_buf = [], bb_maxBytes = (if maxBytes \<le> 0 then 1048576 else maxBytes),
      bb_written = 0, bb_exceeded = False\<rparr>"

definition Write :: "string \<Rightarrow> BoundedBuffer \<Rightarrow> int \<times> BoundedBuffer" where
  "Write p b =
     (let n = int (length p);
          b1 = b\<lparr>bb_written := wrap64 (bb_written b + n)\<rparr>;
          b2 = (if int (length (bb_buf b1)) < bb_maxBytes b1 then
                  (let remaining = bb_maxBytes b1 - int (length (bb_buf b1))
                   in if int (length p) \<le> remaining
                      then b1\<lparr>bb_buf := bb_buf b1 @ p\<rparr>
                      else b1\<lparr>bb_buf := bb_buf b1 @ take (nat remaining) p, bb_exceeded := True\<rparr>)
                else b1\<lparr>bb_exceeded := True\<rparr>)
      in (n, b2))"

definition Buf_String :: "BoundedBuffer \<Rightarrow> string" where
  "Buf_String b = bb_buf b"

definition Exceeded :: "BoundedBuffer \<Rightarrow> bool" where
  "Exceeded b = bb_exceeded b"

definition TotalWritten :: "BoundedBuffer \<Rightarrow> int" where
  "TotalWritten b = bb_written b"

text \<open>The copy loop of \<^verbatim>\<open>os/exec\<close>: one write per chunk the child produced.\<close>

fun feed :: "BoundedBuffer \<Rightarrow> string list \<Rightarrow> BoundedBuffer" where
  "feed b [] = b"
| "feed b (p # ps) = feed (snd (Write p b)) ps"

section \<open>The abstract view\<close>

definition capture_view :: "string \<Rightarrow> BoundedBuffer \<Rightarrow> bool" where
  "capture_view s b \<longleftrightarrow>
     0 < bb_maxBytes b \<and>
     bb_buf b = take (nat (bb_maxBytes b)) s \<and>
     bb_written b = wrap64 (int (length s)) \<and>
     (bb_maxBytes b < int (length s) \<longrightarrow> bb_exceeded b) \<and>
     (bb_exceeded b \<longrightarrow> bb_maxBytes b \<le> int (length s))"

lemma capture_view_new: "capture_view [] (NewBoundedBuffer m)"
  by (simp add: capture_view_def NewBoundedBuffer_def int64_ok_def)

lemma wrap64_add_wrap64: "wrap64 (wrap64 x + y) = wrap64 (x + y)"
proof -
  have "((x + 2 ^ 63) mod 2 ^ 64 + y) mod 2 ^ 64 = (x + 2 ^ 63 + y) mod (2 ^ 64 :: int)"
    by (rule mod_add_left_eq)
  then show ?thesis by (simp add: wrap64_def ac_simps)
qed

lemma Write_maxBytes [simp]: "bb_maxBytes (snd (Write p b)) = bb_maxBytes b"
  by (simp add: Write_def Let_def)

lemma Write_count: "fst (Write p b) = int (length p)"
  by (simp add: Write_def Let_def)

lemma capture_view_Write:
  assumes "capture_view s b"
  shows "capture_view (s @ p) (snd (Write p b))"
proof (cases "int (length s) < bb_maxBytes b")
  case True
  with assms show ?thesis
    by (auto simp: capture_view_def Write_def Let_def wrap64_add_wrap64 nat_diff_distrib)
next
  case False
  with assms show ?thesis
    by (auto simp: capture_view_def Write_def Let_def wrap64_add_wrap64)
qed

lemma capture_view_feed: "capture_view s b \<Longrightarrow> capture_view (s @ concat ps) (feed b ps)"
proof (induction ps arbitrary: s b)
  case (Cons p ps)
  from Cons.IH [OF capture_view_Write [OF Cons.prems]] show ?case by simp
qed simp

lemma feed_maxBytes [simp]: "bb_maxBytes (feed b ps) = bb_maxBytes b"
  by (induction ps arbitrary: b) simp_all

text \<open>
  With chunks that are not empty, which is what a copy loop delivers, the flag is exact: it is
  set as soon as one byte is lost and only then.
\<close>

lemma exceeded_feed_iff:
  assumes "capture_view s b" and "bb_exceeded b \<longleftrightarrow> bb_maxBytes b < int (length s)"
    and "\<forall>p\<in>set ps. p \<noteq> []"
  shows "bb_exceeded (feed b ps) \<longleftrightarrow> bb_maxBytes b < int (length (s @ concat ps))"
  using assms
proof (induction ps arbitrary: s b)
  case (Cons p ps)
  have "bb_exceeded (snd (Write p b)) \<longleftrightarrow> bb_maxBytes (snd (Write p b)) < int (length (s @ p))"
  proof -
    have "0 < length p" using Cons.prems(3) by simp
    with Cons.prems(1,2) show ?thesis
      by (cases "int (length s) < bb_maxBytes b") (auto simp: Write_def Let_def capture_view_def)
  qed
  from Cons.IH [OF capture_view_Write [OF Cons.prems(1)] this] Cons.prems(3) show ?case by simp
qed simp

text \<open>The summary for a fresh buffer.\<close>

definition cap_of :: "int \<Rightarrow> nat" where
  "cap_of m = nat (if m \<le> 0 then 1048576 else m)"

lemma cap_of_pos [simp]: "0 < cap_of m"
  by (simp add: cap_of_def)

lemma feed_new_String: "Buf_String (feed (NewBoundedBuffer m) ps) = take (cap_of m) (concat ps)"
  using capture_view_feed [OF capture_view_new [of m], of ps]
  by (simp add: capture_view_def Buf_String_def cap_of_def NewBoundedBuffer_def)

lemma feed_new_Exceeded:
  "\<forall>p\<in>set ps. p \<noteq> [] \<Longrightarrow>
    Exceeded (feed (NewBoundedBuffer m) ps) \<longleftrightarrow> cap_of m < length (concat ps)"
  using exceeded_feed_iff [OF capture_view_new [of m], of ps]
  by (auto simp: Exceeded_def cap_of_def NewBoundedBuffer_def)

lemma feed_new_overflow:
  "cap_of m < length (concat ps) \<Longrightarrow> Exceeded (feed (NewBoundedBuffer m) ps)"
  using capture_view_feed [OF capture_view_new [of m], of ps]
  by (auto simp: capture_view_def Exceeded_def cap_of_def NewBoundedBuffer_def split: if_splits)

end
