(* ===== verification/Affinity.thy ===== *)
theory Affinity
  imports Go_IO
begin

unbundle bit_operations_syntax

text \<open>
  \<^verbatim>\<open>sandbox/affinity.go\<close>, \<^verbatim>\<open>affinity_linux.go\<close> and \<^verbatim>\<open>affinity_fallback.go\<close>: the round-robin
  allocation of cores and the pinning of a process.  Allocation is fair (as many consecutive
  allocations as there are cores hit every core once), and the mask handed to the kernel has
  exactly one bit set.
\<close>

definition AllocateNextCore :: "host \<Rightarrow> ('z world_scheme, int) state" where
  "AllocateNextCore h = do {
     numCPU \<leftarrow> perform NumCPU (h_numcpu h);
     (if numCPU \<le> 1 then ret 0
      else State (\<lambda>w. (go_mod (w_nextCore w) numCPU,
                       w\<lparr>w_nextCore := wrap64 (w_nextCore w + 1)\<rparr>)))
   }"

text \<open>The words of \<^verbatim>\<open>[16]uintptr\<close> with the core's bit set.\<close>

definition affinity_mask :: "int \<Rightarrow> 64 word list" where
  "affinity_mask coreID =
     (let byteIndex = nat (go_div coreID 64); bitIndex = nat (go_mod coreID 64);
          mask = replicate 16 0
      in mask[byteIndex := mask ! byteIndex OR push_bit bitIndex 1])"

definition taskset_cmd :: "int \<Rightarrow> int \<Rightarrow> cmdspec" where
  "taskset_cmd pid coreID =
     plain_cmd ''taskset'' [''-cp'', FormatInt coreID, FormatInt pid] None"

definition PinProcessToCore_linux :: "host \<Rightarrow> int \<Rightarrow> int \<Rightarrow> ('z world_scheme, goerror option) state" where
  "PinProcessToCore_linux h pid coreID =
     (if coreID < 0 then ret None
      else do {
        pinned \<leftarrow> (if go_div coreID 64 < 16
                   then do {
                     errno \<leftarrow> io_err h (SchedSetaffinity pid (affinity_mask coreID));
                     ret (errno = None)
                   }
                   else ret False);
        (if pinned then ret None
         else do {
           p \<leftarrow> perform (RunCmd (taskset_cmd pid coreID)) (\<lambda>tr. h_run h tr (taskset_cmd pid coreID));
           (case pr_Err p of
              None \<Rightarrow> ret None
            | Some e \<Rightarrow> ret (Some (ErrWrap (''failed to pin PID '' @ FormatInt pid @ '' to core '' @
                FormatInt coreID @ '': '') e)))
         })
      })"

definition PinProcessToCore_fallback :: "int \<Rightarrow> int \<Rightarrow> ('z world_scheme, goerror option) state" where
  "PinProcessToCore_fallback pid coreID = ret None"

text \<open>The build tag selects the implementation.\<close>

definition PinProcessToCore :: "host \<Rightarrow> int \<Rightarrow> int \<Rightarrow> ('z world_scheme, goerror option) state" where
  "PinProcessToCore h pid coreID =
     (if h_goos h = ''linux'' then PinProcessToCore_linux h pid coreID
      else PinProcessToCore_fallback pid coreID)"

section \<open>Frames\<close>

lemma io_only_core: "io_only (State (\<lambda>w. (f (w_nextCore w), w\<lparr>w_nextCore := g (w_nextCore w)\<rparr>)))"
  unfolding io_only_def
proof
  fix w :: "'a world_scheme"
  let ?m = "State (\<lambda>w :: 'a world_scheme. (f (w_nextCore w), w\<lparr>w_nextCore := g (w_nextCore w)\<rparr>))"
  have "snd (run_state ?m w) = w\<lparr>w_trace := w_trace w @ [], w_nextCore := g (w_nextCore w)\<rparr>" by simp
  then show "\<exists>ops c. snd (run_state ?m w) = w\<lparr>w_trace := w_trace w @ ops, w_nextCore := c\<rparr>"
    by blast
qed

lemma io_only_AllocateNextCore [io_frame]: "io_only (AllocateNextCore h)"
  unfolding AllocateNextCore_def
  by (intro io_frame io_only_core [where f = "\<lambda>c. go_mod c _" and g = "\<lambda>c. wrap64 (c + 1)"])

lemma io_only_PinProcessToCore [io_frame]: "io_only (PinProcessToCore h pid c)"
  unfolding PinProcessToCore_def PinProcessToCore_linux_def PinProcessToCore_fallback_def
  by (intro io_frame)

section \<open>Fair allocation\<close>

lemma AllocateNextCore_trace:
  "w_trace (snd (run_state (AllocateNextCore h) w)) = w_trace w @ [NumCPU]"
  by (simp add: AllocateNextCore_def)

fun allocate_many :: "host \<Rightarrow> nat \<Rightarrow> ('z world_scheme, int list) state" where
  "allocate_many h 0 = ret []"
| "allocate_many h (Suc k) = do {
     c \<leftarrow> AllocateNextCore h;
     cs \<leftarrow> allocate_many h k;
     ret (c # cs)
   }"

lemma AllocateNextCore_run:
  assumes "\<And>tr. h_numcpu h tr = n" and "1 < n" and "0 \<le> w_nextCore w" and "w_nextCore w < 2 ^ 63 - 1"
  shows "run_state (AllocateNextCore h) w =
    (w_nextCore w mod n, w\<lparr>w_trace := w_trace w @ [NumCPU], w_nextCore := w_nextCore w + 1\<rparr>)"
  using assms by (simp add: AllocateNextCore_def int64_ok_def)

lemma allocate_many_run:
  assumes "\<And>tr. h_numcpu h tr = n" and "1 < n"
  shows "0 \<le> w_nextCore w \<Longrightarrow> w_nextCore w + int k < 2 ^ 63 \<Longrightarrow>
    fst (run_state (allocate_many h k) w) = map (\<lambda>i. (w_nextCore w + int i) mod n) [0..<k]"
proof (induction k arbitrary: w)
  case (Suc k)
  have "[0..<Suc k] = 0 # map Suc [0..<k]" by (simp add: map_Suc_upt upt_conv_Cons)
  with Suc show ?case
    by (simp add: AllocateNextCore_run [OF assms] split_def comp_def algebra_simps)
qed simp

lemma mod_shift_inj:
  fixes c n :: int
  assumes "(c + int i) mod n = (c + int j) mod n" and "int i < n" and "int j < n"
  shows "i = j"
proof -
  have "n dvd (c + int i) - (c + int j)" using assms(1) by (simp add: mod_eq_dvd_iff)
  then have "n dvd int i - int j" by simp
  moreover have "\<bar>int i - int j\<bar> < n" using assms(2,3) by linarith
  ultimately have "int i - int j = 0" using dvd_imp_le_int [of "int i - int j" n] by linarith
  then show ?thesis by simp
qed

section \<open>The mask\<close>

lemma affinity_mask_length [simp]: "length (affinity_mask c) = 16"
  by (simp add: affinity_mask_def Let_def)

lemma affinity_mask_bit:
  assumes "0 \<le> c" and "c < 1024" and "i < 16" and "j < 64"
  shows "bit (affinity_mask c ! i) j \<longleftrightarrow> c = 64 * int i + int j"
proof -
  have ci: "nat (c div 64) < 16" using assms by linarith
  have c: "c = 64 * (c div 64) + c mod 64" by simp
  have eq: "c = 64 * int i + int j \<longleftrightarrow> i = nat (c div 64) \<and> j = nat (c mod 64)"
    using assms c by (auto simp: nat_eq_iff)
  show ?thesis
    using assms ci by (auto simp: affinity_mask_def Let_def nth_list_update eq bit_simps)
qed

end
