(* ===== verification/Sandbox.thy ===== *)
theory Sandbox
  imports Languages Watchdog Affinity
begin

text \<open>
  \<^verbatim>\<open>sandbox/sandbox.go\<close>: the sandbox context, the \<^verbatim>\<open>Sandbox\<close> interface as a record of its
  methods, and what the backends share.  The locale \<open>sandbox_backend\<close> is the contract every
  backend keeps and the engine and the worker rely on; each backend's theory interprets it.
\<close>

record SandboxContext =
  sc_ID :: string
  sc_Request :: ExecutionRequest
  sc_Language :: LanguageHandler
  sc_WorkingDir :: string
  sc_SourcePath :: string
  sc_BinaryPath :: string
  sc_CgroupPath :: string
  sc_CreatedAt :: gotime

record 'w sandbox =
  sb_Name :: string
  sb_IsAvailable :: "('w, bool) state"
  sb_Prepare :: "ExecutionRequest \<Rightarrow> LanguageHandler \<Rightarrow> ('w, goerror + SandboxContext) state"
  sb_Compile :: "SandboxContext \<Rightarrow> ('w, goerror + CompilationResult) state"
  sb_Execute :: "SandboxContext \<Rightarrow> ('w, goerror + ExecutionResult) state"
  sb_Cleanup :: "SandboxContext \<Rightarrow> ('w, goerror option) state"

definition WriteSourceFile :: "host \<Rightarrow> SandboxContext \<Rightarrow> ('z world_scheme, goerror option) state" where
  "WriteSourceFile h sCtx = do {
     e \<leftarrow> io_err h (MkdirAll (sc_WorkingDir sCtx) 493);
     (case e of
        Some err \<Rightarrow> ret (Some (ErrWrap ''failed to create sandbox workspace: '' err))
      | None \<Rightarrow> do {
          e2 \<leftarrow> io_err h (WriteFile (sc_SourcePath sCtx) (req_Code (sc_Request sCtx)) 420);
          (case e2 of
             Some err \<Rightarrow> ret (Some (ErrWrap ''failed to write source code: '' err))
           | None \<Rightarrow> ret None)
        })
   }"

text \<open>
  The recurring translation of an error of \<^verbatim>\<open>Run\<close> or \<^verbatim>\<open>Wait\<close> to an exit code.
\<close>

fun exit_code :: "goerror option \<Rightarrow> int" where
  "exit_code None = 0"
| "exit_code (Some (ErrExit c)) = c"
| "exit_code (Some _) = -1"

definition run_cmd :: "host \<Rightarrow> cmdspec \<Rightarrow> ('z world_scheme, proc) state" where
  "run_cmd h c = perform (RunCmd c) (\<lambda>tr. h_run h tr c)"

definition captured :: "ExecutionRequest \<Rightarrow> string list \<Rightarrow> BoundedBuffer" where
  "captured r chunks = feed (NewBoundedBuffer (req_MaxOutputBytes r)) chunks"

definition crlf :: string where
  "crlf = [CHR 0x0D, CHR 0x0A]"

definition outputs_match :: "string \<Rightarrow> string \<Rightarrow> bool" where
  "outputs_match out expected \<longleftrightarrow> TrimRight out crlf = TrimRight expected crlf"

definition stdin_of :: "ExecutionRequest \<Rightarrow> string option" where
  "stdin_of r = (if req_Stdin r \<noteq> [] then Some (req_Stdin r) else None)"

definition time_limit_float :: "ExecutionRequest \<Rightarrow> float64" where
  "time_limit_float r = float_of_int (req_TimeLimitMs r)"

definition target_path :: "SandboxContext \<Rightarrow> string" where
  "target_path sCtx =
     (if lh_NeedsCompilation (sc_Language sCtx) then sc_BinaryPath sCtx else sc_SourcePath sCtx)"

text \<open>How every backend turns a finished compiler run into a \<open>CompilationResult\<close>.\<close>

definition compile_result :: "ExecutionRequest \<Rightarrow> proc \<Rightarrow> float64 \<Rightarrow> CompilationResult" where
  "compile_result req p duration =
     \<lparr>comp_Success = (exit_code (pr_Err p) = 0), comp_ExitCode = exit_code (pr_Err p),
      comp_Stdout = Buf_String (captured req (pr_Stdout p)),
      comp_Stderr = Buf_String (captured req (pr_Stderr p)), comp_TimeMs = duration\<rparr>"

definition compile_with :: "host \<Rightarrow> SandboxContext \<Rightarrow> cmdspec \<Rightarrow> ('z world_scheme, goerror + CompilationResult) state" where
  "compile_with h sCtx c =
     (if \<not> lh_NeedsCompilation (sc_Language sCtx)
      then ret (Inr (CompilationResult_zero\<lparr>comp_Success := True\<rparr>))
      else do {
        start \<leftarrow> io_now h;
        p \<leftarrow> run_cmd h c;
        stop \<leftarrow> io_now h;
        ret (Inr (compile_result (sc_Request sCtx) p (elapsed_ms start stop)))
      })"

section \<open>Frames of the shared helpers\<close>

lemma io_only_WriteSourceFile [io_frame]: "io_only (WriteSourceFile h sCtx)"
  unfolding WriteSourceFile_def by (intro io_frame)

lemma io_only_run_cmd [io_frame]: "io_only (run_cmd h c)"
  unfolding run_cmd_def by (intro io_frame)

lemma run_run_cmd [simp]:
  "run_state (run_cmd h c) w = (h_run h (w_trace w) c, w\<lparr>w_trace := w_trace w @ [RunCmd c]\<rparr>)"
  by (simp add: run_cmd_def)

lemma io_only_compile_with [io_frame]: "io_only (compile_with h ctx c)"
  unfolding compile_with_def by (intro io_frame)

lemma compile_with_Inr:
  "run_state (compile_with h ctx c) w = (Inr cr, w') \<Longrightarrow> comp_Success cr \<longleftrightarrow> comp_ExitCode cr = 0"
  by (auto simp: compile_with_def compile_result_def CompilationResult_zero_def split: if_splits)

lemma captured_String: "Buf_String (captured r cs) = take (cap_of (req_MaxOutputBytes r)) (concat cs)"
  by (simp add: captured_def feed_new_String)

lemma captured_bound: "length (Buf_String (captured r cs)) \<le> cap_of (req_MaxOutputBytes r)"
  by (simp add: captured_String)

lemma captured_complete:
  "\<not> Exceeded (captured r cs) \<Longrightarrow> Buf_String (captured r cs) = concat cs"
  using feed_new_overflow [of "req_MaxOutputBytes r" cs]
  by (force simp: captured_def feed_new_String not_less)

section \<open>The contract\<close>

text \<open>
  A result that says \<open>VerdictAccepted\<close> is trustworthy: exit code zero, within the time limit,
  not out of memory, and the output, which was captured completely, matches what was expected.
\<close>

definition accepted_ok :: "ExecutionRequest \<Rightarrow> ExecutionResult \<Rightarrow> bool" where
  "accepted_ok r res \<longleftrightarrow>
     er_ExitCode res = 0 \<and> \<not> er_OOMKilled res \<and>
     \<not> flt (time_limit_float r) (er_WallTimeMs res) \<and>
     (req_ExpectedOutput r \<noteq> [] \<longrightarrow> outputs_match (er_Stdout res) (req_ExpectedOutput r))"

definition run_verdicts :: "Verdict set" where
  "run_verdicts =
     {VerdictAccepted, VerdictWrongAnswer, VerdictTimeLimitExceeded, VerdictMemoryLimitExceeded,
      VerdictRuntimeError, VerdictOutputLimitExceeded}"

locale sandbox_backend =
  fixes sb :: "('z world_scheme) sandbox"
  assumes name_nonempty: "sb_Name sb \<noteq> []"
    and io_prepare: "io_only (sb_Prepare sb req lh)"
    and io_compile: "io_only (sb_Compile sb ctx)"
    and io_execute: "io_only (sb_Execute sb ctx)"
    and io_cleanup: "io_only (sb_Cleanup sb ctx)"
    and prepare_ctx: "run_state (sb_Prepare sb req lh) w = (Inr ctx, w') \<Longrightarrow>
      sc_ID ctx = req_ID req \<and> sc_Request ctx = req \<and> sc_Language ctx = lh"
    and compile_exit: "run_state (sb_Compile sb ctx) w = (Inr cr, w') \<Longrightarrow>
      comp_Success cr \<longleftrightarrow> comp_ExitCode cr = 0"
    and execute_id: "run_state (sb_Execute sb ctx) w = (Inr res, w') \<Longrightarrow>
      er_ID res = sc_ID ctx \<and> er_SandboxBackend res = sb_Name sb"
    and execute_verdict: "run_state (sb_Execute sb ctx) w = (Inr res, w') \<Longrightarrow>
      er_Verdict res \<in> run_verdicts"
    and execute_bounded: "run_state (sb_Execute sb ctx) w = (Inr res, w') \<Longrightarrow>
      length (er_Stdout res) \<le> cap_of (req_MaxOutputBytes (sc_Request ctx)) \<and>
      length (er_Stderr res) \<le> cap_of (req_MaxOutputBytes (sc_Request ctx))"
    and execute_accepted: "run_state (sb_Execute sb ctx) w = (Inr res, w') \<Longrightarrow>
      er_Verdict res = VerdictAccepted \<Longrightarrow> accepted_ok (sc_Request ctx) res"
begin

lemma execute_not_system_error:
  "run_state (sb_Execute sb ctx) w = (Inr res, w') \<Longrightarrow>
    er_Verdict res \<noteq> VerdictSystemError \<and> er_Verdict res \<noteq> VerdictCompilationError \<and>
    er_Verdict res \<noteq> VerdictNone"
  by (drule execute_verdict) (auto simp: run_verdicts_def)

lemma failed_run_not_accepted:
  "run_state (sb_Execute sb ctx) w = (Inr res, w') \<Longrightarrow> er_ExitCode res \<noteq> 0 \<Longrightarrow>
    er_Verdict res \<noteq> VerdictAccepted"
  by (auto dest: execute_accepted simp: accepted_ok_def)

end

end
