(* ===== verification/Dev_Process.thy ===== *)
theory Dev_Process
  imports Sandbox
begin

text \<open>
  \<^verbatim>\<open>sandbox/dev_process.go\<close>: the backend that runs a plain child process under a watchdog.
\<close>

definition dev_Name :: string where
  "dev_Name = ''dev_process''"

definition dev_IsAvailable :: "('z world_scheme, bool) state" where
  "dev_IsAvailable = ret True"

definition dev_Prepare ::
  "host \<Rightarrow> ExecutionRequest \<Rightarrow> LanguageHandler \<Rightarrow> ('z world_scheme, goerror + SandboxContext) state" where
  "dev_Prepare h req lang = do {
     r \<leftarrow> perform (MkdirTemp (''speedcode-dev-'' @ req_ID req @ ''-*''))
           (\<lambda>tr. h_mkdirTemp h tr (''speedcode-dev-'' @ req_ID req @ ''-*''));
     (case r of
        Inl err \<Rightarrow> ret (Inl (ErrWrap ''failed to create dev workspace: '' err))
      | Inr tempDir \<Rightarrow> do {
          t \<leftarrow> io_now h;
          let sCtx = \<lparr>sc_ID = req_ID req, sc_Request = req, sc_Language = lang,
                sc_WorkingDir = tempDir,
                sc_SourcePath = Join [tempDir, lh_SourceFilename lang],
                sc_BinaryPath = Join [tempDir, lh_BinaryFilename lang],
                sc_CgroupPath = [], sc_CreatedAt = t\<rparr>;
          e \<leftarrow> WriteSourceFile h sCtx;
          (case e of
             Some err \<Rightarrow> do { _ \<leftarrow> io_err h (RemoveAll tempDir); ret (Inl err) }
           | None \<Rightarrow> ret (Inr sCtx))
        })
   }"

definition dev_compile_cmd :: "SandboxContext \<Rightarrow> cmdspec" where
  "dev_compile_cmd sCtx =
     (let (cmdName, cmdArgs) = lh_CompileCommand (sc_Language sCtx) (sc_SourcePath sCtx) (sc_BinaryPath sCtx)
      in \<lparr>cmd_Name = cmdName, cmd_Args = cmdArgs, cmd_Dir = sc_WorkingDir sCtx, cmd_Stdin = None,
          cmd_Timeout = Some (15 * Second), cmd_SysProcAttr = None\<rparr>)"

definition dev_Compile :: "host \<Rightarrow> SandboxContext \<Rightarrow> ('z world_scheme, goerror + CompilationResult) state" where
  "dev_Compile h sCtx = compile_with h sCtx (dev_compile_cmd sCtx)"

definition dev_run_cmd :: "SandboxContext \<Rightarrow> cmdspec" where
  "dev_run_cmd sCtx =
     (let (cmdName, cmdArgs) = lh_RunCommand (sc_Language sCtx) (target_path sCtx)
      in \<lparr>cmd_Name = cmdName, cmd_Args = cmdArgs, cmd_Dir = sc_WorkingDir sCtx,
          cmd_Stdin = stdin_of (sc_Request sCtx),
          cmd_Timeout = Some (TimeoutDuration (sc_Request sCtx)), cmd_SysProcAttr = None\<rparr>)"

definition dev_verdict ::
  "ExecutionRequest \<Rightarrow> bool \<Rightarrow> float64 \<Rightarrow> int \<Rightarrow> BoundedBuffer \<Rightarrow> BoundedBuffer \<Rightarrow> Verdict" where
  "dev_verdict req timedOut wallDuration exitCode stdoutBuf stderrBuf =
     (if timedOut \<or> flt (time_limit_float req) wallDuration then VerdictTimeLimitExceeded
      else if exitCode \<noteq> 0 then VerdictRuntimeError
      else if Exceeded stdoutBuf \<or> Exceeded stderrBuf then VerdictOutputLimitExceeded
      else if req_ExpectedOutput req \<noteq> [] then
        (if \<not> outputs_match (Buf_String stdoutBuf) (req_ExpectedOutput req) then VerdictWrongAnswer
         else VerdictAccepted)
      else VerdictAccepted)"

definition dev_result :: "SandboxContext \<Rightarrow> proc \<Rightarrow> float64 \<Rightarrow> bool \<Rightarrow> gotime \<Rightarrow> ExecutionResult" where
  "dev_result sCtx p wallDuration timedOut executedAt =
     (let req = sc_Request sCtx;
          stdoutBuf = captured req (pr_Stdout p);
          stderrBuf = captured req (pr_Stderr p);
          exitCode = exit_code (pr_Err p)
      in ExecutionResult_zero\<lparr>er_ID := sc_ID sCtx,
           er_Verdict := dev_verdict req timedOut wallDuration exitCode stdoutBuf stderrBuf,
           er_ExitCode := exitCode, er_Stdout := Buf_String stdoutBuf,
           er_Stderr := Buf_String stderrBuf, er_WallTimeMs := wallDuration,
           er_CpuTimeMs := fmul wallDuration (fl (9 / 10)), er_PeakMemoryKB := 1024,
           er_PeakMemoryMB := Fin 1, er_OOMKilled := False, er_SandboxBackend := dev_Name,
           er_ExecutedAt := executedAt\<rparr>)"

definition dev_Execute :: "host \<Rightarrow> SandboxContext \<Rightarrow> ('z world_scheme, goerror + ExecutionResult) state" where
  "dev_Execute h sCtx = do {
     wallStart \<leftarrow> io_now h;
     p \<leftarrow> run_cmd h (dev_run_cmd sCtx);
     wallEnd \<leftarrow> io_now h;
     cerr \<leftarrow> perform CtxErr (h_ctxErr h);
     t \<leftarrow> io_now h;
     ret (Inr (dev_result sCtx p (elapsed_ms wallStart wallEnd) (cerr = Some ErrDeadlineExceeded) t))
   }"

definition dev_Cleanup :: "host \<Rightarrow> SandboxContext \<Rightarrow> ('z world_scheme, goerror option) state" where
  "dev_Cleanup h sCtx = io_err h (RemoveAll (sc_WorkingDir sCtx))"

definition DevProcessSandbox :: "host \<Rightarrow> ('z world_scheme) sandbox" where
  "DevProcessSandbox h =
     \<lparr>sb_Name = dev_Name, sb_IsAvailable = dev_IsAvailable, sb_Prepare = dev_Prepare h,
      sb_Compile = dev_Compile h, sb_Execute = dev_Execute h, sb_Cleanup = dev_Cleanup h\<rparr>"

section \<open>Frames and results\<close>

lemma io_only_dev [io_frame]:
  "io_only dev_IsAvailable" "io_only (dev_Prepare h req lang)" "io_only (dev_Compile h ctx)"
  "io_only (dev_Execute h ctx)" "io_only (dev_Cleanup h ctx)"
  unfolding dev_IsAvailable_def dev_Prepare_def dev_Compile_def dev_Execute_def dev_Cleanup_def
  by (intro io_frame)+

lemma dev_Prepare_Inr:
  assumes "run_state (dev_Prepare h req lang) w = (Inr ctx, w')"
  shows "sc_ID ctx = req_ID req \<and> sc_Request ctx = req \<and> sc_Language ctx = lang"
  using assms
  by (auto simp: dev_Prepare_def split_def Let_def split: sum.splits option.splits)

text \<open>A run of \<open>dev_Execute\<close> always returns a result, judged by \<open>dev_verdict\<close>.\<close>

lemma dev_Execute_result:
  obtains p wall timedOut t where
    "fst (run_state (dev_Execute h ctx) w) = Inr (dev_result ctx p wall timedOut t)"
  by (simp add: dev_Execute_def)

lemma dev_verdict_accepted:
  "dev_verdict req timedOut wall ec ob eb = VerdictAccepted \<longleftrightarrow>
     \<not> timedOut \<and> \<not> flt (time_limit_float req) wall \<and> ec = 0 \<and> \<not> Exceeded ob \<and> \<not> Exceeded eb \<and>
     (req_ExpectedOutput req \<noteq> [] \<longrightarrow> outputs_match (Buf_String ob) (req_ExpectedOutput req))"
  by (auto simp: dev_verdict_def)

lemma dev_verdict_range: "dev_verdict req timedOut wall ec ob eb \<in> run_verdicts"
  by (auto simp: dev_verdict_def run_verdicts_def)

lemma dev_result_contract:
  "er_ID (dev_result ctx p wall to t) = sc_ID ctx"
  "er_SandboxBackend (dev_result ctx p wall to t) = dev_Name"
  "er_Verdict (dev_result ctx p wall to t) \<in> run_verdicts"
  "length (er_Stdout (dev_result ctx p wall to t)) \<le> cap_of (req_MaxOutputBytes (sc_Request ctx))"
  "length (er_Stderr (dev_result ctx p wall to t)) \<le> cap_of (req_MaxOutputBytes (sc_Request ctx))"
  "er_Verdict (dev_result ctx p wall to t) = VerdictAccepted \<Longrightarrow>
    accepted_ok (sc_Request ctx) (dev_result ctx p wall to t)"
  by (simp_all add: dev_result_def Let_def dev_verdict_range captured_bound dev_verdict_accepted
      accepted_ok_def)

lemma dev_Execute_Inr:
  assumes "run_state (dev_Execute h ctx) w = (Inr res, w')"
  obtains p wall to t where "res = dev_result ctx p wall to t"
  using assms that by (auto simp: dev_Execute_def)

interpretation dev: sandbox_backend "DevProcessSandbox h" for h
proof
qed (auto simp: DevProcessSandbox_def dev_Name_def [THEN arg_cong [where f = "\<lambda>x. x = []"]]
    io_only_dev io_only_compile_with dev_Compile_def compile_with_Inr dest: dev_Prepare_Inr
    elim!: dev_Execute_Inr intro: dev_result_contract)

end
