(* ===== verification/Docker.thy ===== *)
theory Docker
  imports Sandbox
begin

text \<open>
  \<^verbatim>\<open>sandbox/docker.go\<close>: the backend that runs each program in an ephemeral container.  Beside the
  backend contract, the theory shows the isolation flags every run carries and the order in which
  the verdict is decided.
\<close>

definition FallbackRunnerImage :: string where
  "FallbackRunnerImage = ''ubuntu:22.04''"

definition docker_Name :: string where
  "docker_Name = ''docker''"

definition docker_IsAvailable :: "host \<Rightarrow> ('z world_scheme, bool) state" where
  "docker_IsAvailable h = do {
     p \<leftarrow> run_cmd h (plain_cmd ''docker'' [''info''] (Some (2 * Second)));
     ret (pr_Err p = None)
   }"

definition docker_Prepare ::
  "host \<Rightarrow> ExecutionRequest \<Rightarrow> LanguageHandler \<Rightarrow> ('z world_scheme, goerror + SandboxContext) state" where
  "docker_Prepare h req lang = do {
     r \<leftarrow> perform (MkdirTemp (''speedcode-docker-'' @ req_ID req @ ''-*''))
           (\<lambda>tr. h_mkdirTemp h tr (''speedcode-docker-'' @ req_ID req @ ''-*''));
     (case r of
        Inl err \<Rightarrow> ret (Inl (ErrWrap ''failed to create docker workspace: '' err))
      | Inr tempDir \<Rightarrow> do {
          t \<leftarrow> io_now h;
          let sCtx = \<lparr>sc_ID = req_ID req, sc_Request = req, sc_Language = lang,
                sc_WorkingDir = tempDir,
                sc_SourcePath = Join [tempDir, lh_SourceFilename lang],
                sc_BinaryPath = Join [tempDir, lh_BinaryFilename lang],
                sc_CgroupPath = [], sc_CreatedAt = t\<rparr>;
          e \<leftarrow> WriteSourceFile h sCtx;
          (case e of
             Some err \<Rightarrow> do { _ \<leftarrow> io_err h (RemoveAll tempDir); ret (Inl err) }
           | None \<Rightarrow> ret (Inr sCtx))
        })
   }"

definition docker_compile_cmd :: "string \<Rightarrow> SandboxContext \<Rightarrow> cmdspec" where
  "docker_compile_cmd img sCtx =
     (let lang = sc_Language sCtx;
          (cmdName, cmdArgs) = lh_CompileCommand lang (lh_SourceFilename lang) (lh_BinaryFilename lang)
      in plain_cmd ''docker''
           ([''run'', ''--rm'', ''--network'', ''none'',
             ''-v'', sc_WorkingDir sCtx @ '':/workspace:rw'', ''-w'', ''/workspace'', img]
            @ cmdName # cmdArgs)
           (Some (15 * Second)))"

definition docker_Compile ::
  "host \<Rightarrow> string \<Rightarrow> SandboxContext \<Rightarrow> ('z world_scheme, goerror + CompilationResult) state" where
  "docker_Compile h img sCtx = compile_with h sCtx (docker_compile_cmd img sCtx)"

definition container_name :: "SandboxContext \<Rightarrow> string" where
  "container_name sCtx = ''speedcode-exec-'' @ sc_ID sCtx"

definition docker_args :: "string \<Rightarrow> SandboxContext \<Rightarrow> int \<Rightarrow> string list" where
  "docker_args img sCtx pinnedCore =
     (let req = sc_Request sCtx; lang = sc_Language sCtx;
          targetFile = Join [''/workspace'',
            if lh_NeedsCompilation lang then lh_BinaryFilename lang else lh_SourceFilename lang];
          (cmdName, cmdArgs) = lh_RunCommand lang targetFile
      in [''run'', ''-i'',
          ''--name'', container_name sCtx,
          ''--network'', ''none'',
          ''--read-only'',
          ''--tmpfs'', ''/tmp:rw,noexec,nosuid,nodev,size=64m'',
          ''--memory'', FormatInt (req_MemoryLimitMB req) @ ''m'',
          ''--memory-swap'', FormatInt (req_MemoryLimitMB req) @ ''m'',
          ''--cpus'', fmt_f2 (req_CpuQuota req),
          ''--cpuset-cpus'', FormatInt pinnedCore,
          ''--pids-limit'', FormatInt (req_PidsLimit req),
          ''--cap-drop'', ''ALL'',
          ''--security-opt'', ''no-new-privileges'',
          ''-v'', sc_WorkingDir sCtx @ '':/workspace:ro'',
          ''-w'', ''/workspace'',
          img]
         @ cmdName # cmdArgs)"

definition docker_run_cmd :: "string \<Rightarrow> SandboxContext \<Rightarrow> int \<Rightarrow> cmdspec" where
  "docker_run_cmd img sCtx pinnedCore =
     (plain_cmd ''docker'' (docker_args img sCtx pinnedCore)
        (Some (wrap64 (TimeoutDuration (sc_Request sCtx) + 500 * Millisecond))))
     \<lparr>cmd_Stdin := stdin_of (sc_Request sCtx)\<rparr>"

definition inspectContainer :: "host \<Rightarrow> string \<Rightarrow> ('z world_scheme, int \<times> bool \<times> int) state" where
  "inspectContainer h containerName = do {
     p \<leftarrow> run_cmd h (plain_cmd ''docker'' [''inspect'', containerName] None);
     ret (if pr_Err p \<noteq> None then (0, False, 0)
          else case h_parseInspect h (concat (pr_Stdout p)) of
                 Inr ((ec, oom) # _) \<Rightarrow> (ec, oom, 0)
               | _ \<Rightarrow> (0, False, 0))
   }"

definition docker_verdict ::
  "ExecutionRequest \<Rightarrow> float64 \<Rightarrow> int \<Rightarrow> bool \<Rightarrow> BoundedBuffer \<Rightarrow> BoundedBuffer \<Rightarrow> Verdict" where
  "docker_verdict req wallDuration exitCode oomKilled stdoutBuf stderrBuf =
     (let limit = time_limit_float req;
          verdict =
            (if flt limit wallDuration \<or> exitCode = 124 \<or> exitCode = 137 \<and> \<not> oomKilled
             then (if fle limit wallDuration then VerdictTimeLimitExceeded else VerdictAccepted)
             else VerdictAccepted)
      in if oomKilled \<or> exitCode = 137 \<and> oomKilled then VerdictMemoryLimitExceeded
         else if verdict = VerdictAccepted \<and> exitCode \<noteq> 0 then VerdictRuntimeError
         else if Exceeded stdoutBuf \<or> Exceeded stderrBuf then VerdictOutputLimitExceeded
         else if verdict = VerdictAccepted \<and> req_ExpectedOutput req \<noteq> [] then
           (if \<not> outputs_match (Buf_String stdoutBuf) (req_ExpectedOutput req)
            then VerdictWrongAnswer else verdict)
         else verdict)"

definition docker_result ::
  "SandboxContext \<Rightarrow> proc \<Rightarrow> float64 \<Rightarrow> int \<times> bool \<times> int \<Rightarrow> gotime \<Rightarrow> ExecutionResult" where
  "docker_result sCtx p wallDuration inspected executedAt =
     (let req = sc_Request sCtx;
          (exitCode0, oomKilled, peakMemoryBytes) = inspected;
          exitCode = (if pr_Err p \<noteq> None \<and> exitCode0 = 0 then exit_code (pr_Err p) else exitCode0);
          stdoutBuf = captured req (pr_Stdout p);
          stderrBuf = captured req (pr_Stderr p)
      in ExecutionResult_zero\<lparr>er_ID := sc_ID sCtx,
           er_Verdict := docker_verdict req wallDuration exitCode oomKilled stdoutBuf stderrBuf,
           er_ExitCode := exitCode, er_Stdout := Buf_String stdoutBuf,
           er_Stderr := Buf_String stderrBuf, er_WallTimeMs := wallDuration,
           er_CpuTimeMs := fmul wallDuration (fl (9 / 10)),
           er_PeakMemoryKB := go_div peakMemoryBytes 1024,
           er_PeakMemoryMB := fdivc (float_of_int peakMemoryBytes) 1048576,
           er_OOMKilled := oomKilled, er_SandboxBackend := docker_Name,
           er_ExecutedAt := executedAt\<rparr>)"

definition docker_Execute ::
  "host \<Rightarrow> string \<Rightarrow> SandboxContext \<Rightarrow> ('z world_scheme, goerror + ExecutionResult) state" where
  "docker_Execute h img sCtx = do {
     pinnedCore \<leftarrow> AllocateNextCore h;
     wallStart \<leftarrow> io_now h;
     p \<leftarrow> run_cmd h (docker_run_cmd img sCtx pinnedCore);
     wallEnd \<leftarrow> io_now h;
     inspected \<leftarrow> inspectContainer h (container_name sCtx);
     _ \<leftarrow> run_cmd h (plain_cmd ''docker'' [''rm'', ''-f'', container_name sCtx] None);
     t \<leftarrow> io_now h;
     ret (Inr (docker_result sCtx p (elapsed_ms wallStart wallEnd) inspected t))
   }"

definition docker_Cleanup :: "host \<Rightarrow> SandboxContext \<Rightarrow> ('z world_scheme, goerror option) state" where
  "docker_Cleanup h sCtx = io_err h (RemoveAll (sc_WorkingDir sCtx))"

definition DockerSandbox :: "host \<Rightarrow> string \<Rightarrow> ('z world_scheme) sandbox" where
  "DockerSandbox h img =
     \<lparr>sb_Name = docker_Name, sb_IsAvailable = docker_IsAvailable h, sb_Prepare = docker_Prepare h,
      sb_Compile = docker_Compile h img, sb_Execute = docker_Execute h img,
      sb_Cleanup = docker_Cleanup h\<rparr>"

definition NewDockerSandbox :: "host \<Rightarrow> ('z world_scheme, ('z world_scheme) sandbox) state" where
  "NewDockerSandbox h = do {
     img \<leftarrow> perform (Getenv ''RUNNER_IMAGE'') (\<lambda>tr. h_getenv h tr ''RUNNER_IMAGE'');
     ret (DockerSandbox h (if img = [] then FallbackRunnerImage else img))
   }"

section \<open>The contract\<close>

lemma io_only_inspectContainer [io_frame]: "io_only (inspectContainer h c)"
  unfolding inspectContainer_def by (intro io_frame)

lemma io_only_docker [io_frame]:
  "io_only (docker_IsAvailable h)" "io_only (docker_Prepare h req lang)"
  "io_only (docker_Compile h img ctx)" "io_only (docker_Execute h img ctx)"
  "io_only (docker_Cleanup h ctx)" "io_only (NewDockerSandbox h)"
  unfolding docker_IsAvailable_def docker_Prepare_def docker_Compile_def docker_Execute_def
    docker_Cleanup_def NewDockerSandbox_def
  by (intro io_frame)+

lemma docker_Prepare_Inr:
  assumes "run_state (docker_Prepare h req lang) w = (Inr ctx, w')"
  shows "sc_ID ctx = req_ID req \<and> sc_Request ctx = req \<and> sc_Language ctx = lang"
  using assms
  by (auto simp: docker_Prepare_def split_def Let_def split: sum.splits option.splits)

lemma docker_verdict_range: "docker_verdict req wall ec oom ob eb \<in> run_verdicts"
  by (auto simp: docker_verdict_def run_verdicts_def Let_def)

lemma docker_verdict_accepted:
  "docker_verdict req wall ec oom ob eb = VerdictAccepted \<longleftrightarrow>
     \<not> oom \<and> ec = 0 \<and> \<not> flt (time_limit_float req) wall \<and> \<not> Exceeded ob \<and> \<not> Exceeded eb \<and>
     (req_ExpectedOutput req \<noteq> [] \<longrightarrow> outputs_match (Buf_String ob) (req_ExpectedOutput req))"
  by (auto simp: docker_verdict_def Let_def fle_def)

lemma docker_result_contract:
  "er_ID (docker_result ctx p wall ins t) = sc_ID ctx"
  "er_SandboxBackend (docker_result ctx p wall ins t) = docker_Name"
  "er_Verdict (docker_result ctx p wall ins t) \<in> run_verdicts"
  "length (er_Stdout (docker_result ctx p wall ins t)) \<le> cap_of (req_MaxOutputBytes (sc_Request ctx))"
  "length (er_Stderr (docker_result ctx p wall ins t)) \<le> cap_of (req_MaxOutputBytes (sc_Request ctx))"
  "er_Verdict (docker_result ctx p wall ins t) = VerdictAccepted \<Longrightarrow>
    accepted_ok (sc_Request ctx) (docker_result ctx p wall ins t)"
  by (simp_all add: docker_result_def Let_def split_def docker_verdict_range captured_bound
      docker_verdict_accepted accepted_ok_def)

lemma docker_Execute_Inr:
  assumes "run_state (docker_Execute h img ctx) w = (Inr res, w')"
  obtains p wall ins t where "res = docker_result ctx p wall ins t"
  using assms that by (auto simp: docker_Execute_def split: prod.splits)

interpretation docker: sandbox_backend "DockerSandbox h img" for h img
proof
qed (auto simp: DockerSandbox_def docker_Name_def [THEN arg_cong [where f = "\<lambda>x. x = []"]]
    io_only_docker io_only_compile_with docker_Compile_def compile_with_Inr dest: docker_Prepare_Inr
    elim!: docker_Execute_Inr intro: docker_result_contract)

section \<open>The order of the verdicts\<close>

text \<open>
  A memory kill outranks everything; overrunning the time limit hides a failing exit code but not
  an overrun of the output; exit codes 124 and 137 count as an overrun only at the limit itself.
\<close>

definition over_time :: "ExecutionRequest \<Rightarrow> float64 \<Rightarrow> int \<Rightarrow> bool" where
  "over_time req wall ec \<longleftrightarrow>
     flt (time_limit_float req) wall \<or> feq (time_limit_float req) wall \<and> (ec = 124 \<or> ec = 137)"

lemma docker_verdict_cases:
  "docker_verdict req wall ec oom ob eb =
     (if oom then VerdictMemoryLimitExceeded
      else if ec \<noteq> 0 \<and> \<not> over_time req wall ec then VerdictRuntimeError
      else if Exceeded ob \<or> Exceeded eb then VerdictOutputLimitExceeded
      else if over_time req wall ec then VerdictTimeLimitExceeded
      else if req_ExpectedOutput req \<noteq> [] \<and> \<not> outputs_match (Buf_String ob) (req_ExpectedOutput req)
      then VerdictWrongAnswer else VerdictAccepted)"
  by (auto simp: docker_verdict_def Let_def fle_def over_time_def)

section \<open>The commands of a run\<close>

lemma docker_Execute_commands:
  obtains core where
    "[c. RunCmd c \<leftarrow> drop (length (w_trace w)) (w_trace (snd (run_state (docker_Execute h img ctx) w)))] =
       [docker_run_cmd img ctx core, plain_cmd ''docker'' [''inspect'', container_name ctx] None,
        plain_cmd ''docker'' [''rm'', ''-f'', container_name ctx] None]"
proof -
  obtain core w1 where 1: "run_state (AllocateNextCore h) w = (core, w1)" by force
  then have "w_trace w1 = w_trace w @ [NumCPU]" using AllocateNextCore_trace [of h w] by simp
  with 1 show thesis
    by (intro that [of core]) (simp add: docker_Execute_def inspectContainer_def run_cmd_def)
qed

lemma docker_Compile_commands:
  "set [c. RunCmd c \<leftarrow> drop (length (w_trace w)) (w_trace (snd (run_state (docker_Compile h img ctx) w)))] \<subseteq>
     {docker_compile_cmd img ctx}"
  by (auto simp: docker_Compile_def compile_with_def run_cmd_def)

lemma docker_compile_cmd_args:
  "cmd_Name (docker_compile_cmd img ctx) = ''docker'' \<and>
   (\<exists>opts prog. cmd_Args (docker_compile_cmd img ctx) = ''run'' # opts @ img # prog \<and>
      sublist [''--network'', ''none''] opts)"
proof -
  define opts where "opts = [''--rm'', ''--network'', ''none'', ''-v'', sc_WorkingDir ctx @ '':/workspace:rw'', ''-w'', ''/workspace'']"
  have "sublist [''--network'', ''none''] opts"
    unfolding sublist_def opts_def
    by (intro exI [of _ "[''--rm'']"] exI [of _ "[''-v'', sc_WorkingDir ctx @ '':/workspace:rw'', ''-w'', ''/workspace'']"]) simp
  moreover have "\<exists>prog. cmd_Name (docker_compile_cmd img ctx) = ''docker'' \<and>
      cmd_Args (docker_compile_cmd img ctx) = ''run'' # opts @ img # prog"
    by (simp add: docker_compile_cmd_def plain_cmd_def opts_def Let_def split_def)
  ultimately show ?thesis by blast
qed

end
