(* ===== verification/Native_Cgroup.thy ===== *)
theory Native_Cgroup
  imports Sandbox
begin

text \<open>
  \<^verbatim>\<open>sandbox/native_linux.go\<close> and its stub \<^verbatim>\<open>native_fallback.go\<close>: the backend built on cgroups v2.
  Beside the backend contract, the theory shows what a successful preparation has written to the
  cgroup files, that a started process is in its cgroup before anything else happens to it or is
  killed, and that a timeout always kills the whole process group.
\<close>

definition CgroupV2Root :: string where "CgroupV2Root = ''/sys/fs/cgroup''"
definition CgroupBaseSlice :: string where "CgroupBaseSlice = ''/sys/fs/cgroup/speedcode''"
definition EphemeralWorkspace :: string where "EphemeralWorkspace = ''/tmp/speedcode''"
definition DefaultSandboxUID :: int where "DefaultSandboxUID = 1001"
definition DefaultSandboxGID :: int where "DefaultSandboxGID = 1001"

definition nl :: string where "nl = [CHR 0x0A]"

definition native_Name :: string where
  "native_Name = ''native_cgroupv2''"

definition native_IsAvailable :: "host \<Rightarrow> ('z world_scheme, bool) state" where
  "native_IsAvailable h = do {
     st \<leftarrow> perform (Statfs CgroupV2Root) (\<lambda>tr. h_statfs h tr CgroupV2Root);
     (case st of
        Inl _ \<Rightarrow> ret False
      | Inr ty \<Rightarrow> do {
          euid \<leftarrow> perform Geteuid (h_geteuid h);
          ret (ty mod 2 ^ 32 = 0x63677270 \<and> euid = 0)
        })
   }"

section \<open>Preparing and cleaning up\<close>

definition native_Cleanup :: "host \<Rightarrow> SandboxContext \<Rightarrow> ('z world_scheme, goerror option) state" where
  "native_Cleanup h sCtx = do {
     let killPath = Join [sc_CgroupPath sCtx, ''cgroup.kill''];
     st \<leftarrow> io_err h (Stat killPath);
     _ \<leftarrow> (if st = None then io_err h (WriteFile killPath (''1'' @ nl) 420) else ret None);
     _ \<leftarrow> io_err h (Remove (sc_CgroupPath sCtx));
     _ \<leftarrow> io_err h (RemoveAll (sc_WorkingDir sCtx));
     ret None
   }"

definition memory_max_bytes :: "ExecutionRequest \<Rightarrow> int" where
  "memory_max_bytes req = wrap64 (wrap64 (req_MemoryLimitMB req * 1024) * 1024)"

definition cpu_max_line :: "host \<Rightarrow> ExecutionRequest \<Rightarrow> string" where
  "cpu_max_line h req =
     FormatInt (float_to_int (h_floatToInt h) (fmul (req_CpuQuota req) (float_of_int 100000)))
       @ '' '' @ FormatInt 100000 @ nl"

definition setupCgroupHierarchy ::
  "host \<Rightarrow> string \<Rightarrow> ExecutionRequest \<Rightarrow> ('z world_scheme, goerror option) state" where
  "setupCgroupHierarchy h cgroupPath req = do {
     e1 \<leftarrow> io_err h (MkdirAll CgroupBaseSlice 493);
     (case e1 of
        Some err \<Rightarrow> ret (Some (ErrWrap ''failed to create base cgroup slice: '' err))
      | None \<Rightarrow> do {
          _ \<leftarrow> io_err h (WriteFile (Join [CgroupV2Root, ''cgroup.subtree_control''])
                 (''+cpu +memory +pids'' @ nl) 420);
          _ \<leftarrow> io_err h (WriteFile (Join [CgroupBaseSlice, ''cgroup.subtree_control''])
                 (''+cpu +memory +pids'' @ nl) 420);
          e2 \<leftarrow> io_err h (MkdirAll cgroupPath 493);
          (case e2 of
             Some err \<Rightarrow> ret (Some (ErrWrap ''failed to create job cgroup slice: '' err))
           | None \<Rightarrow> do {
               e3 \<leftarrow> io_err h (WriteFile (Join [cgroupPath, ''memory.max''])
                       (FormatInt (memory_max_bytes req) @ nl) 420);
               (case e3 of
                  Some err \<Rightarrow> ret (Some (ErrWrap ''failed to set memory.max: '' err))
                | None \<Rightarrow> do {
                    e4 \<leftarrow> io_err h (WriteFile (Join [cgroupPath, ''cpu.max'']) (cpu_max_line h req) 420);
                    (case e4 of
                       Some err \<Rightarrow> ret (Some (ErrWrap ''failed to set cpu.max: '' err))
                     | None \<Rightarrow> do {
                         e5 \<leftarrow> io_err h (WriteFile (Join [cgroupPath, ''pids.max''])
                                 (FormatInt (req_PidsLimit req) @ nl) 420);
                         (case e5 of
                            Some err \<Rightarrow> ret (Some (ErrWrap ''failed to set pids.max: '' err))
                          | None \<Rightarrow> ret None)
                       })
                  })
             })
        })
   }"

definition native_Prepare ::
  "host \<Rightarrow> ExecutionRequest \<Rightarrow> LanguageHandler \<Rightarrow> ('z world_scheme, goerror + SandboxContext) state" where
  "native_Prepare h req lang = do {
     let workDir = Join [EphemeralWorkspace, req_ID req];
     let cgroupPath = Join [CgroupBaseSlice, req_ID req];
     t \<leftarrow> io_now h;
     let sCtx = \<lparr>sc_ID = req_ID req, sc_Request = req, sc_Language = lang,
           sc_WorkingDir = workDir,
           sc_SourcePath = Join [workDir, lh_SourceFilename lang],
           sc_BinaryPath = Join [workDir, lh_BinaryFilename lang],
           sc_CgroupPath = cgroupPath, sc_CreatedAt = t\<rparr>;
     e \<leftarrow> WriteSourceFile h sCtx;
     (case e of
        Some err \<Rightarrow> ret (Inl err)
      | None \<Rightarrow> do {
          _ \<leftarrow> io_err h (Chown workDir DefaultSandboxUID DefaultSandboxGID);
          _ \<leftarrow> io_err h (Chmod workDir 493);
          e2 \<leftarrow> setupCgroupHierarchy h cgroupPath req;
          (case e2 of
             Some err \<Rightarrow> do {
               _ \<leftarrow> native_Cleanup h sCtx;
               ret (Inl (ErrWrap ''cgroup v2 initialization failed: '' err))
             }
           | None \<Rightarrow> ret (Inr sCtx))
        })
   }"

definition native_compile_cmd :: "SandboxContext \<Rightarrow> cmdspec" where
  "native_compile_cmd sCtx =
     (let (cmdName, cmdArgs) = lh_CompileCommand (sc_Language sCtx) (sc_SourcePath sCtx) (sc_BinaryPath sCtx)
      in (plain_cmd cmdName cmdArgs (Some (10 * Second)))\<lparr>cmd_Dir := sc_WorkingDir sCtx\<rparr>)"

definition native_Compile :: "host \<Rightarrow> SandboxContext \<Rightarrow> ('z world_scheme, goerror + CompilationResult) state" where
  "native_Compile h sCtx = compile_with h sCtx (native_compile_cmd sCtx)"

section \<open>Reading the kernel's counters\<close>

definition dropCR :: "string \<Rightarrow> string" where
  "dropCR l = (if l \<noteq> [] \<and> last l = CHR 0x0D then butlast l else l)"

text \<open>
  The lines a \<^verbatim>\<open>bufio.Scanner\<close> delivers: without the line ends, without a last empty line, up to
  the first line that does not fit its buffer of 64 KiB.
\<close>

definition scan_lines :: "string \<Rightarrow> string list" where
  "scan_lines s =
     (let ls = Split s (CHR 0x0A); ls' = (if last ls = [] then butlast ls else ls)
      in map dropCR (takeWhile (\<lambda>l. length l < 65536) ls'))"

definition oom_line :: "string \<Rightarrow> bool" where
  "oom_line l =
     (case Fields l of
        f0 # f1 # _ \<Rightarrow> (f0 = ''oom'' \<or> f0 = ''oom_kill'') \<and> f1 \<noteq> ''0''
      | _ \<Rightarrow> False)"

definition readCgroupMemoryStats :: "host \<Rightarrow> string \<Rightarrow> ('z world_scheme, int \<times> bool) state" where
  "readCgroupMemoryStats h cgroupPath = do {
     d \<leftarrow> perform (ReadFile (Join [cgroupPath, ''memory.peak'']))
            (\<lambda>tr. h_read h tr (Join [cgroupPath, ''memory.peak'']));
     f \<leftarrow> perform (OpenFile (Join [cgroupPath, ''memory.events'']))
            (\<lambda>tr. h_read h tr (Join [cgroupPath, ''memory.events'']));
     ret ((case d of Inl _ \<Rightarrow> 0 | Inr s \<Rightarrow> ParseInt (TrimSpace s)),
          (case f of Inl _ \<Rightarrow> False | Inr s \<Rightarrow> list_ex oom_line (scan_lines s)))
   }"

fun usage_usec :: "string list \<Rightarrow> float64" where
  "usage_usec [] = Fin 0"
| "usage_usec (l # ls) =
     (case Fields l of
        f0 # f1 # _ \<Rightarrow> if f0 = ''usage_usec'' then fdivc (float_of_int (ParseInt f1)) 1000
                       else usage_usec ls
      | _ \<Rightarrow> usage_usec ls)"

definition readCgroupCpuStats :: "host \<Rightarrow> string \<Rightarrow> ('z world_scheme, float64) state" where
  "readCgroupCpuStats h cgroupPath = do {
     f \<leftarrow> perform (OpenFile (Join [cgroupPath, ''cpu.stat'']))
            (\<lambda>tr. h_read h tr (Join [cgroupPath, ''cpu.stat'']));
     ret (case f of Inl _ \<Rightarrow> Fin 0 | Inr s \<Rightarrow> usage_usec (scan_lines s))
   }"

definition rusage_ms :: "int \<Rightarrow> int \<Rightarrow> float64" where
  "rusage_ms sec usec = fadd (fmul (float_of_int sec) (Fin 1000)) (fdivc (float_of_int usec) 1000)"

section \<open>Executing\<close>

definition native_attr :: SysProcAttr where
  "native_attr =
     \<lparr>spa_Setpgid = True, spa_Uid = DefaultSandboxUID, spa_Gid = DefaultSandboxGID,
      spa_Pdeathsig = ''SIGKILL'',
      spa_Cloneflags = [''CLONE_NEWNET'', ''CLONE_NEWIPC'', ''CLONE_NEWUTS'']\<rparr>"

definition native_run_cmd :: "SandboxContext \<Rightarrow> cmdspec" where
  "native_run_cmd sCtx =
     (let (cmdName, cmdArgs) = lh_RunCommand (sc_Language sCtx) (target_path sCtx)
      in (plain_cmd cmdName cmdArgs None)
           \<lparr>cmd_Dir := sc_WorkingDir sCtx, cmd_Stdin := stdin_of (sc_Request sCtx),
            cmd_SysProcAttr := Some native_attr\<rparr>)"

text \<open>
  Waiting for the child or for the watchdog, whichever is first; after the watchdog the process
  group is killed and the child is waited for.
\<close>

definition wait_or_kill :: "host \<Rightarrow> int \<Rightarrow> ('z world_scheme, bool \<times> proc) state" where
  "wait_or_kill h pid = do {
     r \<leftarrow> perform (WaitCmd pid) (\<lambda>tr. h_wait h tr pid);
     (if fst r
      then do {
        _ \<leftarrow> io_err h (KillGroup pid);
        _ \<leftarrow> io_err h (KillProcess pid);
        r2 \<leftarrow> perform (WaitCmd pid) (\<lambda>tr. h_wait h tr pid);
        ret (True, snd r2)
      }
      else ret (False, snd r))
   }"

definition native_verdict ::
  "ExecutionRequest \<Rightarrow> bool \<Rightarrow> float64 \<Rightarrow> bool \<Rightarrow> int \<Rightarrow> int \<Rightarrow> BoundedBuffer \<Rightarrow> BoundedBuffer \<Rightarrow> Verdict" where
  "native_verdict req timedOut wallDuration oomKilled peakMemoryBytes exitCode stdoutBuf stderrBuf =
     (if timedOut \<or> flt (time_limit_float req) wallDuration then VerdictTimeLimitExceeded
      else if oomKilled \<or> memory_max_bytes req < peakMemoryBytes then VerdictMemoryLimitExceeded
      else if Exceeded stdoutBuf \<or> Exceeded stderrBuf then VerdictOutputLimitExceeded
      else if exitCode \<noteq> 0 then VerdictRuntimeError
      else if req_ExpectedOutput req \<noteq> [] then
        (if \<not> outputs_match (Buf_String stdoutBuf) (req_ExpectedOutput req) then VerdictWrongAnswer
         else VerdictAccepted)
      else VerdictAccepted)"

definition native_result ::
  "SandboxContext \<Rightarrow> bool \<times> proc \<Rightarrow> float64 \<Rightarrow> int \<times> bool \<Rightarrow> float64 \<Rightarrow> gotime \<Rightarrow> ExecutionResult" where
  "native_result sCtx waited wallDuration mem cpuTimeMs executedAt =
     (let req = sc_Request sCtx;
          (timedOut, p) = waited;
          (peakMemoryBytes, oomKilled) = mem;
          stdoutBuf = captured req (pr_Stdout p);
          stderrBuf = captured req (pr_Stderr p);
          exitCode = exit_code (pr_Err p)
      in ExecutionResult_zero\<lparr>er_ID := sc_ID sCtx,
           er_Verdict := native_verdict req timedOut wallDuration oomKilled peakMemoryBytes exitCode
             stdoutBuf stderrBuf,
           er_ExitCode := exitCode, er_Stdout := Buf_String stdoutBuf,
           er_Stderr := Buf_String stderrBuf, er_WallTimeMs := wallDuration,
           er_CpuTimeMs := cpuTimeMs, er_PeakMemoryKB := go_div peakMemoryBytes 1024,
           er_PeakMemoryMB := fdivc (float_of_int peakMemoryBytes) 1048576,
           er_OOMKilled := oomKilled, er_SandboxBackend := native_Name,
           er_ExecutedAt := executedAt\<rparr>)"

text \<open>Everything after the process is attached to its cgroup.\<close>

definition native_supervise ::
  "host \<Rightarrow> SandboxContext \<Rightarrow> gotime \<Rightarrow> int \<Rightarrow> ('z world_scheme, ExecutionResult) state" where
  "native_supervise h sCtx wallStart pid = do {
     targetCore \<leftarrow> AllocateNextCore h;
     _ \<leftarrow> PinProcessToCore h pid targetCore;
     waited \<leftarrow> wait_or_kill h pid;
     wallEnd \<leftarrow> io_now h;
     mem \<leftarrow> readCgroupMemoryStats h (sc_CgroupPath sCtx);
     cpu \<leftarrow> readCgroupCpuStats h (sc_CgroupPath sCtx);
     cpu2 \<leftarrow> (if feq cpu (Fin 0)
              then do {
                ru \<leftarrow> perform (Rusage pid) (\<lambda>tr. h_rusage h tr pid);
                ret (case ru of
                       None \<Rightarrow> cpu
                     | Some (us, uu, ss, su) \<Rightarrow> fadd (rusage_ms us uu) (rusage_ms ss su))
              }
              else ret cpu);
     t \<leftarrow> io_now h;
     ret (native_result sCtx waited (elapsed_ms wallStart wallEnd) mem cpu2 t)
   }"

definition native_Execute :: "host \<Rightarrow> SandboxContext \<Rightarrow> ('z world_scheme, goerror + ExecutionResult) state" where
  "native_Execute h sCtx = do {
     io_do (WithTimeout (TimeoutDuration (sc_Request sCtx)));
     wallStart \<leftarrow> io_now h;
     s \<leftarrow> perform (StartCmd (native_run_cmd sCtx)) (\<lambda>tr. h_start h tr (native_run_cmd sCtx));
     (case s of
        Inl err \<Rightarrow> ret (Inl (ErrWrap ''failed to start process: '' err))
      | Inr pid \<Rightarrow> do {
          e \<leftarrow> io_err h (WriteFile (Join [sc_CgroupPath sCtx, ''cgroup.procs'']) (FormatInt pid @ nl) 420);
          (case e of
             Some err \<Rightarrow> do {
               _ \<leftarrow> io_err h (KillProcess pid);
               ret (Inl (ErrWrap ''failed to attach process to cgroup: '' err))
             }
           | None \<Rightarrow> do {
               res \<leftarrow> native_supervise h sCtx wallStart pid;
               ret (Inr res)
             })
        })
   }"

definition native_linux :: "host \<Rightarrow> ('z world_scheme) sandbox" where
  "native_linux h =
     \<lparr>sb_Name = native_Name, sb_IsAvailable = native_IsAvailable h, sb_Prepare = native_Prepare h,
      sb_Compile = native_Compile h, sb_Execute = native_Execute h, sb_Cleanup = native_Cleanup h\<rparr>"

section \<open>The stub for other platforms\<close>

definition only_linux :: goerror where
  "only_linux = ErrNew ''native cgroup v2 sandbox is only supported on Linux hosts''"

definition native_fallback :: "('z world_scheme) sandbox" where
  "native_fallback =
     \<lparr>sb_Name = native_Name, sb_IsAvailable = ret False,
      sb_Prepare = (\<lambda>_ _. ret (Inl only_linux)), sb_Compile = (\<lambda>_. ret (Inl only_linux)),
      sb_Execute = (\<lambda>_. ret (Inl only_linux)), sb_Cleanup = (\<lambda>_. ret None)\<rparr>"

text \<open>The build tag selects the implementation.\<close>

definition NewNativeCgroupV2Sandbox :: "host \<Rightarrow> ('z world_scheme) sandbox" where
  "NewNativeCgroupV2Sandbox h = (if h_goos h = ''linux'' then native_linux h else native_fallback)"

section \<open>The contract\<close>

lemma io_only_native_parts [io_frame]:
  "io_only (native_Cleanup h ctx)" "io_only (setupCgroupHierarchy h c req)"
  "io_only (readCgroupMemoryStats h c)" "io_only (readCgroupCpuStats h c)"
  "io_only (wait_or_kill h pid)"
  unfolding native_Cleanup_def setupCgroupHierarchy_def readCgroupMemoryStats_def
    readCgroupCpuStats_def wait_or_kill_def
  by (intro io_frame)+

lemma io_only_native_supervise [io_frame]: "io_only (native_supervise h ctx t pid)"
  unfolding native_supervise_def by (intro io_frame)

lemma io_only_native [io_frame]:
  "io_only (native_IsAvailable h)" "io_only (native_Prepare h req lang)"
  "io_only (native_Compile h ctx)" "io_only (native_Execute h ctx)"
  unfolding native_IsAvailable_def native_Prepare_def native_Compile_def native_Execute_def
  by (intro io_frame)+

lemma native_Prepare_Inr:
  assumes "run_state (native_Prepare h req lang) w = (Inr ctx, w')"
  shows "sc_ID ctx = req_ID req \<and> sc_Request ctx = req \<and> sc_Language ctx = lang"
  using assms by (auto simp: native_Prepare_def Let_def split: prod.splits option.splits)

lemma native_verdict_range: "native_verdict req to wall oom pk ec ob eb \<in> run_verdicts"
  by (auto simp: native_verdict_def run_verdicts_def)

lemma native_verdict_accepted:
  "native_verdict req to wall oom pk ec ob eb = VerdictAccepted \<longleftrightarrow>
     \<not> to \<and> \<not> flt (time_limit_float req) wall \<and> \<not> oom \<and> pk \<le> memory_max_bytes req \<and>
     \<not> Exceeded ob \<and> \<not> Exceeded eb \<and> ec = 0 \<and>
     (req_ExpectedOutput req \<noteq> [] \<longrightarrow> outputs_match (Buf_String ob) (req_ExpectedOutput req))"
  by (auto simp: native_verdict_def)

lemma native_result_contract:
  "er_ID (native_result ctx wt wall mem cpu t) = sc_ID ctx"
  "er_SandboxBackend (native_result ctx wt wall mem cpu t) = native_Name"
  "er_Verdict (native_result ctx wt wall mem cpu t) \<in> run_verdicts"
  "length (er_Stdout (native_result ctx wt wall mem cpu t)) \<le> cap_of (req_MaxOutputBytes (sc_Request ctx))"
  "length (er_Stderr (native_result ctx wt wall mem cpu t)) \<le> cap_of (req_MaxOutputBytes (sc_Request ctx))"
  "er_Verdict (native_result ctx wt wall mem cpu t) = VerdictAccepted \<Longrightarrow>
    accepted_ok (sc_Request ctx) (native_result ctx wt wall mem cpu t)"
  by (simp_all add: native_result_def Let_def split_def native_verdict_range captured_bound
      native_verdict_accepted accepted_ok_def)

lemma native_Execute_Inr:
  assumes "run_state (native_Execute h ctx) w = (Inr res, w')"
  obtains wt wall mem cpu t where "res = native_result ctx wt wall mem cpu t"
  using assms that
  by (auto simp: native_Execute_def native_supervise_def split: prod.splits sum.splits option.splits)

interpretation native: sandbox_backend "native_linux h" for h
proof
qed (auto simp: native_linux_def native_Name_def [THEN arg_cong [where f = "\<lambda>x. x = []"]]
    io_only_native io_only_native_parts io_only_compile_with native_Compile_def compile_with_Inr
    dest: native_Prepare_Inr elim!: native_Execute_Inr intro: native_result_contract)

interpretation native_stub: sandbox_backend native_fallback
proof
qed (auto simp: native_fallback_def native_Name_def [THEN arg_cong [where f = "\<lambda>x. x = []"]]
    intro: io_frame)

lemma NewNativeCgroupV2Sandbox_backend: "sandbox_backend (NewNativeCgroupV2Sandbox h)"
  by (simp add: NewNativeCgroupV2Sandbox_def native.sandbox_backend_axioms
      native_stub.sandbox_backend_axioms)

section \<open>What reaches the kernel\<close>

text \<open>The calls of a successful preparation, in order.\<close>

definition prepare_ops :: "host \<Rightarrow> ExecutionRequest \<Rightarrow> LanguageHandler \<Rightarrow> io_op list" where
  "prepare_ops h req lang =
     (let wd = Join [EphemeralWorkspace, req_ID req]; cg = Join [CgroupBaseSlice, req_ID req]
      in [Now, MkdirAll wd 493, WriteFile (Join [wd, lh_SourceFilename lang]) (req_Code req) 420,
          Chown wd DefaultSandboxUID DefaultSandboxGID, Chmod wd 493,
          MkdirAll CgroupBaseSlice 493,
          WriteFile (Join [CgroupV2Root, ''cgroup.subtree_control'']) (''+cpu +memory +pids'' @ nl) 420,
          WriteFile (Join [CgroupBaseSlice, ''cgroup.subtree_control'']) (''+cpu +memory +pids'' @ nl) 420,
          MkdirAll cg 493,
          WriteFile (Join [cg, ''memory.max'']) (FormatInt (memory_max_bytes req) @ nl) 420,
          WriteFile (Join [cg, ''cpu.max'']) (cpu_max_line h req) 420,
          WriteFile (Join [cg, ''pids.max'']) (FormatInt (req_PidsLimit req) @ nl) 420])"

lemma native_Prepare_trace:
  assumes "run_state (native_Prepare h req lang) w = (Inr ctx, w')"
  shows "w_trace w' = w_trace w @ prepare_ops h req lang"
  using assms
  by (auto simp: native_Prepare_def WriteSourceFile_def setupCgroupHierarchy_def prepare_ops_def
      Let_def split: prod.splits option.splits)

text \<open>Of these calls the ones whose errors the code looks at have succeeded.\<close>

lemma native_Prepare_succeeded:
  assumes "run_state (native_Prepare h req lang) w = (Inr ctx, w')" and "k \<in> {1, 2, 5, 8, 9, 10, 11}"
  shows "h_err h (w_trace w @ take k (prepare_ops h req lang)) (prepare_ops h req lang ! k) = None"
  using assms
  by (auto simp: native_Prepare_def WriteSourceFile_def setupCgroupHierarchy_def prepare_ops_def
      Let_def numeral_eq_Suc split: prod.splits option.splits)

lemma native_Prepare_paths:
  assumes "run_state (native_Prepare h req lang) w = (Inr ctx, w')"
  shows "sc_WorkingDir ctx = Join [EphemeralWorkspace, req_ID req]"
    and "sc_CgroupPath ctx = Join [CgroupBaseSlice, req_ID req]"
  using assms by (auto simp: native_Prepare_def Let_def split: prod.splits option.splits)

text \<open>The first thing every preparation does is to create the workspace directory.\<close>

lemma native_Prepare_mkdir:
  "\<exists>ops. w_trace (snd (run_state (native_Prepare h req lang) w)) =
     w_trace w @ [Now, MkdirAll (Join [EphemeralWorkspace, req_ID req]) 493] @ ops"
  by (simp add: native_Prepare_def WriteSourceFile_def setupCgroupHierarchy_def native_Cleanup_def
      Let_def split: option.splits)

lemma memory_max_exact: "normalized req \<Longrightarrow> memory_max_bytes req = req_MemoryLimitMB req * 1048576"
  by (simp add: memory_max_bytes_def normalized_def limit_defs int64_ok_def)

text \<open>The same calls in terms of the prepared context, for a normalized request.\<close>

lemma prepare_ops_ctx:
  assumes "run_state (native_Prepare h req lang) w = (Inr ctx, w')" and "normalized req"
  shows "prepare_ops h req lang =
     [Now, MkdirAll (sc_WorkingDir ctx) 493,
      WriteFile (Join [sc_WorkingDir ctx, lh_SourceFilename lang]) (req_Code req) 420,
      Chown (sc_WorkingDir ctx) DefaultSandboxUID DefaultSandboxGID, Chmod (sc_WorkingDir ctx) 493,
      MkdirAll CgroupBaseSlice 493,
      WriteFile (Join [CgroupV2Root, ''cgroup.subtree_control'']) (''+cpu +memory +pids'' @ nl) 420,
      WriteFile (Join [CgroupBaseSlice, ''cgroup.subtree_control'']) (''+cpu +memory +pids'' @ nl) 420,
      MkdirAll (sc_CgroupPath ctx) 493,
      WriteFile (Join [sc_CgroupPath ctx, ''memory.max'']) (FormatInt (req_MemoryLimitMB req * 1048576) @ nl) 420,
      WriteFile (Join [sc_CgroupPath ctx, ''cpu.max'']) (cpu_max_line h req) 420,
      WriteFile (Join [sc_CgroupPath ctx, ''pids.max'']) (FormatInt (req_PidsLimit req) @ nl) 420]"
  unfolding prepare_ops_def Let_def native_Prepare_paths [OF assms(1)] memory_max_exact [OF assms(2)] ..

text \<open>
  A started process is attached to its cgroup by the very next call; if that fails it is killed
  and the run reports an error.  Pinning comes next, then the wait; when the watchdog ends it, the
  process group and the process are killed and the child is waited for again.
\<close>

definition attach_op :: "SandboxContext \<Rightarrow> int \<Rightarrow> io_op" where
  "attach_op ctx pid = WriteFile (Join [sc_CgroupPath ctx, ''cgroup.procs'']) (FormatInt pid @ nl) 420"

definition pin_op :: "int \<Rightarrow> io_op \<Rightarrow> bool" where
  "pin_op pid op \<longleftrightarrow> op = NumCPU \<or> (\<exists>m. op = SchedSetaffinity pid m) \<or> (\<exists>core. op = RunCmd (taskset_cmd pid core))"

lemma PinProcessToCore_trace:
  obtains ops where "w_trace (snd (run_state (PinProcessToCore h pid core) w)) = w_trace w @ ops"
    and "list_all (pin_op pid) ops"
proof -
  have "pin_op pid (RunCmd (taskset_cmd pid core))" "pin_op pid (SchedSetaffinity pid (affinity_mask core))"
    unfolding pin_op_def by blast+
  then have "\<exists>ops. w_trace (snd (run_state (PinProcessToCore h pid core) w)) = w_trace w @ ops \<and> list_all (pin_op pid) ops"
    by (simp add: PinProcessToCore_def PinProcessToCore_linux_def PinProcessToCore_fallback_def
        split: option.split)
  then show thesis using that by blast
qed

lemma wait_or_kill_run:
  "w_trace (snd (run_state (wait_or_kill h pid) w)) = w_trace w @
    (if fst (h_wait h (w_trace w) pid) then [WaitCmd pid, KillGroup pid, KillProcess pid, WaitCmd pid]
     else [WaitCmd pid])"
  "fst (fst (run_state (wait_or_kill h pid) w)) = fst (h_wait h (w_trace w) pid)"
  by (simp_all add: wait_or_kill_def split_def)

lemma native_result_timeout:
  "fst waited \<Longrightarrow> er_Verdict (native_result ctx waited wall mem cpu t) = VerdictTimeLimitExceeded"
  by (simp add: native_result_def native_verdict_def Let_def split_def)

lemma native_supervise_trace:
  assumes "run_state (native_supervise h ctx t pid) w = (res, w')"
  obtains pin post where "list_all (pin_op pid) pin"
    and "w_trace w' = w_trace w @ pin @
      (if fst (h_wait h (w_trace w @ pin) pid) then [WaitCmd pid, KillGroup pid, KillProcess pid, WaitCmd pid]
       else [WaitCmd pid]) @ post"
    and "fst (h_wait h (w_trace w @ pin) pid) \<Longrightarrow> er_Verdict res = VerdictTimeLimitExceeded"
proof -
  obtain core w1 where 1: "run_state (AllocateNextCore h) w = (core, w1)" by force
  obtain e w2 where 2: "run_state (PinProcessToCore h pid core) w1 = (e, w2)" by force
  obtain ops where ops: "w_trace w2 = w_trace w1 @ ops" "list_all (pin_op pid) ops"
    by (rule PinProcessToCore_trace [of h pid core w1]) (simp add: 2)
  obtain r w3 where 3: "run_state (wait_or_kill h pid) w2 = (r, w3)" by (metis prod.exhaust)
  let ?rest = "do {
     wallEnd \<leftarrow> io_now h;
     mem \<leftarrow> readCgroupMemoryStats h (sc_CgroupPath ctx);
     cpu \<leftarrow> readCgroupCpuStats h (sc_CgroupPath ctx);
     cpu2 \<leftarrow> (if feq cpu (Fin 0)
              then do {
                ru \<leftarrow> perform (Rusage pid) (\<lambda>tr. h_rusage h tr pid);
                ret (case ru of
                       None \<Rightarrow> cpu
                     | Some (us, uu, ss, su) \<Rightarrow> fadd (rusage_ms us uu) (rusage_ms ss su))
              }
              else ret cpu);
     t' \<leftarrow> io_now h;
     ret (native_result ctx r (elapsed_ms t wallEnd) mem cpu2 t')
   }"
  have rest: "run_state ?rest w3 = (res, w')"
    using assms 1 2 3 by (simp add: native_supervise_def)
  have "io_only ?rest" by (intro io_frame)
  then obtain post c where post: "w' = w3\<lparr>w_trace := w_trace w3 @ post, w_nextCore := c\<rparr>"
    using rest by (rule io_only_run)
  have w1: "w_trace w1 = w_trace w @ [NumCPU]" using AllocateNextCore_trace [of h w] 1 by simp
  have "fst r \<Longrightarrow> er_Verdict res = VerdictTimeLimitExceeded"
    using rest native_result_timeout [of r] by (auto split: prod.splits if_splits)
  with wait_or_kill_run [of h pid w2] 3 w1 ops post show thesis
    by (intro that [of "NumCPU # ops" post]) (simp_all add: pin_op_def)
qed

text \<open>What \<open>native_Execute\<close> does, by the host's answers to the start, the attachment and the wait.\<close>

lemma native_Execute_trace:
  assumes "run_state (native_Execute h ctx) w = (r, w')"
    and "tr = w_trace w @ [WithTimeout (TimeoutDuration (sc_Request ctx)), Now]"
  shows "case h_start h tr (native_run_cmd ctx) of
      Inl _ \<Rightarrow> (\<exists>e. r = Inl e) \<and> w_trace w' = tr @ [StartCmd (native_run_cmd ctx)]
    | Inr pid \<Rightarrow>
        if h_err h (tr @ [StartCmd (native_run_cmd ctx)]) (attach_op ctx pid) \<noteq> None
        then (\<exists>e. r = Inl e) \<and> w_trace w' = tr @ [StartCmd (native_run_cmd ctx), attach_op ctx pid, KillProcess pid]
        else \<exists>res pin post. r = Inr res \<and> list_all (pin_op pid) pin \<and>
          (let tr' = tr @ [StartCmd (native_run_cmd ctx), attach_op ctx pid] @ pin; fired = fst (h_wait h tr' pid)
           in w_trace w' = tr' @
                (if fired then [WaitCmd pid, KillGroup pid, KillProcess pid, WaitCmd pid] else [WaitCmd pid]) @ post \<and>
              (fired \<longrightarrow> er_Verdict res = VerdictTimeLimitExceeded))"
proof (cases "h_start h tr (native_run_cmd ctx)")
  case (Inl e)
  then show ?thesis using assms by (auto simp: native_Execute_def)
next
  case (Inr pid)
  show ?thesis
  proof (cases "h_err h (tr @ [StartCmd (native_run_cmd ctx)]) (attach_op ctx pid)")
    case (Some e)
    then show ?thesis using assms Inr by (auto simp: native_Execute_def attach_op_def)
  next
    case None
    let ?w1 = "w\<lparr>w_trace := tr @ [StartCmd (native_run_cmd ctx), attach_op ctx pid]\<rparr>"
    obtain res where res: "r = Inr res"
      and sup: "run_state (native_supervise h ctx (h_now h (butlast tr)) pid) ?w1 = (res, w')"
      using assms Inr None
      by (auto simp: native_Execute_def attach_op_def butlast_append split: prod.splits)
    show ?thesis
      by (rule native_supervise_trace [OF sup]) (use Inr None res in \<open>auto simp: Let_def\<close>)
  qed
qed

end
