(* ===== verification/Sandbox_Select.thy ===== *)
theory Sandbox_Select
  imports Dev_Process Docker Native_Cgroup
begin

text \<open>
  The selection of a backend (\<^verbatim>\<open>SelectSandbox\<close> in \<^verbatim>\<open>sandbox/sandbox.go\<close>): an explicit preference
  yields that backend or an error, the automatic choice always yields one, and whatever is
  selected keeps the contract \<open>sandbox_backend\<close>.
\<close>

definition native_unavailable :: "host \<Rightarrow> goerror" where
  "native_unavailable h =
     ErrNew (''native cgroup v2 sandbox is not available on this host ('' @ h_goos h @ '', root required)'')"

definition docker_unavailable :: goerror where
  "docker_unavailable = ErrNew ''docker sandbox is not available or Docker daemon is unreachable''"

definition unknown_backend :: "string \<Rightarrow> goerror" where
  "unknown_backend preference =
     ErrNew (''unknown sandbox backend preference: '' @ [CHR 0x27] @ preference @ [CHR 0x27])"

text \<open>The spellings each case of the switch accepts.\<close>

definition native_prefs :: "string list" where
  "native_prefs = [''native'', ''cgroup'', ''cgroupv2'']"

definition docker_prefs :: "string list" where
  "docker_prefs = [''docker'', ''container'']"

definition dev_prefs :: "string list" where
  "dev_prefs = [''dev_process'', ''dev'', ''process'']"

definition auto_prefs :: "string list" where
  "auto_prefs = [''auto'', []]"

lemmas prefs_defs = native_prefs_def docker_prefs_def dev_prefs_def auto_prefs_def

text \<open>The switch, given the three backend values built first.\<close>

definition select_from ::
  "host \<Rightarrow> ('z world_scheme) sandbox \<Rightarrow> ('z world_scheme) sandbox \<Rightarrow> ('z world_scheme) sandbox \<Rightarrow>
    string \<Rightarrow> ('z world_scheme, goerror + ('z world_scheme) sandbox) state" where
  "select_from h native docker devSandbox preference =
     (if preference \<in> set native_prefs then do {
        a \<leftarrow> sb_IsAvailable native;
        ret (if \<not> a then Inl (native_unavailable h) else Inr native)
      }
      else if preference \<in> set docker_prefs then do {
        a \<leftarrow> sb_IsAvailable docker;
        ret (if \<not> a then Inl docker_unavailable else Inr docker)
      }
      else if preference \<in> set dev_prefs then ret (Inr devSandbox)
      else if preference \<in> set auto_prefs then do {
        a \<leftarrow> (if h_goos h = ''linux'' then sb_IsAvailable native else ret False);
        (if a then ret (Inr native)
         else do {
           b \<leftarrow> sb_IsAvailable docker;
           ret (Inr (if b then docker else devSandbox))
         })
      }
      else ret (Inl (unknown_backend preference)))"

definition SelectSandbox ::
  "host \<Rightarrow> string \<Rightarrow> ('z world_scheme, goerror + ('z world_scheme) sandbox) state" where
  "SelectSandbox h preference = do {
     docker \<leftarrow> NewDockerSandbox h;
     select_from h (NewNativeCgroupV2Sandbox h) docker (DevProcessSandbox h) preference
   }"

section \<open>Any selected backend keeps the contract\<close>

lemma NewDockerSandbox_run:
  obtains img where "run_state (NewDockerSandbox h) w =
     (DockerSandbox h img, w\<lparr>w_trace := w_trace w @ [Getenv ''RUNNER_IMAGE'']\<rparr>)"
  by (simp add: NewDockerSandbox_def)

lemma select_from_cases:
  assumes "run_state (select_from h n d v pref) w = (Inr sb, w')"
  shows "sb = n \<and> pref \<in> set native_prefs \<union> set auto_prefs \<or>
    sb = d \<and> pref \<in> set docker_prefs \<union> set auto_prefs \<or>
    sb = v \<and> pref \<in> set dev_prefs \<union> set auto_prefs"
  using assms by (auto simp: select_from_def split_def split: if_splits)

lemma SelectSandbox_cases:
  assumes "run_state (SelectSandbox h pref) w = (Inr sb, w')"
  obtains (native) "sb = NewNativeCgroupV2Sandbox h" and "pref \<in> set native_prefs \<union> set auto_prefs"
  | (docker) img where "sb = DockerSandbox h img" and "pref \<in> set docker_prefs \<union> set auto_prefs"
  | (dev) "sb = DevProcessSandbox h" and "pref \<in> set dev_prefs \<union> set auto_prefs"
proof -
  obtain img where "run_state (NewDockerSandbox h) w =
      (DockerSandbox h img, w\<lparr>w_trace := w_trace w @ [Getenv ''RUNNER_IMAGE'']\<rparr>)"
    by (rule NewDockerSandbox_run)
  then have "run_state (select_from h (NewNativeCgroupV2Sandbox h) (DockerSandbox h img)
      (DevProcessSandbox h) pref) (w\<lparr>w_trace := w_trace w @ [Getenv ''RUNNER_IMAGE'']\<rparr>) = (Inr sb, w')"
    using assms by (simp add: SelectSandbox_def)
  from select_from_cases [OF this] show thesis using that by blast
qed

lemma SelectSandbox_backend:
  assumes "run_state (SelectSandbox h pref) w = (Inr sb, w')"
  shows "sandbox_backend sb"
  using assms
  by (rule SelectSandbox_cases)
    (simp_all add: NewNativeCgroupV2Sandbox_backend docker.sandbox_backend_axioms
      dev.sandbox_backend_axioms)

lemma io_only_native_available [io_frame]: "io_only (sb_IsAvailable (NewNativeCgroupV2Sandbox h))"
  by (simp add: NewNativeCgroupV2Sandbox_def native_linux_def native_fallback_def io_frame)

lemma io_only_docker_available [io_frame]: "io_only (sb_IsAvailable (DockerSandbox h img))"
  by (simp add: DockerSandbox_def io_frame)

lemma io_only_select_from:
  "io_only (sb_IsAvailable n) \<Longrightarrow> io_only (sb_IsAvailable d) \<Longrightarrow> io_only (select_from h n d v pref)"
  unfolding select_from_def by (intro io_frame)

lemma io_only_SelectSandbox [io_frame]: "io_only (SelectSandbox h pref)"
  unfolding SelectSandbox_def NewDockerSandbox_def State_Monad.bind_assoc State_Monad.bind_left_identity
  by (intro io_frame io_only_select_from)

text \<open>The automatic choice never fails, and the development backend is always there when named.\<close>

lemma prefs_disjoint:
  "pref \<in> set auto_prefs \<Longrightarrow> pref \<notin> set native_prefs \<and> pref \<notin> set docker_prefs \<and> pref \<notin> set dev_prefs"
  "pref \<in> set dev_prefs \<Longrightarrow> pref \<notin> set native_prefs \<and> pref \<notin> set docker_prefs"
  by (auto simp: prefs_defs)

lemma native_docker_disjoint: "pref \<in> set docker_prefs \<Longrightarrow> pref \<notin> set native_prefs"
  by (auto simp: prefs_defs)

lemma SelectSandbox_total:
  assumes "pref \<in> set auto_prefs \<union> set dev_prefs"
  shows "\<exists>sb. fst (run_state (SelectSandbox h pref) w) = Inr sb"
  using assms prefs_disjoint [of pref]
  by (auto simp: SelectSandbox_def select_from_def split_def)

lemma SelectSandbox_unknown:
  assumes "pref \<notin> set native_prefs \<union> set docker_prefs \<union> set dev_prefs \<union> set auto_prefs"
  shows "fst (run_state (SelectSandbox h pref) w) = Inl (unknown_backend pref)"
  using assms by (simp add: SelectSandbox_def select_from_def split_def)

end
