(* ===== verification/Go_Channel.thy ===== *)
theory Go_Channel
  imports Go_Prelude
begin

text \<open>
  Buffered Go channels: a bounded buffer with a closed flag.  Sending on a closed channel and
  closing it twice panic; receiving from a closed channel drains the buffer first.
\<close>

record 'a chan =
  ch_buf :: "'a list"
  ch_cap :: nat
  ch_closed :: bool

definition make_chan :: "nat \<Rightarrow> 'a chan" where
  "make_chan n = \<lparr>ch_buf = [], ch_cap = n, ch_closed = False\<rparr>"

datatype 'a send_outcome = Sent "'a chan" | WouldBlock | SendPanic

definition chan_send :: "'a \<Rightarrow> 'a chan \<Rightarrow> 'a send_outcome" where
  "chan_send x c =
     (if ch_closed c then SendPanic
      else if length (ch_buf c) < ch_cap c then Sent (c\<lparr>ch_buf := ch_buf c @ [x]\<rparr>)
      else WouldBlock)"

datatype 'a recv_outcome = Received 'a "'a chan" | RecvClosed | RecvBlock

definition chan_recv :: "'a chan \<Rightarrow> 'a recv_outcome" where
  "chan_recv c =
     (case ch_buf c of
        x # xs \<Rightarrow> Received x (c\<lparr>ch_buf := xs\<rparr>)
      | [] \<Rightarrow> if ch_closed c then RecvClosed else RecvBlock)"

text \<open>\<open>None\<close> is the panic of closing a closed channel.\<close>

definition chan_close :: "'a chan \<Rightarrow> 'a chan option" where
  "chan_close c = (if ch_closed c then None else Some (c\<lparr>ch_closed := True\<rparr>))"

definition chan_ok :: "'a chan \<Rightarrow> bool" where
  "chan_ok c \<longleftrightarrow> length (ch_buf c) \<le> ch_cap c"

lemma chan_ok_make [simp]: "chan_ok (make_chan n)"
  by (simp add: chan_ok_def make_chan_def)

lemma chan_ok_send: "chan_ok c \<Longrightarrow> chan_send x c = Sent c' \<Longrightarrow> chan_ok c'"
  by (auto simp: chan_ok_def chan_send_def split: if_splits)

lemma chan_ok_recv: "chan_ok c \<Longrightarrow> chan_recv c = Received x c' \<Longrightarrow> chan_ok c'"
  by (auto simp: chan_ok_def chan_recv_def split: list.splits if_splits)

lemma chan_recv_Received:
  "chan_recv c = Received x c' \<longleftrightarrow> ch_buf c = x # ch_buf c' \<and> c' = c\<lparr>ch_buf := ch_buf c'\<rparr>"
  by (cases c; cases c') (auto simp: chan_recv_def split: list.splits if_splits)

lemma chan_recv_frame:
  assumes "chan_recv c = Received x c'"
  shows "ch_buf c = x # ch_buf c'" and "ch_closed c' = ch_closed c" and "ch_cap c' = ch_cap c"
  using assms by (auto simp: chan_recv_def split: list.splits if_splits)

lemma chan_send_Sent:
  "chan_send x c = Sent c' \<longleftrightarrow>
     \<not> ch_closed c \<and> length (ch_buf c) < ch_cap c \<and> c' = c\<lparr>ch_buf := ch_buf c @ [x]\<rparr>"
  by (auto simp: chan_send_def)

lemma chan_send_recv:
  "chan_send x c = Sent c' \<Longrightarrow> ch_buf c = [] \<Longrightarrow> chan_recv c' = Received x c"
  by (cases c) (auto simp: chan_send_Sent chan_recv_def)

end
