(* ===== verification/Queue.thy ===== *)
theory Queue
  imports Models Go_Channel
begin

text \<open>
  Package \<^verbatim>\<open>queue\<close>: the submission job with its defaults and the \<^verbatim>\<open>JobQueue\<close> interface.  The locale \<open>job_queue\<close> is the interface's
  contract; inside it every sequence of operations is shown to be first in, first out, with no
  job lost or duplicated.  The in-memory queue is an interpretation; the Redis queue,
  whose list other programs use too, is treated in \<^verbatim>\<open>Redis_Queue\<close>.
\<close>

section \<open>Jobs\<close>

record TestCase =
  tc_ID :: string
  tc_Input :: string
  tc_ExpectedOutput :: string
  tc_IsHidden :: bool

record SubmissionJob =
  job_SubmissionID :: string
  job_Language :: string
  job_Code :: string
  job_TimeLimitMs :: int
  job_MemoryLimitMB :: int
  job_CpuQuota :: float64
  job_PidsLimit :: int
  job_MaxOutputBytes :: int
  job_SandboxType :: string
  job_TestCases :: "TestCase list"
  job_EnqueuedAt :: gotime

definition job_defaults :: "SubmissionJob \<Rightarrow> gotime \<Rightarrow> SubmissionJob" where
  "job_defaults j t =
     j\<lparr>job_TimeLimitMs := (if job_TimeLimitMs j \<le> 0 then DefaultTimeLimitMs else job_TimeLimitMs j),
       job_MemoryLimitMB := (if job_MemoryLimitMB j \<le> 0 then DefaultMemoryLimitMB else job_MemoryLimitMB j),
       job_CpuQuota := (if fle (job_CpuQuota j) (Fin 0) then DefaultCpuQuota else job_CpuQuota j),
       job_PidsLimit := (if job_PidsLimit j \<le> 0 then DefaultPidsLimit else job_PidsLimit j),
       job_MaxOutputBytes :=
         (if job_MaxOutputBytes j \<le> 0 then DefaultMaxOutputBytes else job_MaxOutputBytes j),
       job_SandboxType := (if job_SandboxType j = [] then ''auto'' else job_SandboxType j),
       job_EnqueuedAt := t\<rparr>"

definition job_Normalize :: "host \<Rightarrow> SubmissionJob \<Rightarrow> ('z world_scheme, SubmissionJob) state" where
  "job_Normalize h j = do {
     t \<leftarrow> (if IsZero (job_EnqueuedAt j) then io_now h else ret (job_EnqueuedAt j));
     ret (job_defaults j t)
   }"

lemma io_only_job_Normalize [io_frame]: "io_only (job_Normalize h j)"
  unfolding job_Normalize_def by (intro io_frame)

lemma job_Normalize_run:
  obtains t ops where
    "run_state (job_Normalize h j) w = (job_defaults j t, w\<lparr>w_trace := w_trace w @ ops\<rparr>)"
    and "ops = (if IsZero (job_EnqueuedAt j) then [Now] else [])"
proof
  show "run_state (job_Normalize h j) w =
    (job_defaults j (if IsZero (job_EnqueuedAt j) then h_now h (w_trace w) else job_EnqueuedAt j),
     w\<lparr>w_trace := w_trace w @ (if IsZero (job_EnqueuedAt j) then [Now] else [])\<rparr>)"
    by (simp add: job_Normalize_def)
qed simp

lemma job_defaults_frame [simp]:
  "job_SubmissionID (job_defaults j t) = job_SubmissionID j"
  "job_Language (job_defaults j t) = job_Language j"
  "job_Code (job_defaults j t) = job_Code j"
  "job_TestCases (job_defaults j t) = job_TestCases j"
  by (simp_all add: job_defaults_def)

text \<open>The jobs JSON carries without loss: every string is valid UTF-8.\<close>

definition TestCase_utf8 :: "TestCase \<Rightarrow> bool" where
  "TestCase_utf8 tc \<longleftrightarrow> list_all utf8_valid [tc_ID tc, tc_Input tc, tc_ExpectedOutput tc]"

definition job_utf8 :: "SubmissionJob \<Rightarrow> bool" where
  "job_utf8 j \<longleftrightarrow>
     list_all utf8_valid [job_SubmissionID j, job_Language j, job_Code j, job_SandboxType j] \<and>
     list_all TestCase_utf8 (job_TestCases j)"

lemma job_utf8_defaults: "job_utf8 j \<Longrightarrow> job_utf8 (job_defaults j t)"
  by (auto simp: job_utf8_def job_defaults_def utf8_lead_def)

section \<open>The interface\<close>

record 'w JobQueue =
  jq_Enqueue :: "SubmissionJob \<Rightarrow> ('w, goerror option) state"
  jq_Dequeue :: "int \<Rightarrow> ('w, goerror + SubmissionJob) state"
  jq_QueueDepth :: "('w, goerror + int) state"
  jq_Close :: "('w, goerror option) state"

text \<open>
  The contract.  \<open>pending\<close> is the abstract queue, oldest job first, and \<open>inv\<close> what the
  implementation keeps between calls; \<open>valid\<close> are the jobs it can carry.  The job stored is the
  submitted one up to its defaults.
\<close>

locale job_queue =
  fixes q :: "'w JobQueue"
    and valid :: "SubmissionJob \<Rightarrow> bool"
    and pending :: "'w \<Rightarrow> SubmissionJob list"
    and inv :: "'w \<Rightarrow> bool"
  assumes enqueue_ok: "inv w \<Longrightarrow> valid j \<Longrightarrow> run_state (jq_Enqueue q j) w = (None, w') \<Longrightarrow>
      inv w' \<and> (\<exists>t. pending w' = pending w @ [job_defaults j t])"
    and enqueue_err: "inv w \<Longrightarrow> valid j \<Longrightarrow> run_state (jq_Enqueue q j) w = (Some e, w') \<Longrightarrow>
      inv w' \<and> pending w' = pending w"
    and dequeue_ok: "inv w \<Longrightarrow> run_state (jq_Dequeue q timeout) w = (Inr j, w') \<Longrightarrow>
      inv w' \<and> pending w = j # pending w'"
    and dequeue_err: "inv w \<Longrightarrow> run_state (jq_Dequeue q timeout) w = (Inl e, w') \<Longrightarrow>
      inv w' \<and> pending w' = pending w"
    and depth_ok: "inv w \<Longrightarrow> run_state (jq_QueueDepth q) w = (r, w') \<Longrightarrow>
      inv w' \<and> pending w' = pending w \<and> (\<forall>n. r = Inr n \<longrightarrow> n = int (length (pending w)))"
    and close_ok: "inv w \<Longrightarrow> run_state (jq_Close q) w = (r', w') \<Longrightarrow>
      inv w' \<and> pending w' = pending w"

text \<open>A client's calls; the value of a call is the jobs it had accepted and the jobs it was given.\<close>

datatype queue_call = CallEnqueue SubmissionJob | CallDequeue int | CallDepth | CallClose

fun queue_do :: "'w JobQueue \<Rightarrow> queue_call \<Rightarrow> ('w, SubmissionJob list \<times> SubmissionJob list) state" where
  "queue_do q (CallEnqueue j) =
     do { e \<leftarrow> jq_Enqueue q j; ret (if e = None then [j] else [], []) }"
| "queue_do q (CallDequeue timeout) =
     do { d \<leftarrow> jq_Dequeue q timeout; ret ([], case d of Inr j \<Rightarrow> [j] | Inl _ \<Rightarrow> []) }"
| "queue_do q CallDepth = do { _ \<leftarrow> jq_QueueDepth q; ret ([], []) }"
| "queue_do q CallClose = do { _ \<leftarrow> jq_Close q; ret ([], []) }"

fun run_calls :: "'w JobQueue \<Rightarrow> queue_call list \<Rightarrow> ('w, SubmissionJob list \<times> SubmissionJob list) state" where
  "run_calls q [] = ret ([], [])"
| "run_calls q (c # cs) = do {
     r \<leftarrow> queue_do q c;
     rs \<leftarrow> run_calls q cs;
     ret (fst r @ fst rs, snd r @ snd rs)
   }"

definition call_jobs :: "queue_call list \<Rightarrow> SubmissionJob list" where
  "call_jobs cs = concat (map (\<lambda>c. case c of CallEnqueue j \<Rightarrow> [j] | _ \<Rightarrow> []) cs)"

text \<open>The identity of a job, which the defaults never touch.\<close>

definition job_key :: "SubmissionJob \<Rightarrow> string \<times> string \<times> string \<times> TestCase list" where
  "job_key j = (job_SubmissionID j, job_Language j, job_Code j, job_TestCases j)"

lemma job_key_defaults [simp]: "job_key (job_defaults j t) = job_key j"
  by (simp add: job_key_def)

context job_queue
begin

lemma call_keeps_order:
  assumes "inv w" and "list_all valid (call_jobs [c])" and "run_state (queue_do q c) w = ((a, t), w')"
  shows "inv w'" and "map job_key (pending w @ a) = map job_key (t @ pending w')"
  using assms
  by (cases c; auto simp: call_jobs_def split: prod.splits sum.splits if_splits
        dest: enqueue_ok enqueue_err dequeue_ok dequeue_err depth_ok close_ok)+

text \<open>
  First in, first out: the jobs accepted so far, in order, are the jobs handed out so far followed
  by the jobs still pending.
\<close>

lemma fifo:
  assumes "inv w" and "list_all valid (call_jobs cs)"
    and "run_state (run_calls q cs) w = ((accepted, taken), w')"
  shows "inv w' \<and> map job_key (pending w @ accepted) = map job_key (taken @ pending w')"
  using assms
proof (induction cs arbitrary: w accepted taken)
  case Nil
  then show ?case by simp
next
  case (Cons c cs)
  obtain a t w1 where 1: "run_state (queue_do q c) w = ((a, t), w1)"
    by (metis prod.exhaust)
  obtain as ts where 2: "run_state (run_calls q cs) w1 = ((as, ts), w')"
    and "accepted = a @ as" "taken = t @ ts"
    using Cons.prems(3) 1 by (auto split: prod.splits)
  have c: "list_all valid (call_jobs [c])" and cs: "list_all valid (call_jobs cs)"
    using Cons.prems(2) by (simp_all add: call_jobs_def)
  from \<open>accepted = a @ as\<close> \<open>taken = t @ ts\<close>
    call_keeps_order [OF Cons.prems(1) c 1] Cons.IH [OF _ cs 2] show ?case
    by (metis append.assoc map_append)
qed

end

end
