(* ===== verification/Memory_Queue.thy ===== *)
theory Memory_Queue
  imports Queue
begin

text \<open>
  \<^verbatim>\<open>queue/memory_queue.go\<close>: the in-memory job queue on a Go channel.  \<open>Enqueue\<close> is two critical
  steps, the check of the closed flag under the lock and the \<^verbatim>\<open>select\<close> that sends after the lock
  was released; run without interruption they implement the queue contract.  The second half
  interleaves the steps of any number of goroutines: nothing is lost or reordered, the channel
  never overflows, and the only panic is the one between a check and its send.
\<close>

section \<open>State\<close>

record MemoryQueue =
  mq_ch :: "SubmissionJob chan"
  mq_closed :: bool

record mq_world = world +
  w_queue :: MemoryQueue

definition NewMemoryQueue :: "int \<Rightarrow> MemoryQueue" where
  "NewMemoryQueue capacity =
     (let capacity = (if capacity \<le> 0 then 10000 else capacity)
      in \<lparr>mq_ch = make_chan (nat capacity), mq_closed = False\<rparr>)"

text \<open>What holds between critical sections: the flag mirrors the channel, which is within bounds.\<close>

definition mq_ok :: "MemoryQueue \<Rightarrow> bool" where
  "mq_ok m \<longleftrightarrow> chan_ok (mq_ch m) \<and> (mq_closed m \<longleftrightarrow> ch_closed (mq_ch m))"

definition mq_pending :: "MemoryQueue \<Rightarrow> SubmissionJob list" where
  "mq_pending m = ch_buf (mq_ch m)"

section \<open>Critical steps\<close>

text \<open>
  The \<^verbatim>\<open>select\<close> of \<open>Enqueue\<close>.  \<open>ctx\<close> is the error of a context that is done and \<open>first\<close>
  says that the runtime picks the context when both cases are ready; the default case runs only
  when neither is.  A send on a closed channel is ready, and panics.
\<close>

definition enqueue_select ::
  "bool \<Rightarrow> goerror option \<Rightarrow> SubmissionJob \<Rightarrow> MemoryQueue \<Rightarrow> goerror option \<times> MemoryQueue" where
  "enqueue_select first ctx job m =
     (case (chan_send job (mq_ch m), ctx) of
        (WouldBlock, None) \<Rightarrow> (Some ErrBackpressureExceeded, m)
      | (WouldBlock, Some e) \<Rightarrow> (Some e, m)
      | (Sent c, Some e) \<Rightarrow> if first then (Some e, m) else (None, m\<lparr>mq_ch := c\<rparr>)
      | (Sent c, None) \<Rightarrow> (None, m\<lparr>mq_ch := c\<rparr>)
      | (SendPanic, Some e) \<Rightarrow>
          if first then (Some e, m) else (Some (ErrPanic ''send on closed channel''), m)
      | (SendPanic, None) \<Rightarrow> (Some (ErrPanic ''send on closed channel''), m))"

text \<open>
  The \<^verbatim>\<open>select\<close> of \<open>Dequeue\<close>: \<open>pick\<close> is 0 when the runtime picks the context, 1 when the timer
  fired, anything else when it picks the channel.  With an empty open channel only the context
  or the timer can end the wait.
\<close>

definition dequeue_select ::
  "nat \<Rightarrow> goerror option \<Rightarrow> MemoryQueue \<Rightarrow> (goerror + SubmissionJob) \<times> MemoryQueue" where
  "dequeue_select pick ctx m =
     (if pick = 0 \<and> ctx \<noteq> None then (Inl (the ctx), m)
      else if pick = 1 then (Inl ErrQueueEmpty, m)
      else (case chan_recv (mq_ch m) of
              Received job c \<Rightarrow> (Inr job, m\<lparr>mq_ch := c\<rparr>)
            | RecvClosed \<Rightarrow> (Inl ErrQueueClosed, m)
            | RecvBlock \<Rightarrow> (Inl (case ctx of Some e \<Rightarrow> e | None \<Rightarrow> ErrQueueEmpty), m)))"

definition close_step :: "MemoryQueue \<Rightarrow> MemoryQueue" where
  "close_step m =
     (if \<not> mq_closed m
      then (case chan_close (mq_ch m) of
              Some c \<Rightarrow> m\<lparr>mq_closed := True, mq_ch := c\<rparr>
            | None \<Rightarrow> m\<lparr>mq_closed := True\<rparr>)
      else m)"

lemmas mq_defs = mq_ok_def mq_pending_def enqueue_select_def dequeue_select_def close_step_def
  chan_close_def

lemma mq_ok_New [simp]: "mq_ok (NewMemoryQueue n)"
  by (simp add: NewMemoryQueue_def mq_ok_def Let_def, simp add: make_chan_def)

lemma mq_pending_New [simp]: "mq_pending (NewMemoryQueue n) = []"
  by (simp add: NewMemoryQueue_def mq_pending_def make_chan_def)

lemma enqueue_select_ok:
  "mq_ok m \<Longrightarrow> enqueue_select f ctx j m = (r, m') \<Longrightarrow>
    mq_ok m' \<and> mq_pending m' = mq_pending m @ (if r = None then [j] else []) \<and>
    mq_closed m' = mq_closed m \<and> ch_cap (mq_ch m') = ch_cap (mq_ch m)"
  by (auto simp: mq_defs chan_ok_def chan_send_def split: if_splits option.splits)

lemma enqueue_select_panic:
  "mq_ok m \<Longrightarrow> ctx \<noteq> Some (ErrPanic s) \<Longrightarrow> enqueue_select f ctx j m = (Some (ErrPanic s), m') \<Longrightarrow>
    mq_closed m"
  by (auto simp: mq_defs chan_send_def split: if_splits option.splits)

lemma dequeue_select_ok:
  "mq_ok m \<Longrightarrow> dequeue_select p ctx m = (r, m') \<Longrightarrow>
    mq_ok m' \<and> mq_pending m = (case r of Inr j \<Rightarrow> [j] | Inl _ \<Rightarrow> []) @ mq_pending m' \<and>
    mq_closed m' = mq_closed m \<and> ch_cap (mq_ch m') = ch_cap (mq_ch m)"
  by (auto simp: mq_defs chan_ok_def chan_recv_def split: if_splits option.splits list.splits)

lemma close_step_ok:
  "mq_ok m \<Longrightarrow> mq_ok (close_step m) \<and> mq_pending (close_step m) = mq_pending m \<and>
    mq_closed (close_step m) \<and> ch_cap (mq_ch (close_step m)) = ch_cap (mq_ch m)"
  by (auto simp: mq_defs chan_ok_def)

section \<open>Operations\<close>

text \<open>One critical step on the queue of the world.\<close>

definition on_queue :: "(MemoryQueue \<Rightarrow> 'a \<times> MemoryQueue) \<Rightarrow> ('z mq_world_scheme, 'a) state" where
  "on_queue f = State (\<lambda>w. let (r, m) = f (w_queue w) in (r, w\<lparr>w_queue := m\<rparr>))"

lemma run_on_queue [simp]:
  "run_state (on_queue f) w = (fst (f (w_queue w)), w\<lparr>w_queue := snd (f (w_queue w))\<rparr>)"
  by (simp add: on_queue_def split: prod.splits)

definition mq_Enqueue :: "host \<Rightarrow> SubmissionJob \<Rightarrow> ('z mq_world_scheme, goerror option) state" where
  "mq_Enqueue h job = do {
     closed \<leftarrow> on_queue (\<lambda>m. (mq_closed m, m));
     if closed then ret (Some ErrQueueClosed)
     else do {
       job' \<leftarrow> job_Normalize h job;
       ctx \<leftarrow> perform CtxErr (h_ctxErr h);
       pick \<leftarrow> perform SelectCase (h_select h);
       on_queue (enqueue_select (pick = 0) ctx job')
     }
   }"

definition mq_Dequeue :: "host \<Rightarrow> int \<Rightarrow> ('z mq_world_scheme, goerror + SubmissionJob) state" where
  "mq_Dequeue h timeout = do {
     ctx \<leftarrow> perform CtxErr (h_ctxErr h);
     pick \<leftarrow> perform SelectCase (h_select h);
     on_queue (dequeue_select pick ctx)
   }"

definition mq_QueueDepth :: "('z mq_world_scheme, goerror + int) state" where
  "mq_QueueDepth = on_queue (\<lambda>m. (Inr (int (length (ch_buf (mq_ch m)))), m))"

definition mq_Close :: "('z mq_world_scheme, goerror option) state" where
  "mq_Close = on_queue (\<lambda>m. (None, close_step m))"

definition MemoryQueue_ops :: "host \<Rightarrow> 'z mq_world_scheme JobQueue" where
  "MemoryQueue_ops h =
     \<lparr>jq_Enqueue = mq_Enqueue h, jq_Dequeue = mq_Dequeue h, jq_QueueDepth = mq_QueueDepth,
      jq_Close = mq_Close\<rparr>"

lemma mq_Enqueue_run:
  assumes "run_state (mq_Enqueue h j) w = (r, w')"
  obtains (closed) "mq_closed (w_queue w)" "r = Some ErrQueueClosed" "w' = w"
  | (sent) f ctx t ops where "\<not> mq_closed (w_queue w)"
    "enqueue_select f ctx (job_defaults j t) (w_queue w) = (r, w_queue w')"
    "w' = w\<lparr>w_trace := w_trace w @ ops, w_queue := w_queue w'\<rparr>"
proof (cases "mq_closed (w_queue w)")
  case True
  with assms show ?thesis by (intro closed) (auto simp: mq_Enqueue_def)
next
  case False
  obtain t ops where n:
    "run_state (job_Normalize h j) w = (job_defaults j t, w\<lparr>w_trace := w_trace w @ ops\<rparr>)"
    using job_Normalize_run by blast
  from assms False n show ?thesis
    by (intro sent [of _ _ t "ops @ [CtxErr, SelectCase]"]) (auto simp: mq_Enqueue_def)
qed

lemma mq_Dequeue_run:
  assumes "run_state (mq_Dequeue h timeout) w = (r, w')"
  obtains p ctx where "dequeue_select p ctx (w_queue w) = (r, w_queue w')"
    "w' = w\<lparr>w_trace := w_trace w @ [CtxErr, SelectCase], w_queue := w_queue w'\<rparr>"
  using assms that by (auto simp: mq_Dequeue_def)

interpretation mq: job_queue "MemoryQueue_ops h :: 'z mq_world_scheme JobQueue" "\<lambda>_. True"
    "\<lambda>w. mq_pending (w_queue w)" "\<lambda>w. mq_ok (w_queue w)" for h
proof unfold_locales
  fix w w' :: "'z mq_world_scheme" and j
  assume i: "mq_ok (w_queue w)" and r: "run_state (jq_Enqueue (MemoryQueue_ops h) j) w = (None, w')"
  from r have "run_state (mq_Enqueue h j) w = (None, w')" by (simp add: MemoryQueue_ops_def)
  with i show "mq_ok (w_queue w') \<and> (\<exists>t. mq_pending (w_queue w') =
      mq_pending (w_queue w) @ [job_defaults j t])"
    by (elim mq_Enqueue_run) (simp, frule (1) enqueue_select_ok, auto)
next
  fix w w' :: "'z mq_world_scheme" and j e
  assume i: "mq_ok (w_queue w)" and r: "run_state (jq_Enqueue (MemoryQueue_ops h) j) w = (Some e, w')"
  from r have "run_state (mq_Enqueue h j) w = (Some e, w')" by (simp add: MemoryQueue_ops_def)
  with i show "mq_ok (w_queue w') \<and> mq_pending (w_queue w') = mq_pending (w_queue w)"
    by (elim mq_Enqueue_run) (auto dest: enqueue_select_ok)
next
  fix w w' :: "'z mq_world_scheme" and j timeout
  assume i: "mq_ok (w_queue w)" and r: "run_state (jq_Dequeue (MemoryQueue_ops h) timeout) w = (Inr j, w')"
  from r have "run_state (mq_Dequeue h timeout) w = (Inr j, w')" by (simp add: MemoryQueue_ops_def)
  with i show "mq_ok (w_queue w') \<and> mq_pending (w_queue w) = j # mq_pending (w_queue w')"
    by (elim mq_Dequeue_run) (auto dest: dequeue_select_ok)
next
  fix w w' :: "'z mq_world_scheme" and e timeout
  assume i: "mq_ok (w_queue w)" and r: "run_state (jq_Dequeue (MemoryQueue_ops h) timeout) w = (Inl e, w')"
  from r have "run_state (mq_Dequeue h timeout) w = (Inl e, w')" by (simp add: MemoryQueue_ops_def)
  with i show "mq_ok (w_queue w') \<and> mq_pending (w_queue w') = mq_pending (w_queue w)"
    by (elim mq_Dequeue_run) (auto dest: dequeue_select_ok)
qed (auto simp: MemoryQueue_ops_def mq_QueueDepth_def mq_Close_def mq_pending_def
      dest: close_step_ok [unfolded mq_pending_def])

section \<open>Interleavings\<close>

text \<open>
  Any number of goroutines on one queue.  \<open>qs_enq i\<close> is the job of goroutine \<open>i\<close> when it is
  inside \<open>Enqueue\<close> past the check of the flag; \<open>qs_in\<close> and \<open>qs_out\<close> are the jobs sent and received so
  far and \<open>qs_panic\<close> that some send panicked.  The lock makes each step atomic.
\<close>

record qsys =
  qs_m :: MemoryQueue
  qs_enq :: "nat \<Rightarrow> SubmissionJob option"
  qs_in :: "SubmissionJob list"
  qs_out :: "SubmissionJob list"
  qs_panic :: bool

definition qsys_init :: "int \<Rightarrow> qsys" where
  "qsys_init n =
     \<lparr>qs_m = NewMemoryQueue n, qs_enq = (\<lambda>_. None), qs_in = [], qs_out = [], qs_panic = False\<rparr>"

text \<open>The error of a context is one of the two the \<^verbatim>\<open>context\<close> package has.\<close>

definition ctx_error :: "goerror option \<Rightarrow> bool" where
  "ctx_error c \<longleftrightarrow> c \<in> {None, Some ErrCanceled, Some ErrDeadlineExceeded}"

inductive q_step :: "qsys \<Rightarrow> qsys \<Rightarrow> bool" where
  EnqueueCheck: "qs_enq s i = None \<Longrightarrow> \<not> mq_closed (qs_m s) \<Longrightarrow>
    q_step s (s\<lparr>qs_enq := (qs_enq s)(i := Some j)\<rparr>)"
| EnqueueSelect: "qs_enq s i = Some j \<Longrightarrow> ctx_error ctx \<Longrightarrow>
    enqueue_select f ctx (job_defaults j t) (qs_m s) = (r, m) \<Longrightarrow>
    q_step s (s\<lparr>qs_m := m, qs_enq := (qs_enq s)(i := None),
      qs_in := qs_in s @ (if r = None then [job_defaults j t] else []),
      qs_panic := (qs_panic s \<or> r = Some (ErrPanic ''send on closed channel''))\<rparr>)"
| DequeueSelect: "ctx_error ctx \<Longrightarrow> dequeue_select p ctx (qs_m s) = (r, m) \<Longrightarrow>
    q_step s (s\<lparr>qs_m := m, qs_out := qs_out s @ (case r of Inr j \<Rightarrow> [j] | Inl _ \<Rightarrow> [])\<rparr>)"
| CloseQueue: "q_step s (s\<lparr>qs_m := close_step (qs_m s)\<rparr>)"

inductive q_reach :: "int \<Rightarrow> qsys \<Rightarrow> bool" for n where
  q_start: "q_reach n (qsys_init n)"
| q_next: "q_reach n s \<Longrightarrow> q_step s s' \<Longrightarrow> q_reach n s'"

definition qsys_inv :: "int \<Rightarrow> qsys \<Rightarrow> bool" where
  "qsys_inv n s \<longleftrightarrow>
     mq_ok (qs_m s) \<and> ch_cap (mq_ch (qs_m s)) = ch_cap (mq_ch (NewMemoryQueue n)) \<and>
     qs_in s = qs_out s @ mq_pending (qs_m s) \<and> (qs_panic s \<longrightarrow> mq_closed (qs_m s))"

lemma qsys_inv_init: "qsys_inv n (qsys_init n)"
  by (simp add: qsys_inv_def qsys_init_def)

lemma qsys_inv_step: "q_step s s' \<Longrightarrow> qsys_inv n s \<Longrightarrow> qsys_inv n s'"
proof (induction rule: q_step.induct)
  case (EnqueueSelect s i j ctx f t r m)
  then have ok: "mq_ok (qs_m s)" by (simp add: qsys_inv_def)
  have "r = Some (ErrPanic ''send on closed channel'') \<Longrightarrow> mq_closed (qs_m s)"
    using EnqueueSelect.hyps(2,3)
    by (intro enqueue_select_panic [OF ok, of ctx "''send on closed channel''"])
      (auto simp: ctx_error_def)
  with enqueue_select_ok [OF ok EnqueueSelect.hyps(3)] EnqueueSelect.prems show ?case
    by (auto simp: qsys_inv_def)
next
  case (DequeueSelect ctx p s r m)
  then have ok: "mq_ok (qs_m s)" by (simp add: qsys_inv_def)
  from dequeue_select_ok [OF ok DequeueSelect.hyps(2)] DequeueSelect.prems show ?case
    by (auto simp: qsys_inv_def)
next
  case (CloseQueue s)
  then show ?case using close_step_ok [of "qs_m s"] by (auto simp: qsys_inv_def)
qed (simp add: qsys_inv_def)

lemma q_reach_inv: "q_reach n s \<Longrightarrow> qsys_inv n s"
  by (induction rule: q_reach.induct) (auto intro: qsys_inv_init qsys_inv_step)

end
