(* ===== verification/Events.thy ===== *)
theory Events
  imports Models Go_Channel "HOL-Library.Sublist"
begin

text \<open>
  \<^verbatim>\<open>events/events.go\<close>: the statuses, the result of one test case, the event frame and the
  \<^verbatim>\<open>EventBus\<close> interface.  The locale \<open>event_bus\<close> is what a publisher relies on: what one
  subscriber has been sent grows by exactly the published event, as far as its buffer reaches.
\<close>

datatype EventStatus =
    StatusQueued
  | StatusCompiling
  | StatusRunning
  | StatusTestCaseStart
  | StatusTestCasePassed
  | StatusTestCaseFailed
  | StatusCompleted
  | StatusFailed

fun EventStatus_String :: "EventStatus \<Rightarrow> string" where
  "EventStatus_String StatusQueued = ''QUEUED''"
| "EventStatus_String StatusCompiling = ''COMPILING''"
| "EventStatus_String StatusRunning = ''RUNNING''"
| "EventStatus_String StatusTestCaseStart = ''TESTCASE_START''"
| "EventStatus_String StatusTestCasePassed = ''TESTCASE_PASSED''"
| "EventStatus_String StatusTestCaseFailed = ''TESTCASE_FAILED''"
| "EventStatus_String StatusCompleted = ''COMPLETED''"
| "EventStatus_String StatusFailed = ''FAILED''"

text \<open>The test the code repeats: a submission in one of these two states is finished.\<close>

definition terminal :: "EventStatus \<Rightarrow> bool" where
  "terminal s \<longleftrightarrow> s = StatusCompleted \<or> s = StatusFailed"

record TestCaseResult =
  tr_TestCaseID :: string
  tr_Index :: int
  tr_Verdict :: Verdict
  tr_ExitCode :: int
  tr_Stdout :: string
  tr_Stderr :: string
  tr_WallTimeMs :: float64
  tr_CpuTimeMs :: float64
  tr_PeakMemoryMB :: float64
  tr_OOMKilled :: bool

record ExecutionEvent =
  ev_SubmissionID :: string
  ev_Status :: EventStatus
  ev_Timestamp :: gotime
  ev_CurrentTestCase :: int
  ev_TotalTestCases :: int
  ev_Verdict :: Verdict
  ev_TestCaseResult :: "TestCaseResult option"
  ev_Compilation :: "CompilationResult option"
  ev_StdoutChunk :: string
  ev_StderrChunk :: string
  ev_WallTimeMs :: float64
  ev_CpuTimeMs :: float64
  ev_PeakMemoryMB :: float64
  ev_ErrorDetails :: string

text \<open>An event literal that sets only these three fields; every other field is Go's zero value.\<close>

definition event_of :: "string \<Rightarrow> EventStatus \<Rightarrow> gotime \<Rightarrow> ExecutionEvent" where
  "event_of sid st t =
     \<lparr>ev_SubmissionID = sid, ev_Status = st, ev_Timestamp = t, ev_CurrentTestCase = 0,
      ev_TotalTestCases = 0, ev_Verdict = VerdictNone, ev_TestCaseResult = None,
      ev_Compilation = None, ev_StdoutChunk = [], ev_StderrChunk = [], ev_WallTimeMs = Fin 0,
      ev_CpuTimeMs = Fin 0, ev_PeakMemoryMB = Fin 0, ev_ErrorDetails = []\<rparr>"

text \<open>
  The interface.  \<open>eb_Subscribe\<close> hands out a channel, here its address, and \<open>eb_Cancel\<close> is the
  cleanup function that goes with it.
\<close>

record 'w EventBus =
  eb_Publish :: "string \<Rightarrow> ExecutionEvent \<Rightarrow> ('w, goerror option) state"
  eb_Subscribe :: "string \<Rightarrow> ('w, goerror + nat) state"
  eb_Cancel :: "string \<Rightarrow> nat \<Rightarrow> ('w, goerror option) state"
  eb_Close :: "('w, goerror option) state"

text \<open>How \<open>Publish\<close> completes an event: the submission id always, the time when it is missing.\<close>

definition stamp_event :: "string \<Rightarrow> gotime \<Rightarrow> ExecutionEvent \<Rightarrow> ExecutionEvent" where
  "stamp_event sid t ev =
     ev\<lparr>ev_Timestamp := (if IsZero (ev_Timestamp ev) then t else ev_Timestamp ev),
        ev_SubmissionID := sid\<rparr>"

definition stamp :: "host \<Rightarrow> string \<Rightarrow> ExecutionEvent \<Rightarrow> ('z world_scheme, ExecutionEvent) state" where
  "stamp h sid ev = do {
     t \<leftarrow> (if IsZero (ev_Timestamp ev) then io_now h else ret (ev_Timestamp ev));
     ret (stamp_event sid t ev)
   }"

lemma io_only_stamp [io_frame]: "io_only (stamp h sid ev)"
  unfolding stamp_def by (intro io_frame)

lemma stamp_run:
  obtains t ops where
    "run_state (stamp h sid ev) w = (stamp_event sid t ev, w\<lparr>w_trace := w_trace w @ ops\<rparr>)"
    and "ops = (if IsZero (ev_Timestamp ev) then [Now] else [])"
proof
  show "run_state (stamp h sid ev) w =
    (stamp_event sid (if IsZero (ev_Timestamp ev) then h_now h (w_trace w) else ev_Timestamp ev) ev,
     w\<lparr>w_trace := w_trace w @ (if IsZero (ev_Timestamp ev) then [Now] else [])\<rparr>)"
    by (simp add: stamp_def)
qed simp

lemma stamp_event_simps [simp]:
  "ev_SubmissionID (stamp_event sid t ev) = sid"
  "ev_Status (stamp_event sid t ev) = ev_Status ev"
  "ev_Verdict (stamp_event sid t ev) = ev_Verdict ev"
  "ev_CurrentTestCase (stamp_event sid t ev) = ev_CurrentTestCase ev"
  "ev_TestCaseResult (stamp_event sid t ev) = ev_TestCaseResult ev"
  by (simp_all add: stamp_event_def)

text \<open>The events JSON carries without loss: every string is valid UTF-8.\<close>

definition TestCaseResult_utf8 :: "TestCaseResult \<Rightarrow> bool" where
  "TestCaseResult_utf8 r \<longleftrightarrow> list_all utf8_valid [tr_TestCaseID r, tr_Stdout r, tr_Stderr r]"

definition CompilationResult_utf8 :: "CompilationResult \<Rightarrow> bool" where
  "CompilationResult_utf8 r \<longleftrightarrow> list_all utf8_valid [comp_Stdout r, comp_Stderr r]"

definition ev_utf8 :: "ExecutionEvent \<Rightarrow> bool" where
  "ev_utf8 ev \<longleftrightarrow>
     list_all utf8_valid
       [ev_SubmissionID ev, ev_StdoutChunk ev, ev_StderrChunk ev, ev_ErrorDetails ev] \<and>
     pred_option TestCaseResult_utf8 (ev_TestCaseResult ev) \<and>
     pred_option CompilationResult_utf8 (ev_Compilation ev)"

lemma ev_utf8_stamp: "utf8_valid sid \<Longrightarrow> ev_utf8 ev \<Longrightarrow> ev_utf8 (stamp_event sid t ev)"
  by (simp add: ev_utf8_def stamp_event_def)

text \<open>
  The publisher's contract for one submission \<open>sid\<close>: \<open>seen\<close> is what a subscriber has been sent
  and not yet read, \<open>clip\<close> what its buffer keeps of a sequence, and \<open>valid\<close> the events the bus
  can carry.
\<close>

locale event_bus =
  fixes bus :: "'w EventBus"
    and sid :: string
    and valid :: "ExecutionEvent \<Rightarrow> bool"
    and seen :: "'w \<Rightarrow> ExecutionEvent list"
    and clip :: "ExecutionEvent list \<Rightarrow> ExecutionEvent list"
    and bus_inv :: "'w \<Rightarrow> bool"
  assumes publish: "bus_inv w \<Longrightarrow> valid ev \<Longrightarrow> run_state (eb_Publish bus sid ev) w = (r, w') \<Longrightarrow>
      bus_inv w' \<and>
      (\<exists>t. seen w' = clip (seen w @ (if r = None then [stamp_event sid t ev] else [])))"
    and clip_clip: "clip (clip xs @ ys) = clip (xs @ ys)"
    and seen_clip: "bus_inv w \<Longrightarrow> clip (seen w) = seen w"

text \<open>A bus on which no publication fails.\<close>

locale reliable_bus = event_bus +
  assumes publish_None: "bus_inv w \<Longrightarrow> valid ev \<Longrightarrow> run_state (eb_Publish bus sid ev) w = (r, w') \<Longrightarrow> r = None"

text \<open>A publisher's sequence of events.\<close>

fun publish_all :: "'w EventBus \<Rightarrow> string \<Rightarrow> ExecutionEvent list \<Rightarrow> ('w, unit) state" where
  "publish_all bus sid [] = ret ()"
| "publish_all bus sid (ev # evs) = do { _ \<leftarrow> eb_Publish bus sid ev; publish_all bus sid evs }"

definition unstamped :: "ExecutionEvent \<Rightarrow> ExecutionEvent" where
  "unstamped ev = ev\<lparr>ev_Timestamp := 0, ev_SubmissionID := []\<rparr>"

lemma unstamped_stamp [simp]: "unstamped (stamp_event sid t ev) = unstamped ev"
  by (simp add: unstamped_def stamp_event_def)

context event_bus
begin

text \<open>
  Events arrive in the order of publication and nothing else arrives; what fails to be published
  or does not fit is missing.
\<close>

lemma publish_all_subseq:
  assumes "bus_inv w" and "list_all valid evs" and "run_state (publish_all bus sid evs) w = ((), w')"
  shows "bus_inv w' \<and>
    (\<exists>xs. seen w' = clip (seen w @ xs) \<and> subseq (map unstamped xs) (map unstamped evs))"
  using assms
proof (induction evs arbitrary: w)
  case Nil
  then show ?case using seen_clip by (intro conjI exI [of _ "[]"]) auto
next
  case (Cons ev evs)
  obtain r w1 where 1: "run_state (eb_Publish bus sid ev) w = (r, w1)" by force
  then have 2: "run_state (publish_all bus sid evs) w1 = ((), w')" and ev: "valid ev" and evs: "list_all valid evs"
    using Cons.prems(2,3) by simp_all
  obtain t where w1: "bus_inv w1"
      "seen w1 = clip (seen w @ (if r = None then [stamp_event sid t ev] else []))"
    using publish [OF Cons.prems(1) ev 1] by blast
  obtain xs where w': "bus_inv w'" "seen w' = clip (seen w1 @ xs)"
      "subseq (map unstamped xs) (map unstamped evs)"
    using Cons.IH [OF w1(1) evs 2] by blast
  have "seen w' = clip (seen w @ ((if r = None then [stamp_event sid t ev] else []) @ xs))"
    by (simp add: w' w1 clip_clip)
  with w' show ?case
    by (intro conjI exI [of _ "(if r = None then [stamp_event sid t ev] else []) @ xs"]) auto
qed

end

context reliable_bus
begin

lemma publish_stamped:
  assumes "bus_inv w" and "valid ev" and "run_state (eb_Publish bus sid ev) w = (r, w')"
  obtains t where "bus_inv w'" and "seen w' = clip (seen w @ [stamp_event sid t ev])"
  using publish [OF assms] publish_None [OF assms] by auto

lemma publish_all_seen:
  assumes "bus_inv w" and "list_all valid evs" and "run_state (publish_all bus sid evs) w = ((), w')"
  shows "bus_inv w' \<and> (\<exists>xs. seen w' = clip (seen w @ xs) \<and> map unstamped xs = map unstamped evs)"
  using assms
proof (induction evs arbitrary: w)
  case Nil
  then show ?case using seen_clip by (intro conjI exI [of _ "[]"]) auto
next
  case (Cons ev evs)
  obtain r w1 where 1: "run_state (eb_Publish bus sid ev) w = (r, w1)" by force
  then have 2: "run_state (publish_all bus sid evs) w1 = ((), w')" and ev: "valid ev" "list_all valid evs"
    using Cons.prems(2,3) by simp_all
  obtain t where w1: "bus_inv w1" "seen w1 = clip (seen w @ [stamp_event sid t ev])"
    using publish_stamped [OF Cons.prems(1) ev(1) 1] .
  obtain xs where w': "bus_inv w'" "seen w' = clip (seen w1 @ xs)" "map unstamped xs = map unstamped evs"
    using Cons.IH [OF w1(1) ev(2) 2] by blast
  have "seen w' = clip (seen w @ (stamp_event sid t ev # xs))"
    by (simp add: w' w1 clip_clip)
  with w' show ?case by (intro conjI exI [of _ "stamp_event sid t ev # xs"]) simp_all
qed

end

end
