(* ===== verification/Memory_Bus.thy ===== *)
theory Memory_Bus
  imports Memory_Queue Events "HOL-Library.AList"
begin

text \<open>
  \<^verbatim>\<open>events/memory_bus.go\<close>: the in-memory event bus.  Channels live at addresses of a heap because
  the code compares and closes them by identity, and every subscription carries its
  \<^verbatim>\<open>sync.Once\<close>.  The invariant says that registered channels are open and distinct, so that
  \<open>Publish\<close> and \<open>Close\<close> never panic; the cleanup function panics exactly when the bus was closed
  first.
\<close>

section \<open>State\<close>

record MemoryEventBus =
  mb_subscribers :: "(string \<times> nat list) list"
  mb_closed :: bool
  mb_heap :: "nat \<Rightarrow> ExecutionEvent chan"
  mb_next :: nat
  mb_once :: "nat list"

record mb_world = mq_world +
  w_bus :: MemoryEventBus

definition NewMemoryEventBus :: MemoryEventBus where
  "NewMemoryEventBus =
     \<lparr>mb_subscribers = [], mb_closed = False, mb_heap = (\<lambda>_. make_chan 0), mb_next = 0, mb_once = []\<rparr>"

definition subs_of :: "string \<Rightarrow> MemoryEventBus \<Rightarrow> nat list" where
  "subs_of sid m = (case map_of (mb_subscribers m) sid of Some cs \<Rightarrow> cs | None \<Rightarrow> [])"

definition registered :: "MemoryEventBus \<Rightarrow> nat list" where
  "registered m = concat (map snd (mb_subscribers m))"

section \<open>Critical sections\<close>

text \<open>The fan-out loop; \<open>None\<close> is the panic of a send on a closed channel.\<close>

fun deliver ::
  "ExecutionEvent \<Rightarrow> nat list \<Rightarrow> (nat \<Rightarrow> ExecutionEvent chan) \<Rightarrow> (nat \<Rightarrow> ExecutionEvent chan) option" where
  "deliver ev [] hp = Some hp"
| "deliver ev (c # cs) hp =
     (case chan_send ev (hp c) of
        Sent ch \<Rightarrow> deliver ev cs (hp(c := ch))
      | WouldBlock \<Rightarrow> deliver ev cs hp
      | SendPanic \<Rightarrow> None)"

definition publish_step :: "string \<Rightarrow> ExecutionEvent \<Rightarrow> MemoryEventBus \<Rightarrow> goerror option \<times> MemoryEventBus" where
  "publish_step sid ev m =
     (if mb_closed m then (None, m)
      else (case map_of (mb_subscribers m) sid of
              None \<Rightarrow> (None, m)
            | Some subs \<Rightarrow>
                (case deliver ev subs (mb_heap m) of
                   Some hp \<Rightarrow> (None, m\<lparr>mb_heap := hp\<rparr>)
                 | None \<Rightarrow> (Some (ErrPanic ''send on closed channel''), m))))"

definition subscribe_step :: "string \<Rightarrow> MemoryEventBus \<Rightarrow> (goerror + nat) \<times> MemoryEventBus" where
  "subscribe_step sid m =
     (let eventCh = mb_next m
      in (Inr eventCh,
          m\<lparr>mb_heap := (mb_heap m)(eventCh := make_chan 64), mb_next := eventCh + 1,
            mb_subscribers := AList.update sid (subs_of sid m @ [eventCh]) (mb_subscribers m)\<rparr>))"

definition cleanup_step :: "string \<Rightarrow> nat \<Rightarrow> MemoryEventBus \<Rightarrow> goerror option \<times> MemoryEventBus" where
  "cleanup_step sid eventCh m =
     (if eventCh \<in> set (mb_once m) then (None, m)
      else
        let m = m\<lparr>mb_once := eventCh # mb_once m\<rparr>;
            newSubs = filter (\<lambda>ch. ch \<noteq> eventCh) (subs_of sid m);
            m = m\<lparr>mb_subscribers :=
                   (if newSubs = [] then AList.delete sid (mb_subscribers m)
                    else AList.update sid newSubs (mb_subscribers m))\<rparr>
        in (case chan_close (mb_heap m eventCh) of
              Some ch \<Rightarrow> (None, m\<lparr>mb_heap := (mb_heap m)(eventCh := ch)\<rparr>)
            | None \<Rightarrow> (Some (ErrPanic ''close of closed channel''), m)))"

fun close_all :: "nat list \<Rightarrow> (nat \<Rightarrow> ExecutionEvent chan) \<Rightarrow> (nat \<Rightarrow> ExecutionEvent chan) option" where
  "close_all [] hp = Some hp"
| "close_all (c # cs) hp =
     (case chan_close (hp c) of Some ch \<Rightarrow> close_all cs (hp(c := ch)) | None \<Rightarrow> None)"

definition bus_close_step :: "MemoryEventBus \<Rightarrow> goerror option \<times> MemoryEventBus" where
  "bus_close_step m =
     (if mb_closed m then (None, m)
      else (case close_all (registered m) (mb_heap m) of
              Some hp \<Rightarrow> (None, m\<lparr>mb_closed := True, mb_heap := hp, mb_subscribers := []\<rparr>)
            | None \<Rightarrow> (Some (ErrPanic ''close of closed channel''), m\<lparr>mb_closed := True\<rparr>)))"

section \<open>Operations\<close>

definition on_bus :: "(MemoryEventBus \<Rightarrow> 'a \<times> MemoryEventBus) \<Rightarrow> ('z mb_world_scheme, 'a) state" where
  "on_bus f = State (\<lambda>w. let (r, m) = f (w_bus w) in (r, w\<lparr>w_bus := m\<rparr>))"

lemma run_on_bus [simp]:
  "run_state (on_bus f) w = (fst (f (w_bus w)), w\<lparr>w_bus := snd (f (w_bus w))\<rparr>)"
  by (simp add: on_bus_def split: prod.splits)

definition mb_Publish ::
  "host \<Rightarrow> string \<Rightarrow> ExecutionEvent option \<Rightarrow> ('z mb_world_scheme, goerror option) state" where
  "mb_Publish h sid event =
     (case event of
        None \<Rightarrow> ret None
      | Some ev \<Rightarrow> do { ev' \<leftarrow> stamp h sid ev; on_bus (publish_step sid ev') })"

definition mb_Subscribe :: "string \<Rightarrow> ('z mb_world_scheme, goerror + nat) state" where
  "mb_Subscribe sid = on_bus (subscribe_step sid)"

definition mb_cleanup :: "string \<Rightarrow> nat \<Rightarrow> ('z mb_world_scheme, goerror option) state" where
  "mb_cleanup sid eventCh = on_bus (cleanup_step sid eventCh)"

definition mb_Close :: "('z mb_world_scheme, goerror option) state" where
  "mb_Close = on_bus bus_close_step"

definition MemoryEventBus_ops :: "host \<Rightarrow> 'z mb_world_scheme EventBus" where
  "MemoryEventBus_ops h =
     \<lparr>eb_Publish = (\<lambda>sid ev. mb_Publish h sid (Some ev)), eb_Subscribe = mb_Subscribe,
      eb_Cancel = mb_cleanup, eb_Close = mb_Close\<rparr>"

section \<open>Invariant\<close>

definition live_chan :: "MemoryEventBus \<Rightarrow> nat \<Rightarrow> bool" where
  "live_chan m c \<longleftrightarrow>
     c < mb_next m \<and> c \<notin> set (mb_once m) \<and> \<not> ch_closed (mb_heap m c) \<and>
     ch_cap (mb_heap m c) = 64 \<and> chan_ok (mb_heap m c)"

definition mb_ok :: "MemoryEventBus \<Rightarrow> bool" where
  "mb_ok m \<longleftrightarrow>
     distinct (map fst (mb_subscribers m)) \<and>
     (\<forall>sid. distinct (subs_of sid m) \<and> (\<forall>c \<in> set (subs_of sid m). live_chan m c)) \<and>
     (\<forall>sid sid'. sid \<noteq> sid' \<longrightarrow> set (subs_of sid m) \<inter> set (subs_of sid' m) = {}) \<and>
     (\<forall>c \<in> set (mb_once m). c < mb_next m)"

lemma mb_ok_New [simp]: "mb_ok NewMemoryEventBus"
  by (simp add: mb_ok_def NewMemoryEventBus_def subs_of_def)

text \<open>What a non-blocking send leaves in a channel.\<close>

definition offer :: "ExecutionEvent \<Rightarrow> ExecutionEvent chan \<Rightarrow> ExecutionEvent chan" where
  "offer ev c = (if length (ch_buf c) < ch_cap c then c\<lparr>ch_buf := ch_buf c @ [ev]\<rparr> else c)"

lemma offer_simps [simp]:
  "ch_closed (offer ev c) = ch_closed c" "ch_cap (offer ev c) = ch_cap c"
  "chan_ok c \<Longrightarrow> chan_ok (offer ev c)"
  by (auto simp: offer_def chan_ok_def)

lemma offer_buf: "chan_ok c \<Longrightarrow> ch_buf (offer ev c) = take (ch_cap c) (ch_buf c @ [ev])"
  by (auto simp: offer_def chan_ok_def)

lemma deliver_open:
  assumes "distinct cs" and "\<forall>c \<in> set cs. \<not> ch_closed (hp c)"
  shows "deliver ev cs hp = Some (\<lambda>c. if c \<in> set cs then offer ev (hp c) else hp c)"
  using assms
proof (induction cs arbitrary: hp)
  case (Cons c cs)
  have "chan_send ev (hp c) = (if length (ch_buf (hp c)) < ch_cap (hp c) then Sent (offer ev (hp c)) else WouldBlock)"
    using Cons.prems by (simp add: chan_send_def offer_def)
  moreover have "\<forall>d \<in> set cs. \<not> ch_closed ((hp(c := offer ev (hp c))) d)"
    using Cons.prems by auto
  ultimately show ?case
    using Cons by (auto simp: fun_eq_iff offer_def)
qed simp

lemma close_all_open:
  assumes "distinct cs" and "\<forall>c \<in> set cs. \<not> ch_closed (hp c)"
  shows "close_all cs hp = Some (\<lambda>c. if c \<in> set cs then (hp c)\<lparr>ch_closed := True\<rparr> else hp c)"
  using assms
proof (induction cs arbitrary: hp)
  case (Cons c cs)
  define hp' where "hp' = hp(c := (hp c)\<lparr>ch_closed := True\<rparr>)"
  have "close_all (c # cs) hp = close_all cs hp'"
    using Cons.prems by (simp add: chan_close_def hp'_def)
  also have "\<dots> = Some (\<lambda>d. if d \<in> set cs then (hp' d)\<lparr>ch_closed := True\<rparr> else hp' d)"
    using Cons.prems by (intro Cons.IH) (auto simp: hp'_def)
  finally show ?case by (auto simp: fun_eq_iff hp'_def)
qed simp

lemma distinct_buckets:
  assumes "distinct (map fst al)" and "\<And>k. distinct (case map_of al k of Some cs \<Rightarrow> cs | None \<Rightarrow> [])"
    and "\<And>k k' cs cs'. k \<noteq> k' \<Longrightarrow> map_of al k = Some cs \<Longrightarrow> map_of al k' = Some cs' \<Longrightarrow>
      set cs \<inter> set cs' = {}"
  shows "distinct (concat (map snd al))"
  using assms
proof (induction al)
  case (Cons a al)
  obtain k cs where a: "a = (k, cs)" by (cases a)
  have k: "map_of al k = None" using Cons.prems(1) by (simp add: a map_of_eq_None_iff image_iff)
  have other: "map_of al k' = Some cs' \<Longrightarrow> map_of (a # al) k' = Some cs'" for k' cs'
    using k by (auto simp: a)
  have "distinct (concat (map snd al))"
  proof (rule Cons.IH)
    show "distinct (map fst al)" using Cons.prems(1) by simp
  next
    fix k' show "distinct (case map_of al k' of Some cs \<Rightarrow> cs | None \<Rightarrow> [])"
      using Cons.prems(2) [of k'] k by (auto simp: a split: if_splits option.splits)
  next
    fix k1 k2 c1 c2 assume "k1 \<noteq> k2" "map_of al k1 = Some c1" "map_of al k2 = Some c2"
    then show "set c1 \<inter> set c2 = {}" using Cons.prems(3) other by blast
  qed
  moreover have "distinct cs" using Cons.prems(2) [of k] by (simp add: a)
  moreover have "set cs \<inter> set cs' = {}" if "(k', cs') \<in> set al" for k' cs'
  proof -
    have "map_of al k' = Some cs'" using that Cons.prems(1) by simp
    moreover from this k have "k \<noteq> k'" by auto
    ultimately show ?thesis using Cons.prems(3) [of k k' cs cs'] other by (simp add: a)
  qed
  ultimately show ?case by (fastforce simp: a)
qed simp

lemma registered_iff:
  assumes "mb_ok m"
  shows "distinct (registered m)" and "c \<in> set (registered m) \<longleftrightarrow> (\<exists>sid. c \<in> set (subs_of sid m))"
proof -
  show "distinct (registered m)"
    unfolding registered_def
  proof (rule distinct_buckets)
    fix k k' cs cs' assume "k \<noteq> k'" "map_of (mb_subscribers m) k = Some cs" "map_of (mb_subscribers m) k' = Some cs'"
    moreover from \<open>k \<noteq> k'\<close> assms have "set (subs_of k m) \<inter> set (subs_of k' m) = {}"
      by (simp add: mb_ok_def)
    ultimately show "set cs \<inter> set cs' = {}" by (simp add: subs_of_def)
  qed (use assms in \<open>simp_all add: mb_ok_def subs_of_def [symmetric]\<close>)
  have d: "distinct (map fst (mb_subscribers m))" using assms by (simp add: mb_ok_def)
  show "c \<in> set (registered m) \<longleftrightarrow> (\<exists>sid. c \<in> set (subs_of sid m))"
    by (auto simp: registered_def subs_of_def map_of_eq_Some_iff [OF d] split: option.splits)
      (metis map_of_is_SomeI [OF d] option.simps(5), metis map_of_SomeD snd_conv)
qed

lemma subs_of_update [simp]:
  "subs_of sid (m\<lparr>mb_subscribers := AList.update k cs (mb_subscribers m)\<rparr>) =
     (if sid = k then cs else subs_of sid m)"
  by (simp add: subs_of_def update_conv')

lemma subs_of_delete [simp]:
  "subs_of sid (m\<lparr>mb_subscribers := AList.delete k (mb_subscribers m)\<rparr>) =
     (if sid = k then [] else subs_of sid m)"
  by (simp add: subs_of_def delete_conv')

lemma subs_of_frame [simp]:
  "subs_of sid (m\<lparr>mb_heap := hp\<rparr>) = subs_of sid m"
  "subs_of sid (m\<lparr>mb_once := xs\<rparr>) = subs_of sid m"
  "subs_of sid (m\<lparr>mb_next := n\<rparr>) = subs_of sid m"
  "subs_of sid (m\<lparr>mb_closed := b\<rparr>) = subs_of sid m"
  "subs_of sid (m\<lparr>mb_subscribers := []\<rparr>) = []"
  by (simp_all add: subs_of_def)

lemma publish_step_ok:
  assumes "mb_ok m"
  shows "publish_step sid ev m =
    (None, if mb_closed m then m
           else m\<lparr>mb_heap := \<lambda>c. if c \<in> set (subs_of sid m) then offer ev (mb_heap m c) else mb_heap m c\<rparr>)"
proof -
  have "deliver ev (subs_of sid m) (mb_heap m) =
      Some (\<lambda>c. if c \<in> set (subs_of sid m) then offer ev (mb_heap m c) else mb_heap m c)"
    using assms by (intro deliver_open) (auto simp: mb_ok_def live_chan_def)
  then show ?thesis
    by (auto simp: publish_step_def subs_of_def split: option.splits)
qed

lemma mb_ok_publish: "mb_ok m \<Longrightarrow> mb_ok (snd (publish_step sid ev m))"
  by (simp add: publish_step_ok) (auto simp: mb_ok_def live_chan_def)

lemma mb_okI:
  assumes "distinct (map fst (mb_subscribers m))" and "\<And>k. distinct (subs_of k m)"
    and "\<And>k c. c \<in> set (subs_of k m) \<Longrightarrow> live_chan m c"
    and "\<And>k k' c. c \<in> set (subs_of k m) \<Longrightarrow> c \<in> set (subs_of k' m) \<Longrightarrow> k = k'"
    and "\<And>c. c \<in> set (mb_once m) \<Longrightarrow> c < mb_next m"
  shows "mb_ok m"
  using assms unfolding mb_ok_def by blast

lemma mb_okD:
  assumes "mb_ok m"
  shows "distinct (map fst (mb_subscribers m))" and "distinct (subs_of k m)"
    and "c \<in> set (subs_of k m) \<Longrightarrow> live_chan m c"
    and "c \<in> set (subs_of k m) \<Longrightarrow> c \<in> set (subs_of k' m) \<Longrightarrow> k = k'"
    and "c \<in> set (mb_once m) \<Longrightarrow> c < mb_next m"
  using assms unfolding mb_ok_def by blast+

lemma subs_of_subscribe [simp]:
  "subs_of k (snd (subscribe_step sid m)) =
     (if k = sid then subs_of sid m @ [mb_next m] else subs_of k m)"
  by (simp add: subscribe_step_def Let_def subs_of_def update_conv')

lemma mb_ok_subscribe:
  assumes ok: "mb_ok m"
  shows "mb_ok (snd (subscribe_step sid m))"
proof -
  let ?m = "snd (subscribe_step sid m)"
  have fresh: "mb_next m \<notin> set (subs_of k m)" for k
    using mb_okD(3) [OF ok] by (auto simp: live_chan_def)
  have live: "live_chan ?m c" if "live_chan m c \<or> c = mb_next m" for c
    using that mb_okD(5) [OF ok, of "mb_next m"]
    by (auto simp: live_chan_def subscribe_step_def Let_def chan_ok_def make_chan_def)
  show ?thesis
  proof (rule mb_okI)
    show "distinct (map fst (mb_subscribers ?m))"
      using mb_okD(1) [OF ok] by (simp add: subscribe_step_def Let_def distinct_update)
    show "distinct (subs_of k ?m)" for k using mb_okD(2) [OF ok] fresh by simp
    show "live_chan ?m c" if "c \<in> set (subs_of k ?m)" for k c
      using that mb_okD(3) [OF ok] live by (auto split: if_splits)
    show "k = k'" if "c \<in> set (subs_of k ?m)" "c \<in> set (subs_of k' ?m)" for k k' c
      using that mb_okD(4) [OF ok] fresh by (auto split: if_splits)
    show "c < mb_next ?m" if "c \<in> set (mb_once ?m)" for c
      using that mb_okD(5) [OF ok, of c] by (simp add: subscribe_step_def Let_def)
  qed
qed

text \<open>A subscription of \<open>sid\<close> that is still registered nowhere else.\<close>

definition owns :: "string \<Rightarrow> nat \<Rightarrow> MemoryEventBus \<Rightarrow> bool" where
  "owns sid c m \<longleftrightarrow> c < mb_next m \<and> (\<forall>k. k \<noteq> sid \<longrightarrow> c \<notin> set (subs_of k m))"

lemma cleanup_step_cases:
  assumes "c \<notin> set (mb_once m)"
  shows "subs_of k (snd (cleanup_step sid c m)) =
      (if k = sid then filter (\<lambda>d. d \<noteq> c) (subs_of sid m) else subs_of k m)"
    and "mb_once (snd (cleanup_step sid c m)) = c # mb_once m"
    and "mb_next (snd (cleanup_step sid c m)) = mb_next m"
    and "d \<noteq> c \<Longrightarrow> mb_heap (snd (cleanup_step sid c m)) d = mb_heap m d"
    and "mb_closed (snd (cleanup_step sid c m)) = mb_closed m"
    and "fst (cleanup_step sid c m) =
      (if ch_closed (mb_heap m c) then Some (ErrPanic ''close of closed channel'') else None)"
  using assms
  by (simp_all add: cleanup_step_def Let_def chan_close_def subs_of_def update_conv' delete_conv')

lemma mb_ok_cleanup:
  assumes ok: "mb_ok m" and "owns sid c m"
  shows "mb_ok (snd (cleanup_step sid c m))"
proof (cases "c \<in> set (mb_once m)")
  case True
  with ok show ?thesis by (simp add: cleanup_step_def)
next
  case False
  let ?m = "snd (cleanup_step sid c m)"
  note step = cleanup_step_cases [OF False, where sid = sid]
  have other: "d \<noteq> c" if "d \<in> set (subs_of k ?m)" for d k
    using that assms(2) by (auto simp: step owns_def split: if_splits)
  have sub: "d \<in> set (subs_of k m)" if "d \<in> set (subs_of k ?m)" for d k
    using that by (auto simp: step split: if_splits)
  show ?thesis
  proof (rule mb_okI)
    show "distinct (map fst (mb_subscribers ?m))"
      using mb_okD(1) [OF ok] False
      by (auto simp: cleanup_step_def Let_def chan_close_def distinct_update distinct_delete)
    show "distinct (subs_of k ?m)" for k using mb_okD(2) [OF ok] by (simp add: step)
    show "live_chan ?m d" if "d \<in> set (subs_of k ?m)" for k d
      using mb_okD(3) [OF ok sub [OF that]] other [OF that] by (simp add: live_chan_def step)
    show "k = k'" if "d \<in> set (subs_of k ?m)" "d \<in> set (subs_of k' ?m)" for k k' d
      using mb_okD(4) [OF ok] that sub by blast
    show "d < mb_next ?m" if "d \<in> set (mb_once ?m)" for d
      using that mb_okD(5) [OF ok, of d] assms(2) by (auto simp: step owns_def)
  qed
qed

lemma bus_close_step_ok:
  assumes "mb_ok m"
  shows "fst (bus_close_step m) = None" and "mb_ok (snd (bus_close_step m))"
    and "mb_closed (snd (bus_close_step m))"
proof -
  have "close_all (registered m) (mb_heap m) \<noteq> None"
    using registered_iff [OF assms] assms
    by (subst close_all_open) (auto simp: mb_ok_def live_chan_def)
  then show "fst (bus_close_step m) = None" "mb_ok (snd (bus_close_step m))"
    "mb_closed (snd (bus_close_step m))"
    using assms by (auto simp: bus_close_step_def mb_ok_def)
qed

lemma bus_close_step_closes:
  assumes "mb_ok m" and "\<not> mb_closed m"
  shows "c \<in> set (registered m) \<Longrightarrow> ch_closed (mb_heap (snd (bus_close_step m)) c)"
    and "mb_once (snd (bus_close_step m)) = mb_once m"
proof -
  have "close_all (registered m) (mb_heap m) =
      Some (\<lambda>c. if c \<in> set (registered m) then (mb_heap m c)\<lparr>ch_closed := True\<rparr> else mb_heap m c)"
    using registered_iff [OF assms(1)] mb_okD(3) [OF assms(1)]
    by (intro close_all_open) (auto simp: live_chan_def)
  then show "c \<in> set (registered m) \<Longrightarrow> ch_closed (mb_heap (snd (bus_close_step m)) c)"
    and "mb_once (snd (bus_close_step m)) = mb_once m"
    using assms(2) by (simp_all add: bus_close_step_def)
qed

section \<open>The publisher's contract\<close>

definition mb_subscribed :: "string \<Rightarrow> nat \<Rightarrow> MemoryEventBus \<Rightarrow> bool" where
  "mb_subscribed sid c m \<longleftrightarrow> mb_ok m \<and> \<not> mb_closed m \<and> c \<in> set (subs_of sid m)"

definition mb_seen :: "nat \<Rightarrow> 'z mb_world_scheme \<Rightarrow> ExecutionEvent list" where
  "mb_seen c w = ch_buf (mb_heap (w_bus w) c)"

lemma mb_subscribedD:
  assumes "mb_subscribed sid c m"
  shows "mb_ok m" "live_chan m c" "\<not> mb_closed m"
  using assms mb_okD(3) [of m c sid] by (auto simp: mb_subscribed_def)

lemma publish_step_subscribed:
  assumes "mb_subscribed sid c m"
  shows "mb_subscribed sid c (snd (publish_step sid ev m))"
    and "ch_buf (mb_heap (snd (publish_step sid ev m)) c) = take 64 (ch_buf (mb_heap m c) @ [ev])"
proof -
  note D = mb_subscribedD [OF assms]
  show "mb_subscribed sid c (snd (publish_step sid ev m))"
    using assms D mb_ok_publish [OF D(1)]
    by (auto simp: mb_subscribed_def publish_step_ok [OF D(1)])
  show "ch_buf (mb_heap (snd (publish_step sid ev m)) c) = take 64 (ch_buf (mb_heap m c) @ [ev])"
    using assms D offer_buf [of "mb_heap m c" ev]
    by (auto simp: mb_subscribed_def publish_step_ok [OF D(1)] live_chan_def)
qed

lemma mb_Publish_run:
  assumes "run_state (mb_Publish h sid (Some ev)) w = (r, w')"
  obtains t ops where
    "w' = w\<lparr>w_trace := w_trace w @ ops, w_bus := snd (publish_step sid (stamp_event sid t ev) (w_bus w))\<rparr>"
    and "r = fst (publish_step sid (stamp_event sid t ev) (w_bus w))"
proof -
  obtain t ops where
    "run_state (stamp h sid ev) w = (stamp_event sid t ev, w\<lparr>w_trace := w_trace w @ ops\<rparr>)"
    using stamp_run by blast
  with assms show ?thesis by (intro that [of t ops]) (auto simp: mb_Publish_def)
qed

interpretation mb: reliable_bus "MemoryEventBus_ops h :: 'z mb_world_scheme EventBus" sid "\<lambda>_. True"
    "mb_seen c" "take 64" "\<lambda>w. mb_subscribed sid c (w_bus w)" for h sid c
proof unfold_locales
  fix w w' :: "'z mb_world_scheme" and ev r
  assume i: "mb_subscribed sid c (w_bus w)"
    and r: "run_state (eb_Publish (MemoryEventBus_ops h) sid ev) w = (r, w')"
  from r have run: "run_state (mb_Publish h sid (Some ev)) w = (r, w')"
    by (simp add: MemoryEventBus_ops_def)
  show None: "r = None"
    using run publish_step_ok [OF mb_subscribedD(1) [OF i]] by (elim mb_Publish_run) simp
  from run show "mb_subscribed sid c (w_bus w') \<and>
      (\<exists>t. mb_seen c w' = take 64 (mb_seen c w @ (if r = None then [stamp_event sid t ev] else [])))"
    using publish_step_subscribed [OF i] by (elim mb_Publish_run) (auto simp: mb_seen_def None)
next
  fix xs ys :: "ExecutionEvent list"
  show "take 64 (take 64 xs @ ys) = take 64 (xs @ ys)" by (simp add: min_def)
next
  fix w :: "'z mb_world_scheme"
  assume "mb_subscribed sid c (w_bus w)"
  then show "take 64 (mb_seen c w) = mb_seen c w"
    using mb_subscribedD(2) [of sid c "w_bus w"] by (simp add: mb_seen_def live_chan_def chan_ok_def)
qed

end
