(* ===== verification/Store.thy ===== *)
theory Store
  imports Memory_Bus
begin

text \<open>
  Package \<^verbatim>\<open>store\<close>: the persistent state of a submission, the \<^verbatim>\<open>StateStore\<close> interface with its
  contract \<open>state_store\<close>, the in-memory store and the Redis store with its expiry.
\<close>

section \<open>Interface\<close>

record SubmissionState =
  ss_SubmissionID :: string
  ss_Status :: EventStatus
  ss_Verdict :: Verdict
  ss_Language :: string
  ss_TotalTestCases :: int
  ss_PassedTestCases :: int
  ss_Results :: "TestCaseResult list"
  ss_Compilation :: "CompilationResult option"
  ss_PeakMemoryMB :: float64
  ss_TotalCpuTimeMs :: float64
  ss_TotalWallTimeMs :: float64
  ss_ErrorDetails :: string
  ss_CreatedAt :: gotime
  ss_UpdatedAt :: gotime
  ss_CompletedAt :: "gotime option"

text \<open>A literal that sets only the identity and status; every other field is Go's zero value.\<close>

definition state_of :: "string \<Rightarrow> EventStatus \<Rightarrow> Verdict \<Rightarrow> string \<Rightarrow> int \<Rightarrow> SubmissionState" where
  "state_of sid st v lang n =
     \<lparr>ss_SubmissionID = sid, ss_Status = st, ss_Verdict = v, ss_Language = lang,
      ss_TotalTestCases = n, ss_PassedTestCases = 0, ss_Results = [], ss_Compilation = None,
      ss_PeakMemoryMB = Fin 0, ss_TotalCpuTimeMs = Fin 0, ss_TotalWallTimeMs = Fin 0,
      ss_ErrorDetails = [], ss_CreatedAt = 0, ss_UpdatedAt = 0, ss_CompletedAt = None\<rparr>"

record 'w StateStore =
  st_SaveState :: "SubmissionState \<Rightarrow> ('w, goerror option) state"
  st_GetState :: "string \<Rightarrow> ('w, goerror + SubmissionState) state"
  st_Close :: "('w, goerror option) state"

text \<open>
  The contract: \<open>lookup\<close> is the abstract map.  A save that succeeds stores the state with a fresh
  update time, one that fails stores nothing, and a state that is read is the stored one; a stored
  state may be gone, as the Redis store lets it expire.
\<close>

locale state_store =
  fixes st :: "'w StateStore"
    and valid :: "SubmissionState \<Rightarrow> bool"
    and lookup :: "'w \<Rightarrow> string \<Rightarrow> SubmissionState option"
    and st_inv :: "'w \<Rightarrow> bool"
  assumes save_ok: "st_inv w \<Longrightarrow> valid s \<Longrightarrow> run_state (st_SaveState st s) w = (None, w') \<Longrightarrow>
      st_inv w' \<and> (\<exists>t. lookup w' = (lookup w)(ss_SubmissionID s \<mapsto> s\<lparr>ss_UpdatedAt := t\<rparr>))"
    and save_err: "st_inv w \<Longrightarrow> valid s \<Longrightarrow> run_state (st_SaveState st s) w = (Some e, w') \<Longrightarrow>
      st_inv w' \<and> lookup w' = lookup w"
    and get_ok: "st_inv w \<Longrightarrow> run_state (st_GetState st sid) w = (r, w') \<Longrightarrow>
      st_inv w' \<and> lookup w' = lookup w \<and> (\<forall>s. r = Inr s \<longrightarrow> lookup w sid = Some s)"

text \<open>A store that keeps everything and never fails.\<close>

locale durable_store = state_store +
  assumes save_succeeds: "st_inv w \<Longrightarrow> valid s \<Longrightarrow> run_state (st_SaveState st s) w = (e, w') \<Longrightarrow> e = None"
    and get_complete: "st_inv w \<Longrightarrow> run_state (st_GetState st sid) w = (r, w') \<Longrightarrow>
      r = (case lookup w sid of Some s \<Rightarrow> Inr s | None \<Rightarrow> Inl ErrNotFound)"

fun save_all :: "'w StateStore \<Rightarrow> SubmissionState list \<Rightarrow> ('w, unit) state" where
  "save_all st [] = ret ()"
| "save_all st (s # ss) = do { _ \<leftarrow> st_SaveState st s; save_all st ss }"

text \<open>The last state of a submission in a sequence of saves.\<close>

definition last_of :: "string \<Rightarrow> SubmissionState list \<Rightarrow> SubmissionState option" where
  "last_of sid ss =
     (case filter (\<lambda>s. ss_SubmissionID s = sid) ss of [] \<Rightarrow> None | x # xs \<Rightarrow> Some (last (x # xs)))"

lemma last_of_simps [simp]:
  "last_of sid [] = None"
  "last_of sid (s # ss) =
     (case last_of sid ss of
        Some u \<Rightarrow> Some u
      | None \<Rightarrow> if ss_SubmissionID s = sid then Some s else None)"
  by (auto simp: last_of_def split: list.splits)

context durable_store
begin

text \<open>Reading after any sequence of saves gives the last state saved under that id.\<close>

lemma read_after_saves:
  assumes "st_inv w" and "list_all valid ss" and "run_state (save_all st ss) w = ((), w1)"
    and "run_state (st_GetState st sid) w1 = (r, w2)"
  shows "case last_of sid ss of
      Some s \<Rightarrow> \<exists>t. r = Inr (s\<lparr>ss_UpdatedAt := t\<rparr>)
    | None \<Rightarrow> r = (case lookup w sid of Some s \<Rightarrow> Inr s | None \<Rightarrow> Inl ErrNotFound)"
  using assms
proof (induction ss arbitrary: w)
  case Nil
  then show ?case using get_complete by simp
next
  case (Cons s ss)
  obtain e w0 where 0: "run_state (st_SaveState st s) w = (e, w0)" by force
  then have rest: "run_state (save_all st ss) w0 = ((), w1)" and s: "valid s" "list_all valid ss"
    using Cons.prems(2,3) by simp_all
  have "e = None" using save_succeeds [OF Cons.prems(1) s(1) 0] .
  then obtain t where "st_inv w0" and l: "lookup w0 = (lookup w)(ss_SubmissionID s \<mapsto> s\<lparr>ss_UpdatedAt := t\<rparr>)"
    using save_ok [OF Cons.prems(1) s(1)] 0 by blast
  then have IH: "case last_of sid ss of
      Some s \<Rightarrow> \<exists>t. r = Inr (s\<lparr>ss_UpdatedAt := t\<rparr>)
    | None \<Rightarrow> r = (case lookup w0 sid of Some s \<Rightarrow> Inr s | None \<Rightarrow> Inl ErrNotFound)"
    using Cons.IH [OF _ s(2) rest Cons.prems(4)] by blast
  show ?case
  proof (cases "last_of sid ss")
    case None
    with IH show ?thesis by (simp add: l) blast
  next
    case (Some u)
    with IH show ?thesis by simp
  qed
qed

end

section \<open>In memory\<close>

record MemoryStore =
  ms_states :: "string \<rightharpoonup> SubmissionState"

record mem_world = mb_world +
  w_store :: MemoryStore

definition NewMemoryStore :: MemoryStore where
  "NewMemoryStore = \<lparr>ms_states = Map.empty\<rparr>"

definition on_store :: "(MemoryStore \<Rightarrow> 'a \<times> MemoryStore) \<Rightarrow> ('z mem_world_scheme, 'a) state" where
  "on_store f = State (\<lambda>w. let (r, m) = f (w_store w) in (r, w\<lparr>w_store := m\<rparr>))"

lemma run_on_store [simp]:
  "run_state (on_store f) w = (fst (f (w_store w)), w\<lparr>w_store := snd (f (w_store w))\<rparr>)"
  by (simp add: on_store_def split: prod.splits)

text \<open>The copies the code makes are the identity on values; the lock makes each body atomic.\<close>

definition ms_SaveState :: "host \<Rightarrow> SubmissionState option \<Rightarrow> ('z mem_world_scheme, goerror option) state" where
  "ms_SaveState h s =
     (case s of
        None \<Rightarrow> ret None
      | Some st \<Rightarrow> do {
          t \<leftarrow> io_now h;
          on_store (\<lambda>m. (None, m\<lparr>ms_states := (ms_states m)(ss_SubmissionID st \<mapsto> st\<lparr>ss_UpdatedAt := t\<rparr>)\<rparr>))
        })"

definition ms_GetState :: "string \<Rightarrow> ('z mem_world_scheme, goerror + SubmissionState) state" where
  "ms_GetState sid =
     on_store (\<lambda>m. (case ms_states m sid of None \<Rightarrow> Inl ErrNotFound | Some s \<Rightarrow> Inr s, m))"

definition ms_Close :: "('z mem_world_scheme, goerror option) state" where
  "ms_Close = on_store (\<lambda>m. (None, m\<lparr>ms_states := Map.empty\<rparr>))"

definition MemoryStore_ops :: "host \<Rightarrow> 'z mem_world_scheme StateStore" where
  "MemoryStore_ops h =
     \<lparr>st_SaveState = (\<lambda>s. ms_SaveState h (Some s)), st_GetState = ms_GetState, st_Close = ms_Close\<rparr>"

definition ms_lookup :: "'z mem_world_scheme \<Rightarrow> string \<Rightarrow> SubmissionState option" where
  "ms_lookup w = ms_states (w_store w)"

lemma ms_SaveState_run:
  "run_state (ms_SaveState h (Some s)) w =
     (None, w\<lparr>w_trace := w_trace w @ [Now],
        w_store := (w_store w)\<lparr>ms_states := (ms_states (w_store w))
          (ss_SubmissionID s \<mapsto> s\<lparr>ss_UpdatedAt := h_now h (w_trace w)\<rparr>)\<rparr>\<rparr>)"
  by (simp add: ms_SaveState_def)

interpretation ms: durable_store "MemoryStore_ops h :: 'z mem_world_scheme StateStore" "\<lambda>_. True"
    ms_lookup "\<lambda>_. True" for h
  by unfold_locales
    (auto simp: MemoryStore_ops_def ms_SaveState_run ms_GetState_def ms_lookup_def split: option.splits)

section \<open>In Redis\<close>

definition RedisStatePrefix :: string where
  "RedisStatePrefix = ''speedcode:state:''"

definition DefaultStateTTL :: int where
  "DefaultStateTTL = 24 * Hour"

record RedisStore =
  rst_json :: "SubmissionState codec"
  rst_ttl :: int

definition NewRedisStore :: "SubmissionState codec \<Rightarrow> int \<Rightarrow> RedisStore" where
  "NewRedisStore client ttl =
     \<lparr>rst_json = client, rst_ttl = (if ttl \<le> 0 then DefaultStateTTL else ttl)\<rparr>"

definition rs_SaveState ::
  "host \<Rightarrow> RedisStore \<Rightarrow> SubmissionState option \<Rightarrow> ('z world_scheme, goerror option) state" where
  "rs_SaveState h r s =
     (case s of
        None \<Rightarrow> ret (Some (ErrNew ''cannot save nil state''))
      | Some st \<Rightarrow> do {
          t \<leftarrow> io_now h;
          (case cd_Marshal (rst_json r) (st\<lparr>ss_UpdatedAt := t\<rparr>) of
             Inl e \<Rightarrow> ret (Some (ErrWrap ''failed to marshal submission state: '' e))
           | Inr data \<Rightarrow> io_err h (RedisSet (RedisStatePrefix @ ss_SubmissionID st) data (rst_ttl r)))
        })"

definition rs_GetState ::
  "host \<Rightarrow> RedisStore \<Rightarrow> string \<Rightarrow> ('z world_scheme, goerror + SubmissionState) state" where
  "rs_GetState h r sid = do {
     let key = RedisStatePrefix @ sid;
     data \<leftarrow> perform (RedisGet key) (\<lambda>tr. h_redisGet h tr key);
     ret (case data of
            Inl e \<Rightarrow> if errors_Is e ErrRedisNil then Inl ErrNotFound
                     else Inl (ErrWrap ''failed to get submission state: '' e)
          | Inr d \<Rightarrow> (case cd_Unmarshal (rst_json r) d of
                       Inl e \<Rightarrow> Inl (ErrWrap ''failed to unmarshal submission state: '' e)
                     | Inr s \<Rightarrow> Inr s))
   }"

definition rs_Close :: "host \<Rightarrow> ('z world_scheme, goerror option) state" where
  "rs_Close h = io_err h RedisClose"

definition RedisStore_ops :: "host \<Rightarrow> RedisStore \<Rightarrow> 'z world_scheme StateStore" where
  "RedisStore_ops h r =
     \<lparr>st_SaveState = (\<lambda>s. rs_SaveState h r (Some s)), st_GetState = rs_GetState h r,
      st_Close = rs_Close h\<rparr>"

text \<open>
  What Redis documents for \<^verbatim>\<open>SET\<close> and \<^verbatim>\<open>GET\<close>: a value that is read is the last one written
  under that key; a key may have expired.
\<close>

fun redis_value :: "host \<Rightarrow> string \<Rightarrow> io_op list \<Rightarrow> io_op list \<Rightarrow> string option \<Rightarrow> string option" where
  "redis_value h key tr [] v = v"
| "redis_value h key tr (op # ops) v =
     redis_value h key (tr @ [op]) ops
       (case op of RedisSet k d ttl \<Rightarrow> if k = key \<and> h_err h tr op = None then Some d else v | _ \<Rightarrow> v)"

definition redis_strings :: "host \<Rightarrow> bool" where
  "redis_strings h \<longleftrightarrow>
     (\<forall>tr key d. h_redisGet h tr key = Inr d \<longrightarrow> redis_value h key [] tr None = Some d)"

lemma redis_value_append:
  "redis_value h key tr (ops @ ops') v =
     redis_value h key (tr @ ops) ops' (redis_value h key tr ops v)"
  by (induction ops arbitrary: tr v) simp_all

definition rs_lookup :: "host \<Rightarrow> RedisStore \<Rightarrow> 'z world_scheme \<Rightarrow> string \<Rightarrow> SubmissionState option" where
  "rs_lookup h r w sid =
     (case redis_value h (RedisStatePrefix @ sid) [] (w_trace w) None of
        None \<Rightarrow> None
      | Some d \<Rightarrow> (case cd_Unmarshal (rst_json r) d of Inr s \<Rightarrow> Some s | Inl _ \<Rightarrow> None))"

definition ss_utf8 :: "SubmissionState \<Rightarrow> bool" where
  "ss_utf8 s \<longleftrightarrow>
     list_all utf8_valid [ss_SubmissionID s, ss_Language s, ss_ErrorDetails s] \<and>
     list_all TestCaseResult_utf8 (ss_Results s) \<and>
     pred_option CompilationResult_utf8 (ss_Compilation s)"

lemma ss_utf8_update [simp]: "ss_utf8 (s\<lparr>ss_UpdatedAt := t\<rparr>) = ss_utf8 s"
  by (simp add: ss_utf8_def)

lemma rs_SaveState_lookup:
  assumes c: "codec_faithful ss_utf8 (rst_json r)" and s: "ss_utf8 s"
    and run: "run_state (rs_SaveState h r (Some s)) w = (e, w')"
  shows "if e = None then \<exists>t. rs_lookup h r w' = (rs_lookup h r w)(ss_SubmissionID s \<mapsto> s\<lparr>ss_UpdatedAt := t\<rparr>)
         else rs_lookup h r w' = rs_lookup h r w"
proof -
  define s' where "s' = s\<lparr>ss_UpdatedAt := h_now h (w_trace w)\<rparr>"
  have s': "ss_utf8 s'" using s by (simp add: s'_def)
  show ?thesis
  proof (cases "cd_Marshal (rst_json r) s'")
    case (Inl err)
    with run show ?thesis
      by (auto simp: rs_SaveState_def s'_def [symmetric] rs_lookup_def redis_value_append fun_eq_iff)
  next
    case (Inr d)
    from codec_faithfulD [OF c s' Inr] Inr run show ?thesis
      by (auto simp: rs_SaveState_def s'_def [symmetric] rs_lookup_def redis_value_append fun_eq_iff
          intro!: exI [of _ "h_now h (w_trace w)"])
  qed
qed

lemma redis_state_store:
  assumes c: "codec_faithful ss_utf8 (rst_json r)" and r: "redis_strings h"
  shows "state_store (RedisStore_ops h r :: 'z world_scheme StateStore) ss_utf8 (rs_lookup h r) (\<lambda>_. True)"
proof unfold_locales
  fix w w' :: "'z world_scheme" and s e
  assume s: "ss_utf8 s"
  { assume "run_state (st_SaveState (RedisStore_ops h r) s) w = (None, w')"
    with rs_SaveState_lookup [OF c s, of h w None w']
    show "True \<and> (\<exists>t. rs_lookup h r w' = (rs_lookup h r w)(ss_SubmissionID s \<mapsto> s\<lparr>ss_UpdatedAt := t\<rparr>))"
      by (simp add: RedisStore_ops_def) }
  { assume "run_state (st_SaveState (RedisStore_ops h r) s) w = (Some e, w')"
    with rs_SaveState_lookup [OF c s, of h w "Some e" w']
    show "True \<and> rs_lookup h r w' = rs_lookup h r w" by (simp add: RedisStore_ops_def) }
next
  fix w w' :: "'z world_scheme" and sid res
  assume "run_state (st_GetState (RedisStore_ops h r) sid) w = (res, w')"
  then show "True \<and> rs_lookup h r w' = rs_lookup h r w \<and> (\<forall>s. res = Inr s \<longrightarrow> rs_lookup h r w sid = Some s)"
    using r by (auto simp: RedisStore_ops_def rs_GetState_def Let_def rs_lookup_def redis_value_append
        redis_strings_def fun_eq_iff split: sum.splits if_splits)
qed

end
