(* ===== verification/Go_Json.thy ===== *)
theory Go_Json
  imports Go_Prelude
begin

text \<open>
  The part of \<^verbatim>\<open>encoding/json\<close> the program prints with: JSON values in field order, the string
  escaping of \<^verbatim>\<open>json.Marshal\<close> (with HTML escaping and U+FFFD for invalid UTF-8), the compact form
  and the indented form of \<^verbatim>\<open>json.MarshalIndent\<close> with two blanks.  Escaped text has no byte below
  \<^verbatim>\<open>0x20\<close>, so a compact JSON value is one line whatever strings it carries.
\<close>

section \<open>Strings\<close>

definition json_hex :: "int \<Rightarrow> char" where
  "json_hex d = ''0123456789abcdef'' ! nat d"

definition json_u00 :: "char \<Rightarrow> string" where
  "json_u00 c = [CHR 0x5C, CHR ''u'', CHR ''0'', CHR ''0'', json_hex (of_char c div 16), json_hex (of_char c mod 16)]"

definition json_ascii :: "char \<Rightarrow> string" where
  "json_ascii c =
     (if c = CHR 0x22 then [CHR 0x5C, CHR 0x22]
      else if c = CHR 0x5C then [CHR 0x5C, CHR 0x5C]
      else if c = CHR 0x08 then [CHR 0x5C, CHR ''b'']
      else if c = CHR 0x0C then [CHR 0x5C, CHR ''f'']
      else if c = CHR 0x0A then [CHR 0x5C, CHR ''n'']
      else if c = CHR 0x0D then [CHR 0x5C, CHR ''r'']
      else if c = CHR 0x09 then [CHR 0x5C, CHR ''t'']
      else if (of_char c :: int) < 32 \<or> c = CHR 0x3C \<or> c = CHR 0x3E \<or> c = CHR 0x26 then json_u00 c
      else [c])"

text \<open>A rune of more than one byte; the two line separators are escaped.\<close>

definition json_rune :: "string \<Rightarrow> string" where
  "json_rune r =
     (if r = [CHR 0xE2, CHR 0x80, CHR 0xA8] then [CHR 0x5C, CHR ''u'', CHR ''2'', CHR ''0'', CHR ''2'', CHR ''8'']
      else if r = [CHR 0xE2, CHR 0x80, CHR 0xA9] then [CHR 0x5C, CHR ''u'', CHR ''2'', CHR ''0'', CHR ''2'', CHR ''9'']
      else r)"

definition json_bad :: string where
  "json_bad = [CHR 0x5C, CHR ''u'', CHR ''f'', CHR ''f'', CHR ''f'', CHR ''d'']"

fun json_escape :: "string \<Rightarrow> string" where
  "json_escape [] = []"
| "json_escape (c # s) =
     (case utf8_lead c of
        None \<Rightarrow> json_bad @ json_escape s
      | Some (n, lo, hi) \<Rightarrow>
          if n = 0 then json_ascii c @ json_escape s
          else if n \<le> length s \<and> utf8_range lo hi (hd s) \<and> list_all utf8_cont (take n s)
          then json_rune (c # take n s) @ json_escape (drop n s)
          else json_bad @ json_escape s)"

definition json_quote :: "string \<Rightarrow> string" where
  "json_quote s = CHR 0x22 # json_escape s @ [CHR 0x22]"

section \<open>Values\<close>

datatype json = JString string | JInt int | JBool bool | JArray "json list" | JObject "(string \<times> json) list"

fun json_compact :: "json \<Rightarrow> string" where
  "json_compact (JString s) = json_quote s"
| "json_compact (JInt i) = FormatInt i"
| "json_compact (JBool b) = (if b then ''true'' else ''false'')"
| "json_compact (JArray vs) = ''['' @ join_with '','' (map json_compact vs) @ '']''"
| "json_compact (JObject fs) =
     ''{'' @ join_with '','' (map (\<lambda>(k, v). json_quote k @ '':'' @ json_compact v) fs) @ ''}''"

definition json_newline :: "nat \<Rightarrow> string" where
  "json_newline d = CHR 0x0A # replicate (2 * d) CHR 0x20"

fun json_indent :: "nat \<Rightarrow> json \<Rightarrow> string" where
  "json_indent d (JString s) = json_quote s"
| "json_indent d (JInt i) = FormatInt i"
| "json_indent d (JBool b) = (if b then ''true'' else ''false'')"
| "json_indent d (JArray vs) =
     (if vs = [] then ''[]''
      else ''['' @ json_newline (d + 1) @
           join_with ('','' @ json_newline (d + 1)) (map (json_indent (d + 1)) vs) @
           json_newline d @ '']'')"
| "json_indent d (JObject fs) =
     (if fs = [] then ''{}''
      else ''{'' @ json_newline (d + 1) @
           join_with ('','' @ json_newline (d + 1))
             (map (\<lambda>(k, v). json_quote k @ '': '' @ json_indent (d + 1) v) fs) @
           json_newline d @ ''}'')"

section \<open>Escaped text has no byte below \<^verbatim>\<open>0x20\<close>\<close>

definition plain_byte :: "char \<Rightarrow> bool" where
  "plain_byte c \<longleftrightarrow> 32 \<le> (of_char c :: int)"

lemma hex_plain: "0 \<le> d \<Longrightarrow> d < 16 \<Longrightarrow> plain_byte (json_hex d)"
proof -
  assume "0 \<le> d" "d < 16"
  then have "nat d < length ''0123456789abcdef''" by simp
  then have "json_hex d \<in> set ''0123456789abcdef''" unfolding json_hex_def by (rule nth_mem)
  then show ?thesis by (auto simp: plain_byte_def)
qed

lemma byte_range: "0 \<le> (of_char c :: int)" "(of_char c :: int) < 256"
  by (simp_all add: of_char_def)

lemma u00_plain: "list_all plain_byte (json_u00 c)"
  using byte_range [of c]
  by (auto simp: json_u00_def plain_byte_def intro!: hex_plain [unfolded plain_byte_def])

lemma ascii_plain: "list_all plain_byte (json_ascii c)"
  using u00_plain [of c] by (auto simp: json_ascii_def plain_byte_def)

lemma cont_plain: "utf8_cont c \<Longrightarrow> plain_byte c"
  by (simp add: utf8_cont_def plain_byte_def)

lemma lead_plain: "utf8_lead c = Some (n, lo, hi) \<Longrightarrow> n \<noteq> 0 \<Longrightarrow> plain_byte c"
  by (auto simp: utf8_lead_def plain_byte_def Let_def split: if_splits)

lemma rune_plain:
  "list_all plain_byte r \<Longrightarrow> list_all plain_byte (json_rune r)"
  by (simp add: json_rune_def plain_byte_def)

lemma list_all_cont: "list_all utf8_cont s \<Longrightarrow> list_all plain_byte s"
  by (auto simp: list_all_iff intro: cont_plain)

lemma escape_plain: "list_all plain_byte (json_escape s)"
proof (induction s rule: json_escape.induct)
  case (2 c s)
  have bad: "list_all plain_byte json_bad" by (simp add: json_bad_def plain_byte_def)
  show ?case
  proof (cases "utf8_lead c")
    case None
    with 2 bad show ?thesis by simp
  next
    case (Some l)
    obtain n lo hi where l: "l = (n, lo, hi)" by (cases l)
    note step = ascii_plain [of c] bad rune_plain list_all_cont
      lead_plain [OF Some [unfolded l]]
    show ?thesis
      using 2 Some l step
      by (auto simp: list_all_append)
  qed
qed simp

lemma join_plain:
  "list_all plain_byte sep \<Longrightarrow> list_all (list_all plain_byte) xs \<Longrightarrow> list_all plain_byte (join_with sep xs)"
  by (induction sep xs rule: join_with.induct) auto

lemma quote_plain [simp]: "list_all plain_byte (json_quote s)"
  using escape_plain [of s] by (simp add: json_quote_def plain_byte_def)

lemma dec_plain: "0 \<le> n \<Longrightarrow> list_all plain_byte (dec n)"
proof (induction n rule: dec.induct)
  case (1 n)
  have digit: "plain_byte (digit_char d)" if "0 \<le> d" "d < 10" for d
  proof -
    have "nat d < length ''0123456789''" using that by simp
    then have "digit_char d \<in> set ''0123456789''" unfolding digit_char_def by (rule nth_mem)
    then show ?thesis by (auto simp: plain_byte_def)
  qed
  show ?case using 1 digit by (subst dec.simps) auto
qed

lemma FormatInt_plain [simp]: "list_all plain_byte (FormatInt i)"
  using dec_plain [of i] dec_plain [of "- i"] by (auto simp: FormatInt_def plain_byte_def)

lemma punct_plain [simp]:
  "plain_byte CHR '',''" "plain_byte CHR '':''" "plain_byte CHR ''[''" "plain_byte CHR '']''"
  "plain_byte CHR ''{''" "plain_byte CHR ''}''"
  by (simp_all add: plain_byte_def)

lemma compact_plain: "list_all plain_byte (json_compact v)"
proof (induction v rule: json_compact.induct)
  case (4 vs)
  have "list_all (list_all plain_byte) (map json_compact vs)" using 4 by (simp add: list_all_iff)
  then show ?case by (simp add: join_plain)
next
  case (5 fs)
  have "list_all (list_all plain_byte) (map (\<lambda>(k, v). json_quote k @ '':'' @ json_compact v) fs)"
    using 5 quote_plain by (auto simp: list_all_iff)
  then show ?case by (simp add: join_plain)
next
  case (3 b)
  show ?case by (simp add: plain_byte_def)
qed simp_all

end
