(* ===== verification/Security.thy ===== *)
theory Security
  imports Go_IO Go_Json
begin

text \<open>
  Packages \<^verbatim>\<open>security\<close> and \<^verbatim>\<open>metrics\<close>: the audit log, the seccomp profile and the Prometheus
  recorders.  An audit record is one line whatever the submission contains.
\<close>

section \<open>Audit log\<close>

datatype SecurityViolationType =
    ViolationSyscallBlocked
  | ViolationNetworkAttempt
  | ViolationMemoryOOM
  | ViolationForkBomb
  | ViolationUnauthorizedFile
  | ViolationTimeoutExceeded

fun Violation_String :: "SecurityViolationType \<Rightarrow> string" where
  "Violation_String ViolationSyscallBlocked = ''SECCOMP_SYSCALL_BLOCKED''"
| "Violation_String ViolationNetworkAttempt = ''NETWORK_SOCKET_DENIED''"
| "Violation_String ViolationMemoryOOM = ''MEMORY_OOM_KILLED''"
| "Violation_String ViolationForkBomb = ''PID_EXHAUSTION_FORK_BOMB''"
| "Violation_String ViolationUnauthorizedFile = ''UNAUTHORIZED_FILE_ACCESS''"
| "Violation_String ViolationTimeoutExceeded = ''WALL_CLOCK_TIMEOUT''"

record AuditEvent =
  ae_Timestamp :: gotime
  ae_SubmissionID :: string
  ae_ViolationType :: SecurityViolationType
  ae_Language :: string
  ae_SandboxBackend :: string
  ae_Details :: string
  ae_ClientIP :: string
  ae_HostName :: string

text \<open>The JSON of an event; \<^verbatim>\<open>client_ip\<close> is omitted when empty.\<close>

definition AuditEvent_json :: "host \<Rightarrow> AuditEvent \<Rightarrow> json" where
  "AuditEvent_json h e =
     JObject
       ([(''timestamp'', JString (h_timeJSON h (ae_Timestamp e))),
         (''submission_id'', JString (ae_SubmissionID e)),
         (''violation_type'', JString (Violation_String (ae_ViolationType e))),
         (''language'', JString (ae_Language e)),
         (''sandbox_backend'', JString (ae_SandboxBackend e)),
         (''details'', JString (ae_Details e))] @
        (if ae_ClientIP e = [] then [] else [(''client_ip'', JString (ae_ClientIP e))]) @
        [(''hostname'', JString (ae_HostName e))])"

definition audit_line :: "host \<Rightarrow> AuditEvent \<Rightarrow> string" where
  "audit_line h e = ''[SECURITY AUDIT] '' @ json_compact (AuditEvent_json h e)"

text \<open>
  \<^verbatim>\<open>json.Marshal\<close> of this record fails only for a time outside of the years 0 to 9999, which the
  clock does not return, so the branch that writes nothing is not taken.
\<close>

definition LogViolation ::
  "host \<Rightarrow> string \<Rightarrow> string \<Rightarrow> string \<Rightarrow> SecurityViolationType \<Rightarrow> string \<Rightarrow> ('z world_scheme, unit) state" where
  "LogViolation h submissionID lang sandbox vType details = do {
     r \<leftarrow> perform Hostname (h_hostname h);
     t \<leftarrow> io_now h;
     io_do (AuditLog (audit_line h
       \<lparr>ae_Timestamp = t, ae_SubmissionID = submissionID, ae_ViolationType = vType, ae_Language = lang,
        ae_SandboxBackend = sandbox, ae_Details = details, ae_ClientIP = [],
        ae_HostName = (case r of Inr n \<Rightarrow> n | Inl _ \<Rightarrow> [])\<rparr>))
   }"

lemma io_only_LogViolation [io_frame]: "io_only (LogViolation h i l s v d)"
  unfolding LogViolation_def by (intro io_frame)

lemma audit_line_plain: "list_all plain_byte (audit_line h e)"
proof -
  have "list_all plain_byte ''[SECURITY AUDIT] ''" by (simp add: plain_byte_def)
  then show ?thesis by (simp add: audit_line_def compact_plain)
qed

section \<open>Metrics\<close>

definition RecordSubmissionMetrics ::
  "string \<Rightarrow> string \<Rightarrow> string \<Rightarrow> float64 \<Rightarrow> float64 \<Rightarrow> float64 \<Rightarrow> ('z world_scheme, unit) state" where
  "RecordSubmissionMetrics language verdict sandbox wallTimeMs cpuTimeMs peakMemoryMB = do {
     io_do (MetricInc ''speedcode_submissions_total'' [language, verdict, sandbox]);
     io_do (MetricObserve ''speedcode_execution_duration_seconds'' [language, verdict] (fdivc wallTimeMs 1000));
     io_do (MetricObserve ''speedcode_cpu_time_seconds'' [language, verdict] (fdivc cpuTimeMs 1000));
     io_do (MetricObserve ''speedcode_peak_memory_bytes'' [language] (fmul (fmul peakMemoryMB (Fin 1024)) (Fin 1024)))
   }"

definition RecordViolation :: "string \<Rightarrow> ('z world_scheme, unit) state" where
  "RecordViolation violationType = io_do (MetricInc ''speedcode_security_violations_total'' [violationType])"

lemma io_only_RecordSubmissionMetrics [io_frame]: "io_only (RecordSubmissionMetrics l v s a b c)"
  unfolding RecordSubmissionMetrics_def by (intro io_frame)

lemma io_only_RecordViolation [io_frame]: "io_only (RecordViolation v)"
  unfolding RecordViolation_def by (intro io_frame)

section \<open>The seccomp profile\<close>

record Arg =
  arg_Index :: int
  arg_Value :: int
  arg_ValueTwo :: int
  arg_Op :: string

record SyscallRule =
  rule_Names :: "string list"
  rule_Action :: string
  rule_Args :: "Arg list"

record SeccompProfile =
  prof_DefaultAction :: string
  prof_Architectures :: "string list"
  prof_Syscalls :: "SyscallRule list"

definition allowed_syscalls :: "string list" where
  "allowed_syscalls =
    [''read'', ''write'', ''open'', ''openat'', ''close'', ''fstat'', ''stat'', ''lstat'',
     ''lseek'', ''mmap'', ''mprotect'', ''munmap'', ''brk'', ''rt_sigaction'',
     ''rt_sigprocmask'', ''rt_sigreturn'', ''ioctl'', ''pread64'', ''pwrite64'', ''readv'',
     ''writev'', ''access'', ''faccessat'', ''faccessat2'', ''pipe'', ''pipe2'', ''select'',
     ''pselect6'', ''poll'', ''ppoll'', ''nanosleep'', ''clock_nanosleep'', ''clock_gettime'',
     ''clock_getres'', ''gettimeofday'', ''getpid'', ''getppid'', ''gettid'', ''getuid'',
     ''getgid'', ''geteuid'', ''getegid'', ''exit'', ''exit_group'', ''futex'', ''sched_yield'',
     ''sched_getaffinity'', ''arch_prctl'', ''set_tid_address'', ''set_robust_list'',
     ''get_robust_list'', ''rseq'', ''prlimit64'', ''getrandom'', ''sysinfo'', ''uname'',
     ''getcwd'', ''readlink'', ''readlinkat'', ''fcntl'', ''dup'', ''dup2'', ''dup3'',
     ''sigaltstack'', ''epoll_create'', ''epoll_create1'', ''epoll_ctl'', ''epoll_wait'',
     ''epoll_pwait'', ''eventfd'', ''eventfd2'', ''clone'', ''clone3'', ''wait4'', ''waitid'',
     ''execve'']"

definition killed_syscalls :: "string list" where
  "killed_syscalls =
    [''ptrace'', ''reboot'', ''kexec_load'', ''kexec_file_load'', ''bpf'', ''setns'',
     ''unshare'', ''mount'', ''umount'', ''umount2'', ''pivot_root'', ''chroot'', ''syslog'',
     ''init_module'', ''finit_module'', ''delete_module'', ''iopl'', ''ioperm'', ''swapon'',
     ''swapoff'']"

definition network_syscalls :: "string list" where
  "network_syscalls =
    [''socket'', ''bind'', ''connect'', ''listen'', ''accept'', ''accept4'', ''sendto'',
     ''recvfrom'', ''sendmsg'', ''recvmsg'', ''shutdown'', ''getsockopt'', ''setsockopt'']"

definition DefaultSeccompProfile :: SeccompProfile where
  "DefaultSeccompProfile =
     \<lparr>prof_DefaultAction = ''SCMP_ACT_ERRNO'',
      prof_Architectures = [''SCMP_ARCH_X86_64'', ''SCMP_ARCH_X86'', ''SCMP_ARCH_AARCH64''],
      prof_Syscalls =
        [\<lparr>rule_Names = allowed_syscalls, rule_Action = ''SCMP_ACT_ALLOW'', rule_Args = []\<rparr>,
         \<lparr>rule_Names = killed_syscalls, rule_Action = ''SCMP_ACT_KILL_PROCESS'', rule_Args = []\<rparr>,
         \<lparr>rule_Names = network_syscalls, rule_Action = ''SCMP_ACT_ERRNO'', rule_Args = []\<rparr>]\<rparr>"

definition Arg_json :: "Arg \<Rightarrow> json" where
  "Arg_json a =
     JObject ([(''index'', JInt (arg_Index a)), (''value'', JInt (arg_Value a))] @
       (if arg_ValueTwo a = 0 then [] else [(''valueTwo'', JInt (arg_ValueTwo a))]) @
       [(''op'', JString (arg_Op a))])"

definition SyscallRule_json :: "SyscallRule \<Rightarrow> json" where
  "SyscallRule_json r =
     JObject ([(''names'', JArray (map JString (rule_Names r))), (''action'', JString (rule_Action r))] @
       (if rule_Args r = [] then [] else [(''args'', JArray (map Arg_json (rule_Args r)))]))"

definition SeccompProfile_json :: "SeccompProfile \<Rightarrow> json" where
  "SeccompProfile_json p =
     JObject [(''defaultAction'', JString (prof_DefaultAction p)),
       (''architectures'', JArray (map JString (prof_Architectures p))),
       (''syscalls'', JArray (map SyscallRule_json (prof_Syscalls p)))]"

definition WriteProfileToFile :: "host \<Rightarrow> string \<Rightarrow> ('z world_scheme, goerror option) state" where
  "WriteProfileToFile h path =
     io_err h (WriteFile path (json_indent 0 (SeccompProfile_json DefaultSeccompProfile)) 420)"

end
