(* ===== verification/Worker.thy ===== *)
theory Worker
  imports Sandbox_Select Store Security
begin

text \<open>
  \<^verbatim>\<open>worker/worker.go\<close>: one submission through all its test cases, with events and state updates.
  The pure parts (the result of a test, the running tally, the events and states) are functions of
  the execution results; \<open>ProcessJob\<close> is written over any event bus and state store.  The locale
  \<open>worker_env\<close> states what it needs of them.
\<close>

section \<open>Pure parts\<close>

definition job_tests :: "SubmissionJob \<Rightarrow> TestCase list" where
  "job_tests job =
     (if job_TestCases job = []
      then [\<lparr>tc_ID = ''tc-default'', tc_Input = [], tc_ExpectedOutput = [], tc_IsHidden = False\<rparr>]
      else job_TestCases job)"

definition exec_request :: "SubmissionJob \<Rightarrow> ExecutionRequest" where
  "exec_request job =
     \<lparr>req_ID = job_SubmissionID job, req_Language = job_Language job, req_Code = job_Code job,
      req_Stdin = [], req_ExpectedOutput = [], req_TimeLimitMs = job_TimeLimitMs job,
      req_MemoryLimitMB = job_MemoryLimitMB job, req_CpuQuota = job_CpuQuota job,
      req_PidsLimit = job_PidsLimit job, req_MaxOutputBytes = job_MaxOutputBytes job,
      req_SandboxType = job_SandboxType job\<rparr>"

definition test_request :: "TestCase \<Rightarrow> ExecutionRequest \<Rightarrow> ExecutionRequest" where
  "test_request tc r = r\<lparr>req_Stdin := tc_Input tc, req_ExpectedOutput := tc_ExpectedOutput tc\<rparr>"

definition hidden_text :: string where
  "hidden_text = ''[Hidden Testcase]''"

definition shown :: "TestCase \<Rightarrow> ExecutionResult \<Rightarrow> string \<Rightarrow> string" where
  "shown tc res s = (if tc_IsHidden tc \<and> er_Verdict res \<noteq> VerdictAccepted then hidden_text else s)"

definition result_item :: "int \<Rightarrow> TestCase \<Rightarrow> ExecutionResult \<Rightarrow> TestCaseResult" where
  "result_item i tc res =
     \<lparr>tr_TestCaseID = tc_ID tc, tr_Index = i, tr_Verdict = er_Verdict res, tr_ExitCode = er_ExitCode res,
      tr_Stdout = shown tc res (er_Stdout res), tr_Stderr = shown tc res (er_Stderr res),
      tr_WallTimeMs = er_WallTimeMs res, tr_CpuTimeMs = er_CpuTimeMs res,
      tr_PeakMemoryMB = er_PeakMemoryMB res, tr_OOMKilled = er_OOMKilled res\<rparr>"

text \<open>The local variables of the loop.\<close>

record tally =
  ta_overallVerdict :: Verdict
  ta_maxPeakMemoryMB :: float64
  ta_totalWallTimeMs :: float64
  ta_totalCpuTimeMs :: float64
  ta_passedTests :: int
  ta_Results :: "TestCaseResult list"

definition tally0 :: tally where
  "tally0 =
     \<lparr>ta_overallVerdict = VerdictAccepted, ta_maxPeakMemoryMB = Fin 0, ta_totalWallTimeMs = Fin 0,
      ta_totalCpuTimeMs = Fin 0, ta_passedTests = 0, ta_Results = []\<rparr>"

definition tally_step :: "int \<Rightarrow> TestCase \<Rightarrow> ExecutionResult \<Rightarrow> tally \<Rightarrow> tally" where
  "tally_step i tc res ta =
     \<lparr>ta_overallVerdict =
        (if er_Verdict res \<noteq> VerdictAccepted \<and> ta_overallVerdict ta = VerdictAccepted
         then er_Verdict res else ta_overallVerdict ta),
      ta_maxPeakMemoryMB =
        (if flt (ta_maxPeakMemoryMB ta) (er_PeakMemoryMB res) then er_PeakMemoryMB res
         else ta_maxPeakMemoryMB ta),
      ta_totalWallTimeMs = fadd (ta_totalWallTimeMs ta) (er_WallTimeMs res),
      ta_totalCpuTimeMs = fadd (ta_totalCpuTimeMs ta) (er_CpuTimeMs res),
      ta_passedTests = ta_passedTests ta + (if er_Verdict res = VerdictAccepted then 1 else 0),
      ta_Results = ta_Results ta @ [result_item i tc res]\<rparr>"

definition compiling_event :: "string \<Rightarrow> gotime \<Rightarrow> ExecutionEvent" where
  "compiling_event sid t = event_of sid StatusCompiling t"

definition running_event :: "string \<Rightarrow> int \<Rightarrow> CompilationResult option \<Rightarrow> gotime \<Rightarrow> ExecutionEvent" where
  "running_event sid n compResult t =
     (event_of sid StatusRunning t)\<lparr>ev_TotalTestCases := n, ev_Compilation := compResult\<rparr>"

definition start_event :: "string \<Rightarrow> int \<Rightarrow> int \<Rightarrow> gotime \<Rightarrow> ExecutionEvent" where
  "start_event sid n i t =
     (event_of sid StatusTestCaseStart t)\<lparr>ev_CurrentTestCase := i, ev_TotalTestCases := n\<rparr>"

definition test_event :: "string \<Rightarrow> int \<Rightarrow> int \<Rightarrow> TestCase \<Rightarrow> ExecutionResult \<Rightarrow> gotime \<Rightarrow> ExecutionEvent" where
  "test_event sid n i tc res t =
     (if er_Verdict res = VerdictAccepted
      then (event_of sid StatusTestCasePassed t)
        \<lparr>ev_CurrentTestCase := i, ev_TotalTestCases := n, ev_TestCaseResult := Some (result_item i tc res),
         ev_WallTimeMs := er_WallTimeMs res, ev_PeakMemoryMB := er_PeakMemoryMB res\<rparr>
      else (event_of sid StatusTestCaseFailed t)
        \<lparr>ev_CurrentTestCase := i, ev_TotalTestCases := n, ev_Verdict := er_Verdict res,
         ev_TestCaseResult := Some (result_item i tc res),
         ev_WallTimeMs := er_WallTimeMs res, ev_PeakMemoryMB := er_PeakMemoryMB res\<rparr>)"

definition running_state :: "SubmissionJob \<Rightarrow> CompilationResult option \<Rightarrow> gotime \<Rightarrow> SubmissionState" where
  "running_state job compResult t =
     (state_of (job_SubmissionID job) StatusRunning VerdictAccepted (job_Language job)
        (int (length (job_tests job))))
     \<lparr>ss_Compilation := compResult, ss_CreatedAt := job_EnqueuedAt job, ss_UpdatedAt := t\<rparr>"

definition completed_state :: "SubmissionState \<Rightarrow> tally \<Rightarrow> gotime \<Rightarrow> SubmissionState" where
  "completed_state s ta now =
     s\<lparr>ss_Results := ta_Results ta, ss_Status := StatusCompleted, ss_Verdict := ta_overallVerdict ta,
       ss_PassedTestCases := ta_passedTests ta, ss_PeakMemoryMB := ta_maxPeakMemoryMB ta,
       ss_TotalWallTimeMs := ta_totalWallTimeMs ta, ss_TotalCpuTimeMs := ta_totalCpuTimeMs ta,
       ss_CompletedAt := Some now\<rparr>"

definition completed_event ::
  "string \<Rightarrow> int \<Rightarrow> CompilationResult option \<Rightarrow> tally \<Rightarrow> gotime \<Rightarrow> ExecutionEvent" where
  "completed_event sid n compResult ta now =
     (event_of sid StatusCompleted now)
       \<lparr>ev_Verdict := ta_overallVerdict ta, ev_CurrentTestCase := n, ev_TotalTestCases := n,
        ev_WallTimeMs := ta_totalWallTimeMs ta, ev_CpuTimeMs := ta_totalCpuTimeMs ta,
        ev_PeakMemoryMB := ta_maxPeakMemoryMB ta, ev_Compilation := compResult\<rparr>"

definition failed_state ::
  "string \<Rightarrow> string \<Rightarrow> int \<Rightarrow> Verdict \<Rightarrow> string \<Rightarrow> CompilationResult option \<Rightarrow> gotime \<Rightarrow> SubmissionState" where
  "failed_state sid lang n verdict errDetails compResult now =
     (state_of sid StatusFailed verdict lang n)
       \<lparr>ss_Compilation := compResult, ss_ErrorDetails := errDetails, ss_CreatedAt := now,
        ss_UpdatedAt := now, ss_CompletedAt := Some now\<rparr>"

definition failed_event ::
  "string \<Rightarrow> Verdict \<Rightarrow> string \<Rightarrow> CompilationResult option \<Rightarrow> gotime \<Rightarrow> ExecutionEvent" where
  "failed_event sid verdict errDetails compResult now =
     (event_of sid StatusFailed now)
       \<lparr>ev_Verdict := verdict, ev_Compilation := compResult, ev_ErrorDetails := errDetails\<rparr>"

section \<open>Operations\<close>

definition failSubmission ::
  "('z world_scheme) EventBus \<Rightarrow> ('z world_scheme) StateStore \<Rightarrow> host \<Rightarrow> string \<Rightarrow> string \<Rightarrow> int \<Rightarrow>
   Verdict \<Rightarrow> string \<Rightarrow> CompilationResult option \<Rightarrow> ('z world_scheme, goerror option) state" where
  "failSubmission bus st h sid lang n verdict errDetails compResult = do {
     now \<leftarrow> io_now h;
     _ \<leftarrow> st_SaveState st (failed_state sid lang n verdict errDetails compResult now);
     RecordSubmissionMetrics lang (Verdict_String verdict) ''unknown'' (Fin 0) (Fin 0) (Fin 0);
     (if verdict = VerdictCompilationError then RecordViolation ''COMPILATION_FAILURE''
      else RecordViolation (Violation_String ViolationSyscallBlocked));
     _ \<leftarrow> eb_Publish bus sid (failed_event sid verdict errDetails compResult now);
     ret None
   }"

definition exec_error :: "host \<Rightarrow> string \<Rightarrow> string \<Rightarrow> goerror \<Rightarrow> ('z world_scheme, ExecutionResult) state" where
  "exec_error h sid backend e = do {
     t \<leftarrow> io_now h;
     ret (ExecutionResult_zero\<lparr>er_ID := sid, er_Verdict := VerdictSystemError,
       er_ErrorDetails := err_Error e, er_SandboxBackend := backend, er_ExecutedAt := t\<rparr>)
   }"

definition run_test ::
  "('z world_scheme) EventBus \<Rightarrow> host \<Rightarrow> ('z world_scheme) sandbox \<Rightarrow> string \<Rightarrow> int \<Rightarrow> int \<Rightarrow> TestCase \<Rightarrow>
   SandboxContext \<Rightarrow> ('z world_scheme, ExecutionResult) state" where
  "run_test bus h sb sid n i tc sCtx = do {
     t \<leftarrow> io_now h;
     _ \<leftarrow> eb_Publish bus sid (start_event sid n i t);
     r \<leftarrow> sb_Execute sb sCtx;
     res \<leftarrow> (case r of Inl e \<Rightarrow> exec_error h sid (sb_Name sb) e | Inr res \<Rightarrow> ret res);
     t' \<leftarrow> io_now h;
     _ \<leftarrow> eb_Publish bus sid (test_event sid n i tc res t');
     ret res
   }"

definition test_ctx :: "TestCase \<Rightarrow> SandboxContext \<Rightarrow> SandboxContext" where
  "test_ctx tc sCtx = sCtx\<lparr>sc_Request := test_request tc (sc_Request sCtx)\<rparr>"

fun run_tests ::
  "('z world_scheme) EventBus \<Rightarrow> host \<Rightarrow> ('z world_scheme) sandbox \<Rightarrow> string \<Rightarrow> int \<Rightarrow> int \<Rightarrow> TestCase list \<Rightarrow>
   SandboxContext \<Rightarrow> tally \<Rightarrow> ('z world_scheme, tally) state" where
  "run_tests bus h sb sid n i [] sCtx ta = ret ta"
| "run_tests bus h sb sid n i (tc # tcs) sCtx ta = do {
     res \<leftarrow> run_test bus h sb sid n i tc (test_ctx tc sCtx);
     run_tests bus h sb sid n (i + 1) tcs (test_ctx tc sCtx) (tally_step i tc res ta)
   }"

definition audit_verdict ::
  "host \<Rightarrow> SubmissionJob \<Rightarrow> string \<Rightarrow> tally \<Rightarrow> ('z world_scheme, unit) state" where
  "audit_verdict h job backend ta =
     (if ta_overallVerdict ta = VerdictMemoryLimitExceeded then do {
        LogViolation h (job_SubmissionID job) (job_Language job) backend ViolationMemoryOOM
          (''Memory limit exceeded: '' @ fmt_f2 (ta_maxPeakMemoryMB ta) @ ''MB > '' @
           FormatInt (job_MemoryLimitMB job) @ ''MB'');
        RecordViolation (Violation_String ViolationMemoryOOM)
      }
      else if ta_overallVerdict ta = VerdictTimeLimitExceeded then do {
        LogViolation h (job_SubmissionID job) (job_Language job) backend ViolationTimeoutExceeded
          (''Time limit exceeded: '' @ fmt_f2 (ta_totalWallTimeMs ta) @ ''ms > '' @
           FormatInt (job_TimeLimitMs job) @ ''ms'');
        RecordViolation (Violation_String ViolationTimeoutExceeded)
      }
      else ret ())"

text \<open>Phases 5 and 6: every test case, then the final state, telemetry and the final event.\<close>

definition evaluate ::
  "('z world_scheme) EventBus \<Rightarrow> ('z world_scheme) StateStore \<Rightarrow> host \<Rightarrow> ('z world_scheme) sandbox \<Rightarrow>
   SubmissionJob \<Rightarrow> SandboxContext \<Rightarrow> CompilationResult option \<Rightarrow> ('z world_scheme, unit) state" where
  "evaluate bus st h sb job sCtx compResult = do {
     let sid = job_SubmissionID job;
     let n = int (length (job_tests job));
     t \<leftarrow> io_now h;
     _ \<leftarrow> eb_Publish bus sid (running_event sid n compResult t);
     t' \<leftarrow> io_now h;
     let currentState = running_state job compResult t';
     _ \<leftarrow> st_SaveState st currentState;
     ta \<leftarrow> run_tests bus h sb sid n 1 (job_tests job) sCtx tally0;
     now \<leftarrow> io_now h;
     _ \<leftarrow> st_SaveState st (completed_state currentState ta now);
     RecordSubmissionMetrics (job_Language job) (Verdict_String (ta_overallVerdict ta)) (sb_Name sb)
       (ta_totalWallTimeMs ta) (ta_totalCpuTimeMs ta) (ta_maxPeakMemoryMB ta);
     audit_verdict h job (sb_Name sb) ta;
     _ \<leftarrow> eb_Publish bus sid (completed_event sid n compResult ta now);
     ret ()
   }"

text \<open>Phase 4 and the rest, between \<open>Prepare\<close> and the deferred \<open>Cleanup\<close>.\<close>

definition compile_then_evaluate ::
  "('z world_scheme) EventBus \<Rightarrow> ('z world_scheme) StateStore \<Rightarrow> host \<Rightarrow> ('z world_scheme) sandbox \<Rightarrow>
   SubmissionJob \<Rightarrow> LanguageHandler \<Rightarrow> SandboxContext \<Rightarrow> ('z world_scheme, goerror option) state" where
  "compile_then_evaluate bus st h sb job lang sCtx =
     (if lh_NeedsCompilation lang then do {
        t \<leftarrow> io_now h;
        _ \<leftarrow> eb_Publish bus (job_SubmissionID job) (compiling_event (job_SubmissionID job) t);
        c \<leftarrow> sb_Compile sb sCtx;
        (case c of
           Inl e \<Rightarrow> failSubmission bus st h (job_SubmissionID job) (job_Language job)
             (int (length (job_tests job))) VerdictCompilationError (err_Error e) None
         | Inr cr \<Rightarrow>
             if \<not> comp_Success cr
             then failSubmission bus st h (job_SubmissionID job) (job_Language job)
               (int (length (job_tests job))) VerdictCompilationError (comp_Stderr cr) (Some cr)
             else do { evaluate bus st h sb job sCtx (Some cr); ret None })
      }
      else do { evaluate bus st h sb job sCtx None; ret None })"

text \<open>Phase 3, and the deferred \<open>Cleanup\<close> after everything else.\<close>

definition process_in ::
  "('z world_scheme) EventBus \<Rightarrow> ('z world_scheme) StateStore \<Rightarrow> host \<Rightarrow> SubmissionJob \<Rightarrow> LanguageHandler \<Rightarrow>
   ('z world_scheme) sandbox \<Rightarrow> ('z world_scheme, goerror option) state" where
  "process_in bus st h job lang sb = do {
     req \<leftarrow> Normalize h (exec_request job);
     p \<leftarrow> sb_Prepare sb req lang;
     (case p of
        Inl e \<Rightarrow> failSubmission bus st h (job_SubmissionID job) (job_Language job)
          (int (length (job_tests job))) VerdictSystemError
          (''sandbox prepare failed: '' @ err_Error e) None
      | Inr sCtx \<Rightarrow> do {
          r \<leftarrow> compile_then_evaluate bus st h sb job lang sCtx;
          _ \<leftarrow> sb_Cleanup sb sCtx;
          ret r
        })
   }"

definition ProcessJob ::
  "('z world_scheme) EventBus \<Rightarrow> ('z world_scheme) StateStore \<Rightarrow> host \<Rightarrow> SubmissionJob option \<Rightarrow>
   ('z world_scheme, goerror option) state" where
  "ProcessJob bus st h j =
     (case j of
        None \<Rightarrow> ret None
      | Some job \<Rightarrow>
          (case Get h (init_registry h) (job_Language job) of
             Inl e \<Rightarrow> failSubmission bus st h (job_SubmissionID job) (job_Language job)
               (int (length (job_tests job))) VerdictSystemError (err_Error e) None
           | Inr lang \<Rightarrow> do {
               s \<leftarrow> SelectSandbox h (job_SandboxType job);
               (case s of
                  Inl e \<Rightarrow> failSubmission bus st h (job_SubmissionID job) (job_Language job)
                    (int (length (job_tests job))) VerdictSystemError (err_Error e) None
                | Inr sb \<Rightarrow> process_in bus st h job lang sb)
             }))"

text \<open>The deferred handler of a panic with value \<open>r\<close> and stack trace \<open>stack\<close>.\<close>

definition recover_panic ::
  "('z world_scheme) EventBus \<Rightarrow> ('z world_scheme) StateStore \<Rightarrow> host \<Rightarrow> SubmissionJob \<Rightarrow> string \<Rightarrow> string \<Rightarrow>
   ('z world_scheme, goerror option) state" where
  "recover_panic bus st h job r stack = do {
     let errDetails = ''panic recovered in worker: '' @ r @ [CHR 0x0A] @ stack;
     t \<leftarrow> io_now h;
     _ \<leftarrow> st_SaveState st
       ((state_of (job_SubmissionID job) StatusFailed VerdictSystemError (job_Language job)
           (int (length (job_tests job))))
        \<lparr>ss_ErrorDetails := errDetails, ss_UpdatedAt := t\<rparr>);
     t' \<leftarrow> io_now h;
     _ \<leftarrow> eb_Publish bus (job_SubmissionID job)
       ((event_of (job_SubmissionID job) StatusFailed t')
        \<lparr>ev_Verdict := VerdictSystemError, ev_ErrorDetails := errDetails\<rparr>);
     ret (Some (ErrNew (''worker panic: '' @ r)))
   }"

end
