(* ===== verification/Worker_Correct.thy ===== *)
theory Worker_Correct
  imports Worker
begin

text \<open>
  What \<open>ProcessJob\<close> does to its surroundings, proved once in the locale \<open>worker_env\<close> from the
  contracts of the event bus, the state store and the selected backend, and then for the in-memory
  implementations by interpretation.  \<open>emits m P\<close> says that \<open>m\<close> publishes a sequence of events
  and saves a sequence of states related to its value by \<open>P\<close>, and touches nothing else of either.
\<close>

section \<open>Effects\<close>

definition strip :: "SubmissionState \<Rightarrow> SubmissionState" where
  "strip s = s\<lparr>ss_UpdatedAt := 0\<rparr>"

definition save_in :: "(string \<Rightarrow> SubmissionState option) \<Rightarrow> SubmissionState \<Rightarrow> string \<Rightarrow> SubmissionState option" where
  "save_in m s = m(ss_SubmissionID s \<mapsto> s)"

text \<open>
  From one world to another, by publishing \<open>evs\<close> (up to stamps) and saving \<open>ss\<close> (up to the
  times of the updates).
\<close>

definition transits ::
  "('w \<Rightarrow> ExecutionEvent list) \<Rightarrow> (ExecutionEvent list \<Rightarrow> ExecutionEvent list) \<Rightarrow>
   ('w \<Rightarrow> string \<Rightarrow> SubmissionState option) \<Rightarrow> 'w \<Rightarrow> 'w \<Rightarrow>
   ExecutionEvent list \<Rightarrow> SubmissionState list \<Rightarrow> bool" where
  "transits seen clip lookup w w' evs ss \<longleftrightarrow>
     (\<exists>xs. seen w' = clip (seen w @ xs) \<and> map unstamped xs = evs) \<and>
     (\<exists>ys. lookup w' = foldl save_in (lookup w) ys \<and> map strip ys = map strip ss)"

definition emits where
  "emits seen clip lookup I m P \<longleftrightarrow>
     (\<forall>w x w'. I w \<longrightarrow> run_state m w = (x, w') \<longrightarrow>
        I w' \<and> (\<exists>evs ss. transits seen clip lookup w w' evs ss \<and> P x evs ss))"

lemma emits_mono:
  "emits seen clip lookup I m P \<Longrightarrow> (\<And>x evs ss. P x evs ss \<Longrightarrow> Q x evs ss) \<Longrightarrow>
    emits seen clip lookup I m Q"
  unfolding emits_def by blast

section \<open>The environment of a worker\<close>

locale worker_env =
  bus: reliable_bus bus sid "\<lambda>_. True" seen clip bus_inv + store: durable_store st "\<lambda>_. True" lookup st_inv
  for bus :: "('z world_scheme) EventBus" and sid seen clip bus_inv
    and st :: "('z world_scheme) StateStore" and lookup st_inv +
  assumes publish_store: "st_inv w \<Longrightarrow> run_state (eb_Publish bus sid ev) w = (r, w') \<Longrightarrow>
      st_inv w' \<and> lookup w' = lookup w"
    and save_bus: "bus_inv w \<Longrightarrow> run_state (st_SaveState st s) w = (r, w') \<Longrightarrow>
      bus_inv w' \<and> seen w' = seen w"
    and io_seen: "seen (w\<lparr>w_trace := tr, w_nextCore := c\<rparr>) = seen w"
    and io_lookup: "lookup (w\<lparr>w_trace := tr, w_nextCore := c\<rparr>) = lookup w"
    and io_bus_inv: "bus_inv (w\<lparr>w_trace := tr, w_nextCore := c\<rparr>) = bus_inv w"
    and io_st_inv: "st_inv (w\<lparr>w_trace := tr, w_nextCore := c\<rparr>) = st_inv w"
begin

abbreviation emit where
  "emit \<equiv> emits seen clip lookup (\<lambda>w. bus_inv w \<and> st_inv w)"

lemma transits_trans:
  assumes "transits seen clip lookup w w1 e1 s1" and "transits seen clip lookup w1 w2 e2 s2"
  shows "transits seen clip lookup w w2 (e1 @ e2) (s1 @ s2)"
proof -
  obtain xs where 1: "seen w1 = clip (seen w @ xs)" "map unstamped xs = e1"
    using assms(1) unfolding transits_def by blast
  obtain ys where 2: "seen w2 = clip (seen w1 @ ys)" "map unstamped ys = e2"
    using assms(2) unfolding transits_def by blast
  have "seen w2 = clip (seen w @ (xs @ ys))"
    by (simp add: 1 2 bus.clip_clip)
  moreover have "map unstamped (xs @ ys) = e1 @ e2" by (simp add: 1 2)
  moreover obtain us where 3: "lookup w1 = foldl save_in (lookup w) us" "map strip us = map strip s1"
    using assms(1) unfolding transits_def by blast
  moreover obtain vs where 4: "lookup w2 = foldl save_in (lookup w1) vs" "map strip vs = map strip s2"
    using assms(2) unfolding transits_def by blast
  moreover have "lookup w2 = foldl save_in (lookup w) (us @ vs)" "map strip (us @ vs) = map strip (s1 @ s2)"
    by (simp_all add: 3 4)
  ultimately show ?thesis unfolding transits_def by blast
qed

lemma emit_io:
  assumes "io_only m" and "\<And>w x w'. run_state m w = (x, w') \<Longrightarrow> R x"
  shows "emit m (\<lambda>x evs ss. evs = [] \<and> ss = [] \<and> R x)"
  unfolding emits_def
proof (intro allI impI)
  fix w x w'
  assume inv: "bus_inv w \<and> st_inv w" and run: "run_state m w = (x, w')"
  obtain ops c where w': "w' = w\<lparr>w_trace := w_trace w @ ops, w_nextCore := c\<rparr>"
    using io_only_run [OF assms(1) run] by blast
  have "transits seen clip lookup w w' [] []"
    using inv bus.seen_clip unfolding transits_def
    by (intro conjI exI [of _ "[]"]) (simp_all add: w' io_seen io_lookup)
  then show "(bus_inv w' \<and> st_inv w') \<and>
      (\<exists>evs ss. transits seen clip lookup w w' evs ss \<and> evs = [] \<and> ss = [] \<and> R x)"
    using inv assms(2) [OF run] by (auto simp: w' io_bus_inv io_st_inv)
qed

lemma emit_publish:
  "emit (eb_Publish bus sid ev) (\<lambda>_ evs ss. evs = [unstamped ev] \<and> ss = [])"
  unfolding emits_def
proof (intro allI impI)
  fix w x w'
  assume inv: "bus_inv w \<and> st_inv w" and run: "run_state (eb_Publish bus sid ev) w = (x, w')"
  obtain t where "bus_inv w'" "seen w' = clip (seen w @ [stamp_event sid t ev])"
    using bus.publish_stamped [OF _ TrueI run] inv by blast
  moreover have "st_inv w'" "lookup w' = lookup w" using publish_store [OF _ run] inv by auto
  moreover have "transits seen clip lookup w w' [unstamped ev] []"
    unfolding transits_def
    by (intro conjI exI [of _ "[stamp_event sid t ev]"]) (simp_all add: calculation)
  ultimately show "(bus_inv w' \<and> st_inv w') \<and>
      (\<exists>evs ss. transits seen clip lookup w w' evs ss \<and> evs = [unstamped ev] \<and> ss = [])" by blast
qed

lemma emit_save: "emit (st_SaveState st s) (\<lambda>_ evs ss. evs = [] \<and> ss = [s])"
  unfolding emits_def
proof (intro allI impI)
  fix w x w'
  assume inv: "bus_inv w \<and> st_inv w" and run: "run_state (st_SaveState st s) w = (x, w')"
  have "x = None" using store.save_succeeds [OF _ TrueI run] inv by blast
  then obtain t where "st_inv w'" and l: "lookup w' = (lookup w)(ss_SubmissionID s \<mapsto> s\<lparr>ss_UpdatedAt := t\<rparr>)"
    using store.save_ok [of w s w'] run inv by blast
  moreover have "bus_inv w'" "seen w' = seen w" using save_bus [OF _ run] inv by auto
  moreover have "transits seen clip lookup w w' [] [s]"
    unfolding transits_def
    using inv bus.seen_clip
    by (intro conjI exI [of _ "[]"] exI [of _ "[s\<lparr>ss_UpdatedAt := t\<rparr>]"])
      (simp_all add: calculation save_in_def strip_def)
  ultimately show "(bus_inv w' \<and> st_inv w') \<and>
      (\<exists>evs ss. transits seen clip lookup w w' evs ss \<and> evs = [] \<and> ss = [s])" by blast
qed

lemma emit_bind_dep:
  assumes "emit m P" and "\<And>x e s. P x e s \<Longrightarrow> emit (f x) (Q x)"
  shows "emit (State_Monad.bind m f)
    (\<lambda>y evs ss. \<exists>x e1 s1 e2 s2. P x e1 s1 \<and> Q x y e2 s2 \<and> evs = e1 @ e2 \<and> ss = s1 @ s2)"
  unfolding emits_def
proof (intro allI impI)
  fix w y w'
  assume inv: "bus_inv w \<and> st_inv w" and run: "run_state (State_Monad.bind m f) w = (y, w')"
  obtain x w1 where 1: "run_state m w = (x, w1)" by force
  with run have 2: "run_state (f x) w1 = (y, w')" by simp
  obtain e1 s1 where e1: "bus_inv w1 \<and> st_inv w1" "transits seen clip lookup w w1 e1 s1" "P x e1 s1"
    using assms(1) inv 1 unfolding emits_def by blast
  obtain e2 s2 where e2: "bus_inv w' \<and> st_inv w'" "transits seen clip lookup w1 w' e2 s2" "Q x y e2 s2"
    using assms(2) [OF e1(3)] e1(1) 2 unfolding emits_def by blast
  show "(bus_inv w' \<and> st_inv w') \<and> (\<exists>evs ss. transits seen clip lookup w w' evs ss \<and>
      (\<exists>x e1 s1 e2 s2. P x e1 s1 \<and> Q x y e2 s2 \<and> evs = e1 @ e2 \<and> ss = s1 @ s2))"
    using transits_trans [OF e1(2) e2(2)] e1 e2 by blast
qed

lemma emit_bind:
  assumes "emit m P" and "\<And>x. emit (f x) (Q x)"
  shows "emit (State_Monad.bind m f)
    (\<lambda>y evs ss. \<exists>x e1 s1 e2 s2. P x e1 s1 \<and> Q x y e2 s2 \<and> evs = e1 @ e2 \<and> ss = s1 @ s2)"
  using assms by (rule emit_bind_dep)

lemma emit_after:
  assumes "emit m (\<lambda>x evs ss. evs = [] \<and> ss = [] \<and> R x)" and "\<And>x. R x \<Longrightarrow> emit (f x) Q"
  shows "emit (State_Monad.bind m f) Q"
  by (rule emits_mono, rule emit_bind_dep [OF assms(1), of f "\<lambda>_. Q"])
    (use assms(2) in auto)

lemma emit_ret: "emit (ret x) (\<lambda>y evs ss. evs = [] \<and> ss = [] \<and> y = x)"
  by (rule emit_io) (auto intro: io_frame)

end

section \<open>What a job produces\<close>

definition test_ok :: "string \<Rightarrow> int \<Rightarrow> TestCase \<Rightarrow> ExecutionResult \<Rightarrow> bool" where
  "test_ok sid limit tc res \<longleftrightarrow>
     er_ID res = sid \<and> er_Verdict res \<in> insert VerdictSystemError run_verdicts \<and>
     (er_Verdict res = VerdictAccepted \<longrightarrow>
        er_ExitCode res = 0 \<and> \<not> er_OOMKilled res \<and> \<not> flt (float_of_int limit) (er_WallTimeMs res) \<and>
        (tc_ExpectedOutput tc \<noteq> [] \<longrightarrow>
           TrimRight (er_Stdout res) [CHR 0x0D, CHR 0x0A] = TrimRight (tc_ExpectedOutput tc) [CHR 0x0D, CHR 0x0A]))"

lemma test_okI:
  assumes "er_ID res = sid" and "er_Verdict res \<in> run_verdicts"
    and "er_Verdict res = VerdictAccepted \<Longrightarrow> accepted_ok (test_request tc req) res"
  shows "test_ok sid (req_TimeLimitMs req) tc res"
  using assms
  by (auto simp: test_ok_def accepted_ok_def test_request_def time_limit_float_def outputs_match_def crlf_def)

fun test_events :: "string \<Rightarrow> int \<Rightarrow> int \<Rightarrow> TestCase list \<Rightarrow> ExecutionResult list \<Rightarrow> ExecutionEvent list" where
  "test_events sid n i (tc # tcs) (r # rs) =
     unstamped (start_event sid n i 0) # unstamped (test_event sid n i tc r 0) #
     test_events sid n (i + 1) tcs rs"
| "test_events sid n i _ _ = []"

fun tally_all :: "int \<Rightarrow> TestCase list \<Rightarrow> ExecutionResult list \<Rightarrow> tally \<Rightarrow> tally" where
  "tally_all i (tc # tcs) (r # rs) ta = tally_all (i + 1) tcs rs (tally_step i tc r ta)"
| "tally_all i _ _ ta = ta"

text \<open>The job failed before its tests, or ran all of them.\<close>

definition failed_run ::
  "SubmissionJob \<Rightarrow> ExecutionEvent list \<Rightarrow> ExecutionEvent list \<Rightarrow> SubmissionState list \<Rightarrow> bool" where
  "failed_run job pre evs ss \<longleftrightarrow>
     (\<exists>v d c now. v \<in> {VerdictSystemError, VerdictCompilationError} \<and>
        evs = pre @ [unstamped (failed_event (job_SubmissionID job) v d c 0)] \<and>
        ss = [failed_state (job_SubmissionID job) (job_Language job) (int (length (job_tests job))) v d c now])"

definition completed_run ::
  "SubmissionJob \<Rightarrow> ExecutionRequest \<Rightarrow> ExecutionEvent list \<Rightarrow> ExecutionEvent list \<Rightarrow> SubmissionState list \<Rightarrow> bool" where
  "completed_run job req pre evs ss \<longleftrightarrow>
     (\<exists>c rs t now.
        let sid = job_SubmissionID job; n = int (length (job_tests job));
            ta = tally_all 1 (job_tests job) rs tally0
        in list_all2 (test_ok sid (req_TimeLimitMs req)) (job_tests job) rs \<and>
           evs = pre @ unstamped (running_event sid n c 0) # test_events sid n 1 (job_tests job) rs @
                 [unstamped (completed_event sid n c ta 0)] \<and>
           ss = [running_state job c t, completed_state (running_state job c t) ta now])"

text \<open>What precedes the outcome: nothing, or the event that announces a compilation.\<close>

definition announce :: "string \<Rightarrow> LanguageHandler \<Rightarrow> ExecutionEvent list" where
  "announce sid lang = (if lh_NeedsCompilation lang then [unstamped (compiling_event sid 0)] else [])"

definition processed :: "host \<Rightarrow> SubmissionJob \<Rightarrow> ExecutionEvent list \<Rightarrow> SubmissionState list \<Rightarrow> bool" where
  "processed h job evs ss \<longleftrightarrow>
     failed_run job [] evs ss \<or>
     (\<exists>lang. Get h (init_registry h) (job_Language job) = Inr lang \<and>
        (failed_run job (announce (job_SubmissionID job) lang) evs ss \<or>
         completed_run job (normalize_fields h (job_SubmissionID job) (exec_request job))
           (announce (job_SubmissionID job) lang) evs ss))"

lemma unstamped_events [simp]:
  "NO_MATCH 0 t \<Longrightarrow> unstamped (start_event sid n i t) = unstamped (start_event sid n i 0)"
  "NO_MATCH 0 t \<Longrightarrow> unstamped (test_event sid n i tc r t) = unstamped (test_event sid n i tc r 0)"
  "NO_MATCH 0 t \<Longrightarrow> unstamped (running_event sid n c t) = unstamped (running_event sid n c 0)"
  "NO_MATCH 0 t \<Longrightarrow> unstamped (completed_event sid n c ta t) = unstamped (completed_event sid n c ta 0)"
  "NO_MATCH 0 t \<Longrightarrow> unstamped (failed_event sid v d c t) = unstamped (failed_event sid v d c 0)"
  "NO_MATCH 0 t \<Longrightarrow> unstamped (compiling_event sid t) = unstamped (compiling_event sid 0)"
  by (simp_all add: unstamped_def start_event_def test_event_def running_event_def completed_event_def
      failed_event_def compiling_event_def event_of_def)

lemma test_request_again [simp]: "test_request tc (test_request tc' r) = test_request tc r"
  by (simp add: test_request_def)

lemma test_ctx_simps [simp]:
  "sc_Request (test_ctx tc c) = test_request tc (sc_Request c)" "sc_ID (test_ctx tc c) = sc_ID c"
  by (simp_all add: test_ctx_def)

lemma test_request_limit [simp]: "req_TimeLimitMs (test_request tc r) = req_TimeLimitMs r"
  by (simp add: test_request_def)

lemma io_only_audit_verdict [io_frame]: "io_only (audit_verdict h job b ta)"
  unfolding audit_verdict_def by (intro io_frame)

lemma io_only_exec_error [io_frame]: "io_only (exec_error h sid b e)"
  unfolding exec_error_def by (intro io_frame)

lemma exec_error_ok:
  "run_state (exec_error h sid b e) w = (res, w') \<Longrightarrow> er_Verdict res = VerdictSystemError \<and> er_ID res = sid"
  by (auto simp: exec_error_def)

context worker_env
begin

lemma emit_quiet: "io_only m \<Longrightarrow> emit m (\<lambda>_ evs ss. evs = [] \<and> ss = [])"
  using emit_io [of m "\<lambda>_. True"] by simp

lemmas emit_rules = emit_bind emit_save emit_publish emit_ret emit_quiet

lemma emit_failSubmission:
  assumes "sid = job_SubmissionID job" and "v \<in> {VerdictSystemError, VerdictCompilationError}"
  shows "emit (failSubmission bus st h sid (job_Language job) (int (length (job_tests job))) v d c)
    (\<lambda>r evs ss. r = None \<and> failed_run job [] evs ss)"
  unfolding failSubmission_def
  apply (rule emits_mono)
   apply (rule emit_rules | intro io_frame)+
  apply (use assms in \<open>auto simp: failed_run_def\<close>)
  done

lemma emit_execute:
  assumes sb: "sandbox_backend sb" and "sc_ID ctx = sid"
  shows "emit (State_Monad.bind (sb_Execute sb (test_ctx tc ctx))
      (\<lambda>r. case r of Inl e \<Rightarrow> exec_error h sid (sb_Name sb) e | Inr res \<Rightarrow> ret res))
    (\<lambda>res evs ss. evs = [] \<and> ss = [] \<and> test_ok sid (req_TimeLimitMs (sc_Request ctx)) tc res)"
proof (rule emit_io)
  show "io_only (State_Monad.bind (sb_Execute sb (test_ctx tc ctx))
      (\<lambda>r. case r of Inl e \<Rightarrow> exec_error h sid (sb_Name sb) e | Inr res \<Rightarrow> ret res))"
    by (intro io_frame sandbox_backend.io_execute [OF sb])
next
  fix w res w'
  assume run: "run_state (State_Monad.bind (sb_Execute sb (test_ctx tc ctx))
      (\<lambda>r. case r of Inl e \<Rightarrow> exec_error h sid (sb_Name sb) e | Inr res \<Rightarrow> ret res)) w = (res, w')"
  obtain r w1 where 1: "run_state (sb_Execute sb (test_ctx tc ctx)) w = (r, w1)" by force
  show "test_ok sid (req_TimeLimitMs (sc_Request ctx)) tc res"
  proof (cases r)
    case (Inl e)
    with run 1 have "run_state (exec_error h sid (sb_Name sb) e) w1 = (res, w')" by simp
    then show ?thesis by (auto simp: test_ok_def dest: exec_error_ok)
  next
    case (Inr res')
    with run 1 have "res' = res" by simp
    note ex = 1 [unfolded Inr this]
    show ?thesis
      using sandbox_backend.execute_id [OF sb ex] sandbox_backend.execute_verdict [OF sb ex]
        sandbox_backend.execute_accepted [OF sb ex] assms(2)
      by (intro test_okI) simp_all
  qed
qed

lemma emit_run_test:
  assumes "sandbox_backend sb" and "sc_ID ctx = sid"
  shows "emit (run_test bus h sb sid n i tc (test_ctx tc ctx))
    (\<lambda>res evs ss. ss = [] \<and> test_ok sid (req_TimeLimitMs (sc_Request ctx)) tc res \<and>
       evs = [unstamped (start_event sid n i 0), unstamped (test_event sid n i tc res 0)])"
  unfolding run_test_def State_Monad.bind_assoc [symmetric, of "sb_Execute sb c" for c]
  apply (rule emits_mono)
   apply (rule emit_execute [OF assms] | rule emit_rules | intro io_frame)+
  apply auto
  done

lemma emit_run_tests:
  assumes "sandbox_backend sb" and "sc_ID ctx = sid"
  shows "emit (run_tests bus h sb sid n i tcs ctx ta)
    (\<lambda>ta' evs ss. ss = [] \<and> (\<exists>rs. list_all2 (test_ok sid (req_TimeLimitMs (sc_Request ctx))) tcs rs \<and>
       evs = test_events sid n i tcs rs \<and> ta' = tally_all i tcs rs ta))"
  using assms(2)
proof (induction tcs arbitrary: i ctx ta)
  case Nil
  then show ?case
    by (simp, intro emits_mono [OF emit_ret]) auto
next
  case (Cons tc tcs)
  have IH: "emit (run_tests bus h sb sid n (i + 1) tcs (test_ctx tc ctx) ta')
    (\<lambda>ta'' evs ss. ss = [] \<and> (\<exists>rs. list_all2 (test_ok sid (req_TimeLimitMs (sc_Request ctx))) tcs rs \<and>
       evs = test_events sid n (i + 1) tcs rs \<and> ta'' = tally_all (i + 1) tcs rs ta'))" for ta'
    using Cons.IH [of "test_ctx tc ctx" "i + 1" ta'] Cons.prems by simp
  show ?case
    unfolding run_tests.simps
    apply (rule emits_mono)
     apply (rule emit_bind [OF emit_run_test [OF assms(1) Cons.prems] IH])
    apply (elim exE conjE)
    subgoal for ta' evs ss res e1 s1 e2 s2 rs
      by (intro conjI exI [of _ "res # rs"]) simp_all
    done
qed

lemma emit_evaluate:
  assumes "sandbox_backend sb" and "sc_ID ctx = sid" and "sid = job_SubmissionID job"
  shows "emit (evaluate bus st h sb job ctx c)
    (\<lambda>_ evs ss. completed_run job (sc_Request ctx) [] evs ss)"
  unfolding evaluate_def Let_def assms(3) [symmetric]
  apply (rule emits_mono)
   apply (rule emit_run_tests [OF assms(1,2)] | rule emit_rules | intro io_frame)+
  apply (elim exE conjE)
  apply (simp add: completed_run_def Let_def assms(3) [symmetric])
  apply blast
  done

lemma failed_run_pre: "failed_run job [] evs ss \<Longrightarrow> failed_run job [e] (e # evs) ss"
  by (auto simp: failed_run_def)

lemma completed_run_pre: "completed_run job req [] evs ss \<Longrightarrow> completed_run job req [e] (e # evs) ss"
  by (auto simp: completed_run_def Let_def)

lemma emit_evaluate_none:
  assumes "sandbox_backend sb" and "sc_ID ctx = sid" and "sid = job_SubmissionID job"
  shows "emit (State_Monad.bind (evaluate bus st h sb job ctx c) (\<lambda>_. ret None))
    (\<lambda>r evs ss. r = None \<and> completed_run job (sc_Request ctx) [] evs ss)"
  apply (rule emits_mono)
   apply (rule emit_evaluate [OF assms] | rule emit_rules)+
  apply auto
  done

lemma emit_compiled:
  assumes sb: "sandbox_backend sb" and ctx: "sc_ID ctx = sid" and sid: "sid = job_SubmissionID job"
  shows "emit (case cr of
      Inl e \<Rightarrow> failSubmission bus st h (job_SubmissionID job) (job_Language job)
        (int (length (job_tests job))) VerdictCompilationError (err_Error e) None
    | Inr cr \<Rightarrow> if \<not> comp_Success cr
        then failSubmission bus st h (job_SubmissionID job) (job_Language job)
          (int (length (job_tests job))) VerdictCompilationError (comp_Stderr cr) (Some cr)
        else State_Monad.bind (evaluate bus st h sb job ctx (Some cr)) (\<lambda>_. ret None))
    (\<lambda>r evs ss. r = None \<and> (failed_run job [] evs ss \<or> completed_run job (sc_Request ctx) [] evs ss))"
proof (cases cr)
  case (Inl e)
  show ?thesis unfolding Inl sum.case sid [symmetric]
    by (rule emits_mono [OF emit_failSubmission [OF sid]]) auto
next
  case (Inr c)
  show ?thesis
  proof (cases "comp_Success c")
    case False
    show ?thesis unfolding Inr sum.case sid [symmetric] if_P [OF False]
      by (rule emits_mono [OF emit_failSubmission [OF sid]]) auto
  next
    case True
    then have "\<not> \<not> comp_Success c" by simp
    show ?thesis unfolding Inr sum.case if_not_P [OF \<open>\<not> \<not> comp_Success c\<close>]
      by (rule emits_mono [OF emit_evaluate_none [OF assms]]) auto
  qed
qed

lemma emit_compile_then_evaluate:
  assumes sb: "sandbox_backend sb" and ctx: "sc_ID ctx = sid" and sid: "sid = job_SubmissionID job"
  shows "emit (compile_then_evaluate bus st h sb job lang ctx)
    (\<lambda>r evs ss. r = None \<and> (failed_run job (announce sid lang) evs ss \<or>
       completed_run job (sc_Request ctx) (announce sid lang) evs ss))"
proof (cases "lh_NeedsCompilation lang")
  case False
  show ?thesis
    unfolding compile_then_evaluate_def if_not_P [OF False]
    by (rule emits_mono [OF emit_evaluate_none [OF assms]]) (use False in \<open>auto simp: announce_def\<close>)
next
  case True
  show ?thesis
    unfolding compile_then_evaluate_def if_P [OF True] sid [symmetric]
    apply (rule emits_mono)
     apply (rule emit_compiled [OF assms, unfolded sid [symmetric]] | rule emit_rules
        | intro io_frame sandbox_backend.io_compile [OF sb])+
    apply (use True in \<open>auto simp: announce_def intro: failed_run_pre completed_run_pre\<close>)
    done
qed

text \<open>
  The outcome of a job: a failure with at most the compilation announced before it, or every test
  evaluated under the normalized request.
\<close>

lemma emit_fail:
  assumes sid: "sid = job_SubmissionID job"
  shows "emit (failSubmission bus st h sid (job_Language job) (int (length (job_tests job)))
      VerdictSystemError d None) (\<lambda>r evs ss. r = None \<and> processed h job evs ss)"
  by (rule emits_mono [OF emit_failSubmission [OF sid]]) (auto simp: processed_def)

lemma emit_process_in:
  assumes sb: "sandbox_backend sb" and sid: "sid = job_SubmissionID job" and "sid \<noteq> []"
    and lang: "Get h (init_registry h) (job_Language job) = Inr lang"
  shows "emit (process_in bus st h job lang sb) (\<lambda>r evs ss. r = None \<and> processed h job evs ss)"
proof -
  let ?req = "normalize_fields h sid (exec_request job)"
  have req: "run_state (Normalize h (exec_request job)) w = (?req, w)" for w :: "'z world_scheme"
    using Normalize_given_id [of "exec_request job"] assms(3) sid by (simp add: exec_request_def)
  have ok: "req_ID ?req = sid" by (simp add: normalize_fields_def)
  have prep: "emit (sb_Prepare sb ?req lang) (\<lambda>p evs ss. evs = [] \<and> ss = [] \<and>
      (\<forall>ctx. p = Inr ctx \<longrightarrow> sc_ID ctx = sid \<and> sc_Request ctx = ?req))"
    using ok by (intro emit_io sandbox_backend.io_prepare [OF sb])
      (auto dest: sandbox_backend.prepare_ctx [OF sb])
  have body: "emit (State_Monad.bind (compile_then_evaluate bus st h sb job lang ctx)
      (\<lambda>r. State_Monad.bind (sb_Cleanup sb ctx) (\<lambda>_. ret r)))
      (\<lambda>r evs ss. r = None \<and> processed h job evs ss)"
    if "sc_ID ctx = sid" "sc_Request ctx = ?req" for ctx
    apply (rule emits_mono)
     apply (rule emit_compile_then_evaluate [OF sb that(1) sid] | rule emit_rules
        | rule sandbox_backend.io_cleanup [OF sb])+
    apply (use lang that sid in \<open>auto simp: processed_def\<close>)
    done
  have norm: "Normalize h (exec_request job) = (ret ?req :: ('z world_scheme, ExecutionRequest) state)"
    by (rule state.expand) (simp add: req fun_eq_iff)
  show ?thesis
    unfolding process_in_def norm State_Monad.bind_left_identity
  proof (rule emit_after [OF prep])
    fix p :: "goerror + SandboxContext"
    assume p: "\<forall>ctx. p = Inr ctx \<longrightarrow> sc_ID ctx = sid \<and> sc_Request ctx = ?req"
    show "emit (case p of
        Inl e \<Rightarrow> failSubmission bus st h (job_SubmissionID job) (job_Language job)
          (int (length (job_tests job))) VerdictSystemError
          (''sandbox prepare failed: '' @ err_Error e) None
      | Inr ctx \<Rightarrow> State_Monad.bind (compile_then_evaluate bus st h sb job lang ctx)
          (\<lambda>r. State_Monad.bind (sb_Cleanup sb ctx) (\<lambda>_. ret r)))
      (\<lambda>r evs ss. r = None \<and> processed h job evs ss)"
      using p body emit_fail [OF sid] by (cases p) (auto simp: sid [symmetric])
  qed
qed

lemma emit_ProcessJob:
  assumes sid: "sid = job_SubmissionID job" and "sid \<noteq> []"
  shows "emit (ProcessJob bus st h (Some job))
    (\<lambda>r evs ss. r = None \<and> processed h job evs ss)"
proof (cases "Get h (init_registry h) (job_Language job)")
  case (Inl e)
  then show ?thesis using emit_fail [OF sid] by (simp add: ProcessJob_def sid [symmetric])
next
  case (Inr lang)
  let ?cont = "\<lambda>s. case s of
      Inl e \<Rightarrow> failSubmission bus st h sid (job_Language job)
        (int (length (job_tests job))) VerdictSystemError (err_Error e) None
    | Inr sb \<Rightarrow> process_in bus st h job lang sb"
  have "emit (State_Monad.bind (SelectSandbox h (job_SandboxType job)) ?cont)
    (\<lambda>r evs ss. r = None \<and> processed h job evs ss)"
  proof (rule emit_after)
    show "emit (SelectSandbox h (job_SandboxType job))
      (\<lambda>s e1 s1. e1 = [] \<and> s1 = [] \<and> (\<forall>sb. s = Inr sb \<longrightarrow> sandbox_backend sb))"
      by (rule emit_io) (auto intro: io_frame dest: SelectSandbox_backend)
  next
    fix s :: "goerror + ('z world_scheme) sandbox"
    assume "\<forall>sb. s = Inr sb \<longrightarrow> sandbox_backend sb"
    then show "emit (?cont s) (\<lambda>r evs ss. r = None \<and> processed h job evs ss)"
      using emit_fail [OF sid] emit_process_in [OF _ sid assms(2) Inr] by (cases s) auto
  qed
  then show ?thesis by (simp add: ProcessJob_def Inr sid [symmetric])
qed

end

section \<open>Reading the outcome\<close>

text \<open>One event ends the stream and it is the last.\<close>

definition ends_once :: "ExecutionEvent list \<Rightarrow> bool" where
  "ends_once evs \<longleftrightarrow>
     evs \<noteq> [] \<and> terminal (ev_Status (last evs)) \<and> list_all (\<lambda>e. \<not> terminal (ev_Status e)) (butlast evs)"

definition first_failure :: "Verdict list \<Rightarrow> Verdict" where
  "first_failure vs = (case filter (\<lambda>v. v \<noteq> VerdictAccepted) vs of [] \<Rightarrow> VerdictAccepted | v # _ \<Rightarrow> v)"

definition passed :: "Verdict list \<Rightarrow> int" where
  "passed vs = int (length (filter (\<lambda>v. v = VerdictAccepted) vs))"

lemma tally_all_verdict:
  "length tcs = length rs \<Longrightarrow> ta_overallVerdict (tally_all i tcs rs ta) =
     (if ta_overallVerdict ta = VerdictAccepted then first_failure (map er_Verdict rs) else ta_overallVerdict ta)"
  by (induction i tcs rs ta rule: tally_all.induct) (auto simp: tally_step_def first_failure_def)

lemma tally_all_passed:
  "length tcs = length rs \<Longrightarrow> ta_passedTests (tally_all i tcs rs ta) = ta_passedTests ta + passed (map er_Verdict rs)"
  by (induction i tcs rs ta rule: tally_all.induct) (auto simp: tally_step_def passed_def)

lemma tally_all_results:
  "length tcs = length rs \<Longrightarrow> ta_Results (tally_all i tcs rs ta) =
     ta_Results ta @ map (\<lambda>k. result_item (i + int k) (tcs ! k) (rs ! k)) [0..<length tcs]"
proof (induction i tcs rs ta rule: tally_all.induct)
  case (1 i tc tcs r rs ta)
  have "map (\<lambda>k. result_item (i + int k) ((tc # tcs) ! k) ((r # rs) ! k)) [0..<Suc (length tcs)] =
      result_item i tc r # map (\<lambda>k. result_item (i + 1 + int k) (tcs ! k) (rs ! k)) [0..<length tcs]"
    by (subst upt_conv_Cons, simp) (simp add: map_Suc_upt [symmetric] ac_simps del: upt_Suc)
  with 1 show ?case by (simp add: tally_step_def del: upt_Suc)
qed simp_all

lemma unstamped_status [simp]: "ev_Status (unstamped e) = ev_Status e"
  by (simp add: unstamped_def)

lemma event_status [simp]:
  "ev_Status (start_event sid n i t) = StatusTestCaseStart"
  "ev_Status (test_event sid n i tc r t) =
     (if er_Verdict r = VerdictAccepted then StatusTestCasePassed else StatusTestCaseFailed)"
  "ev_Status (running_event sid n c t) = StatusRunning"
  "ev_Status (completed_event sid n c ta t) = StatusCompleted"
  "ev_Status (failed_event sid v d c t) = StatusFailed"
  "ev_Status (compiling_event sid t) = StatusCompiling"
  by (simp_all add: start_event_def test_event_def running_event_def completed_event_def
      failed_event_def compiling_event_def event_of_def)

lemma test_events_running: "list_all (\<lambda>e. \<not> terminal (ev_Status e)) (test_events sid n i tcs rs)"
  by (induction sid n i tcs rs rule: test_events.induct) (simp_all add: terminal_def)

lemma announce_running: "list_all (\<lambda>e. \<not> terminal (ev_Status e)) (announce sid lang)"
  by (simp add: announce_def terminal_def)

lemma failed_run_ends:
  "failed_run job pre evs ss \<Longrightarrow> list_all (\<lambda>e. \<not> terminal (ev_Status e)) pre \<Longrightarrow> ends_once evs"
  by (auto simp: failed_run_def ends_once_def terminal_def)

lemma completed_run_ends:
  "completed_run job req pre evs ss \<Longrightarrow> list_all (\<lambda>e. \<not> terminal (ev_Status e)) pre \<Longrightarrow> ends_once evs"
  using test_events_running
  by (auto simp: completed_run_def ends_once_def Let_def butlast_append) (simp_all add: terminal_def)

lemma processed_ends_once: "processed h job evs ss \<Longrightarrow> ends_once evs"
  by (auto simp: processed_def intro: failed_run_ends completed_run_ends announce_running)

text \<open>The last state saved agrees with the last event and is the only trace in the store.\<close>

lemma strip_same:
  "strip y = strip s \<Longrightarrow> ss_SubmissionID y = ss_SubmissionID s \<and> ss_Status y = ss_Status s \<and>
     ss_Verdict y = ss_Verdict s \<and> ss_CompletedAt y = ss_CompletedAt s \<and>
     ss_PassedTestCases y = ss_PassedTestCases s \<and> ss_TotalTestCases y = ss_TotalTestCases s \<and>
     ss_Results y = ss_Results s \<and> ss_Compilation y = ss_Compilation s"
  by (cases y; cases s) (simp add: strip_def)

lemma failed_state_simps [simp]:
  "ss_SubmissionID (failed_state i l n v d c t) = i" "ss_Status (failed_state i l n v d c t) = StatusFailed"
  "ss_Verdict (failed_state i l n v d c t) = v" "ss_CompletedAt (failed_state i l n v d c t) = Some t"
  "ss_Results (failed_state i l n v d c t) = []"
  by (simp_all add: failed_state_def state_of_def)

lemma completed_state_simps [simp]:
  "ss_SubmissionID (completed_state s ta t) = ss_SubmissionID s"
  "ss_Status (completed_state s ta t) = StatusCompleted"
  "ss_Verdict (completed_state s ta t) = ta_overallVerdict ta"
  "ss_CompletedAt (completed_state s ta t) = Some t"
  "ss_PassedTestCases (completed_state s ta t) = ta_passedTests ta"
  "ss_Results (completed_state s ta t) = ta_Results ta"
  "ss_TotalTestCases (completed_state s ta t) = ss_TotalTestCases s"
  by (simp_all add: completed_state_def)

lemma running_state_simps [simp]:
  "ss_SubmissionID (running_state job c t) = job_SubmissionID job"
  "ss_TotalTestCases (running_state job c t) = int (length (job_tests job))"
  by (simp_all add: running_state_def state_of_def)

lemma event_verdict [simp]:
  "ev_Verdict (unstamped e) = ev_Verdict e" "ev_Verdict (failed_event i v d c t) = v"
  "ev_Verdict (completed_event i n c ta t) = ta_overallVerdict ta"
  by (simp_all add: unstamped_def failed_event_def completed_event_def event_of_def)

lemma processed_final_state:
  assumes "processed h job evs ss" and "map strip ys = map strip ss"
  obtains s where "foldl save_in m ys = m(job_SubmissionID job \<mapsto> s)" and "strip s = strip (last ss)"
    and "ss_Status s = ev_Status (last evs)" and "ss_Verdict s = ev_Verdict (last evs)"
    and "ss_CompletedAt s \<noteq> None"
proof -
  note found = that
  have failed: thesis if f: "failed_run job pre evs ss" for pre
  proof -
    obtain y where y: "ys = [y]" "strip y = strip (hd ss)"
      using f assms(2) by (auto simp: failed_run_def)
    show thesis using f strip_same [OF y(2)] y
      by (intro found [of y]) (auto simp: failed_run_def save_in_def)
  qed
  have completed: thesis if c: "completed_run job req pre evs ss" for req pre
  proof -
    obtain u y where y: "ys = [u, y]" "strip u = strip (hd ss)" "strip y = strip (last ss)"
      using c assms(2) by (auto simp: completed_run_def Let_def)
    show thesis using c strip_same [OF y(2)] strip_same [OF y(3)] y
      by (intro found [of y]) (auto simp: completed_run_def Let_def save_in_def)
  qed
  show thesis using assms(1) failed completed unfolding processed_def by blast
qed

lemma last_unstamped:
  "xs \<noteq> [] \<Longrightarrow> ev_Status (last (map unstamped xs)) = ev_Status (last xs)"
  "xs \<noteq> [] \<Longrightarrow> ev_Verdict (last (map unstamped xs)) = ev_Verdict (last xs)"
  by (simp_all add: last_map)

lemma ends_once_unstamped: "ends_once (map unstamped xs) \<longleftrightarrow> ends_once xs"
  by (cases "xs = []")
    (simp_all add: ends_once_def last_unstamped map_butlast [symmetric] list.pred_map comp_def)

text \<open>
  What the final state reports of each test, and the limits a job runs under: \<open>item_ok\<close> is what a
  reader of the stored result may conclude, with no reference to how it was computed.
\<close>

definition clamp :: "int \<Rightarrow> int \<Rightarrow> int \<Rightarrow> int" where
  "clamp d most x = (if x \<le> 0 then d else min most x)"

definition item_ok :: "int \<Rightarrow> TestCase \<Rightarrow> TestCaseResult \<Rightarrow> bool" where
  "item_ok limit tc it \<longleftrightarrow>
     tr_TestCaseID it = tc_ID tc \<and>
     (tr_Verdict it = VerdictAccepted \<longrightarrow>
        tr_ExitCode it = 0 \<and> \<not> tr_OOMKilled it \<and> \<not> flt (float_of_int limit) (tr_WallTimeMs it) \<and>
        (tc_ExpectedOutput tc \<noteq> [] \<longrightarrow>
           TrimRight (tr_Stdout it) [CHR 0x0D, CHR 0x0A] = TrimRight (tc_ExpectedOutput tc) [CHR 0x0D, CHR 0x0A])) \<and>
     (tc_IsHidden tc \<and> tr_Verdict it \<noteq> VerdictAccepted \<longrightarrow>
        tr_Stdout it = ''[Hidden Testcase]'' \<and> tr_Stderr it = ''[Hidden Testcase]'')"

definition result_items :: "TestCase list \<Rightarrow> ExecutionResult list \<Rightarrow> TestCaseResult list" where
  "result_items tcs rs = map (\<lambda>k. result_item (1 + int k) (tcs ! k) (rs ! k)) [0..<length tcs]"

lemma result_items_ok:
  assumes "list_all2 (test_ok sid limit) tcs rs"
  shows "list_all2 (item_ok limit) tcs (result_items tcs rs)"
    "map tr_Verdict (result_items tcs rs) = map er_Verdict rs"
    "map tr_Index (result_items tcs rs) = map (\<lambda>k. 1 + int k) [0..<length tcs]"
proof -
  have len: "length rs = length tcs" using assms by (simp add: list_all2_lengthD)
  have "item_ok limit (tcs ! k) (result_item (1 + int k) (tcs ! k) (rs ! k))" if "k < length tcs" for k
    using list_all2_nthD [OF assms that]
    by (auto simp: test_ok_def item_ok_def result_item_def shown_def hidden_text_def)
  then show "list_all2 (item_ok limit) tcs (result_items tcs rs)"
    by (simp add: result_items_def list_all2_conv_all_nth)
  show "map tr_Verdict (result_items tcs rs) = map er_Verdict rs"
    using len by (intro nth_equalityI) (simp_all add: result_items_def result_item_def)
  show "map tr_Index (result_items tcs rs) = map (\<lambda>k. 1 + int k) [0..<length tcs]"
    by (simp add: result_items_def result_item_def comp_def)
qed

lemma job_limit:
  "req_TimeLimitMs (normalize_fields h i (exec_request job)) = clamp 2000 10000 (job_TimeLimitMs job)"
  by (simp add: normalize_fields_def exec_request_def clamp_def limit_defs)

definition reports :: "SubmissionJob \<Rightarrow> SubmissionState \<Rightarrow> bool" where
  "reports job s \<longleftrightarrow>
     ss_Status s = StatusFailed \<and> ss_Verdict s \<in> {VerdictSystemError, VerdictCompilationError} \<and>
       ss_Results s = [] \<or>
     ss_Status s = StatusCompleted \<and> ss_TotalTestCases s = int (length (job_tests job)) \<and>
       list_all2 (item_ok (clamp 2000 10000 (job_TimeLimitMs job))) (job_tests job) (ss_Results s) \<and>
       map tr_Index (ss_Results s) = map (\<lambda>k. 1 + int k) [0..<length (job_tests job)] \<and>
       ss_Verdict s = first_failure (map tr_Verdict (ss_Results s)) \<and>
       ss_PassedTestCases s = passed (map tr_Verdict (ss_Results s))"

lemma processed_report:
  assumes "processed h job evs ss"
  shows "reports job (last ss)"
proof -
  have failed: ?thesis if "failed_run job pre evs ss" for pre
    using that by (auto simp: failed_run_def reports_def)
  have completed: ?thesis
    if c: "completed_run job (normalize_fields h (job_SubmissionID job) (exec_request job)) pre evs ss" for pre
  proof -
    let ?limit = "clamp 2000 10000 (job_TimeLimitMs job)"
    obtain cr rs t now where rs: "list_all2 (test_ok (job_SubmissionID job) ?limit) (job_tests job) rs"
      and ss: "ss = [running_state job cr t,
        completed_state (running_state job cr t) (tally_all 1 (job_tests job) rs tally0) now]"
      using c by (auto simp: completed_run_def Let_def job_limit)
    have len: "length (job_tests job) = length rs" using rs by (rule list_all2_lengthD)
    show ?thesis
      using result_items_ok [OF rs] tally_all_verdict [OF len, of 1 tally0] tally_all_passed [OF len, of 1 tally0]
        tally_all_results [OF len, of 1 tally0]
      by (simp add: reports_def ss tally0_def result_items_def)
  qed
  show ?thesis using assms(1) failed completed unfolding processed_def by blast
qed

lemma reports_strip: "strip y = strip s \<Longrightarrow> reports job y \<longleftrightarrow> reports job s"
  using strip_same [of y s] by (simp add: reports_def)

section \<open>The in-memory environment\<close>

lemma mb_Publish_frame:
  assumes "run_state (mb_Publish h sid (Some ev)) w = (r, w')"
  shows "ms_lookup w' = ms_lookup w"
  using assms by (elim mb_Publish_run) (simp add: ms_lookup_def)

interpretation wm: worker_env "MemoryEventBus_ops h :: 'z mem_world_scheme EventBus" sid "mb_seen c"
    "take 64" "\<lambda>w. mb_subscribed sid c (w_bus w)" "MemoryStore_ops h" ms_lookup "\<lambda>_. True" for h sid c
  by unfold_locales
    (auto simp: MemoryEventBus_ops_def MemoryStore_ops_def ms_SaveState_run mb_seen_def ms_lookup_def
      dest: mb_Publish_frame [unfolded ms_lookup_def])

lemma memory_ProcessJob:
  assumes "mb_subscribed (job_SubmissionID job) c (w_bus w)" and "job_SubmissionID job \<noteq> []"
    and "run_state (ProcessJob (MemoryEventBus_ops h) (MemoryStore_ops h) h (Some job)) w = (r, w')"
  obtains evs ss where "r = None" and "processed h job evs ss"
    and "transits (mb_seen c) (take 64) ms_lookup w w' evs ss"
proof -
  note e = wm.emit_ProcessJob [OF refl assms(2), of c h h]
  from e [unfolded emits_def, rule_format, OF _ assms(3)] assms(1) show thesis
    using that by blast
qed

lemma memory_final_state:
  assumes "mb_subscribed (job_SubmissionID job) c (w_bus w)" and "job_SubmissionID job \<noteq> []"
    and "run_state (ProcessJob (MemoryEventBus_ops h) (MemoryStore_ops h) h (Some job)) w = (r, w')"
  obtains evs ss xs s where "r = None" and "processed h job evs ss"
    and "mb_seen c w' = take 64 (mb_seen c w @ xs)" and "map unstamped xs = evs"
    and "ms_lookup w' = (ms_lookup w)(job_SubmissionID job \<mapsto> s)" and "strip s = strip (last ss)"
    and "ss_Status s = ev_Status (last evs)" and "ss_Verdict s = ev_Verdict (last evs)"
    and "ss_CompletedAt s \<noteq> None"
proof -
  obtain evs ss where r: "r = None" and p: "processed h job evs ss"
    and t: "transits (mb_seen c) (take 64) ms_lookup w w' evs ss"
    using memory_ProcessJob [OF assms] .
  obtain xs where xs: "mb_seen c w' = take 64 (mb_seen c w @ xs)" "map unstamped xs = evs"
    using t unfolding transits_def by blast
  obtain ys where ys: "ms_lookup w' = foldl save_in (ms_lookup w) ys" "map strip ys = map strip ss"
    using t unfolding transits_def by blast
  from processed_final_state [OF p ys(2), of "ms_lookup w"] show thesis
    using that [OF r p xs] ys(1) by metis
qed

section \<open>Without subscribers\<close>

text \<open>
  The same environment with an observer that sees no events, for any bus in good order; its invariant
  pins the queue, so processing a job leaves the queue alone.
\<close>

lemma mb_Publish_queue:
  assumes "run_state (mb_Publish h sid (Some ev)) w = (r, w')" and "mb_ok (w_bus w)"
  shows "r = None" "w_queue w' = w_queue w" "mb_ok (w_bus w')"
  using assms publish_step_ok [OF assms(2)] mb_ok_publish [OF assms(2)] by (auto elim!: mb_Publish_run)

interpretation wq: worker_env "MemoryEventBus_ops h :: 'z mem_world_scheme EventBus" sid "\<lambda>_. []" "\<lambda>_. []"
    "\<lambda>w. mb_ok (w_bus w) \<and> w_queue w = m" "MemoryStore_ops h" ms_lookup "\<lambda>_. True" for h sid m
  by unfold_locales
    (auto simp: MemoryEventBus_ops_def MemoryStore_ops_def ms_SaveState_run ms_lookup_def
      dest: mb_Publish_queue mb_Publish_frame [unfolded ms_lookup_def])

lemma memory_process:
  assumes "mb_ok (w_bus w)" and "job_SubmissionID job \<noteq> []"
    and "run_state (ProcessJob (MemoryEventBus_ops h) (MemoryStore_ops h) h (Some job)) w = (r, w')"
  obtains s where "r = None" and "mb_ok (w_bus w')" and "w_queue w' = w_queue w"
    and "ms_lookup w' = (ms_lookup w)(job_SubmissionID job \<mapsto> s)"
    and "terminal (ss_Status s)" and "ss_CompletedAt s \<noteq> None" and "reports job s"
proof -
  note e = wq.emit_ProcessJob [OF refl assms(2), of "w_queue w" h h]
  from e [unfolded emits_def, rule_format, OF _ assms(3)] assms(1)
  obtain evs ss where w': "mb_ok (w_bus w')" "w_queue w' = w_queue w" and r: "r = None"
    and p: "processed h job evs ss" and t: "transits (\<lambda>_. []) (\<lambda>_. []) ms_lookup w w' evs ss"
    by blast
  obtain ys where ys: "ms_lookup w' = foldl save_in (ms_lookup w) ys" "map strip ys = map strip ss"
    using t unfolding transits_def by blast
  obtain s where s: "foldl save_in (ms_lookup w) ys = (ms_lookup w)(job_SubmissionID job \<mapsto> s)"
      "ss_Status s = ev_Status (last evs)" "ss_CompletedAt s \<noteq> None" "strip s = strip (last ss)"
    by (rule processed_final_state [OF p ys(2)])
  have "terminal (ss_Status s)"
    using processed_ends_once [OF p] s(2) by (simp add: ends_once_def)
  moreover have "reports job s" using processed_report [OF p] by (simp only: reports_strip [OF s(4)])
  ultimately show thesis using r w' s(1,3) ys(1) by (intro that [of s]) simp_all
qed

section \<open>A recovered panic\<close>

text \<open>
  The deferred function of \<open>ProcessJob\<close> runs only when its body panics, which none of the operations
  modelled here does on a bus in good order.  If something does, the submission is still reported
  as failed: in the store, to its subscriber and to the caller.
\<close>

context worker_env
begin

lemma emit_recover_panic:
  assumes "sid = job_SubmissionID job"
  shows "emit (recover_panic bus st h job r stack)
    (\<lambda>e evs ss. e = Some (ErrNew (''worker panic: '' @ r)) \<and>
       (\<exists>ev s. evs = [ev] \<and> ss = [s] \<and> ev_Status ev = StatusFailed \<and> ev_Verdict ev = VerdictSystemError \<and>
          ss_SubmissionID s = sid \<and> ss_Status s = StatusFailed \<and> ss_Verdict s = VerdictSystemError))"
  unfolding recover_panic_def Let_def assms [symmetric]
  apply (rule emits_mono)
   apply (rule emit_rules | intro io_frame)+
  apply (auto simp: state_of_def event_of_def)
  done

end

lemma recover_panic_reports:
  assumes "mb_subscribed (job_SubmissionID job) c (w_bus w)"
    and "run_state (recover_panic (MemoryEventBus_ops h) (MemoryStore_ops h) h job r stack) w = (e, w')"
  shows "e = Some (ErrNew (''worker panic: '' @ r)) \<and>
    (\<exists>s. ms_lookup w' = (ms_lookup w)(job_SubmissionID job \<mapsto> s) \<and> ss_Status s = StatusFailed \<and>
       ss_Verdict s = VerdictSystemError) \<and>
    (\<exists>ev. mb_seen c w' = take 64 (mb_seen c w @ [ev]) \<and> ev_Status ev = StatusFailed \<and>
       ev_Verdict ev = VerdictSystemError)"
proof -
  note em = wm.emit_recover_panic [OF refl, of c job h h r stack]
  from em [unfolded emits_def, rule_format, OF _ assms(2)] assms(1)
  obtain ev s where e: "e = Some (ErrNew (''worker panic: '' @ r))"
    and ev: "ev_Status ev = StatusFailed" "ev_Verdict ev = VerdictSystemError"
    and s: "ss_SubmissionID s = job_SubmissionID job" "ss_Status s = StatusFailed" "ss_Verdict s = VerdictSystemError"
    and t: "transits (mb_seen c) (take 64) ms_lookup w w' [ev] [s]" by auto
  obtain x where x: "mb_seen c w' = take 64 (mb_seen c w @ [x])" "unstamped x = ev"
    using t unfolding transits_def by auto
  obtain y where y: "ms_lookup w' = save_in (ms_lookup w) y" "strip y = strip s"
    using t unfolding transits_def by (auto simp: foldl_Cons)
  have "ev_Status x = StatusFailed" "ev_Verdict x = VerdictSystemError"
    using ev x(2) by (auto simp: unstamped_def)
  with e x(1) y(1) s strip_same [OF y(2)] show ?thesis unfolding save_in_def by auto
qed

end
