(* ===== verification/Redis_Queue.thy ===== *)
theory Redis_Queue
  imports Queue "HOL-Library.Sublist"
begin

text \<open>
  \<^verbatim>\<open>queue/redis_queue.go\<close>: the job queue on a Redis list.  The operations issue the Redis commands
  the code issues.  Gateway and workers are separate programs that share the list, so what the server
  does is a history of effects of all its clients; \<open>redis_server\<close> is what Redis documents for \<^verbatim>\<open>LPUSH\<close> and
  \<^verbatim>\<open>BRPOP\<close> about that history, and promises nothing about a command that failed.
\<close>

section \<open>Operations\<close>

definition DefaultRedisQueueKey :: string where
  "DefaultRedisQueueKey = ''speedcode:queue:submissions''"

record RedisQueue =
  rq_codec :: "SubmissionJob codec"
  rq_queueKey :: string

definition NewRedisQueue :: "SubmissionJob codec \<Rightarrow> string \<Rightarrow> RedisQueue" where
  "NewRedisQueue client queueKey =
     \<lparr>rq_codec = client, rq_queueKey = (if queueKey = [] then DefaultRedisQueueKey else queueKey)\<rparr>"

definition rq_Enqueue ::
  "host \<Rightarrow> RedisQueue \<Rightarrow> SubmissionJob option \<Rightarrow> ('z world_scheme, goerror option) state" where
  "rq_Enqueue h r job =
     (case job of
        None \<Rightarrow> ret (Some (ErrNew ''cannot enqueue nil job''))
      | Some j \<Rightarrow> do {
          j' \<leftarrow> job_Normalize h j;
          (case cd_Marshal (rq_codec r) j' of
             Inl e \<Rightarrow> ret (Some (ErrWrap ''failed to marshal job payload: '' e))
           | Inr data \<Rightarrow> io_err h (RedisLPush (rq_queueKey r) data))
        })"

definition rq_Dequeue ::
  "host \<Rightarrow> RedisQueue \<Rightarrow> int \<Rightarrow> ('z world_scheme, goerror + SubmissionJob) state" where
  "rq_Dequeue h r timeout = do {
     res \<leftarrow> perform (RedisBRPop (rq_queueKey r) timeout) (\<lambda>tr. h_redisPop h tr (rq_queueKey r));
     (case res of
        Inl e \<Rightarrow>
          if errors_Is e ErrRedisNil then ret (Inl ErrQueueEmpty)
          else do {
            ctx \<leftarrow> perform CtxErr (h_ctxErr h);
            ret (Inl (if ctx \<noteq> None then ErrQueueEmpty else ErrWrap ''redis dequeue failed: '' e))
          }
      | Inr vs \<Rightarrow>
          ret (if length vs < 2 then Inl ErrQueueEmpty
               else (case cd_Unmarshal (rq_codec r) (vs ! 1) of
                       Inl e \<Rightarrow> Inl (ErrWrap ''failed to unmarshal job payload: '' e)
                     | Inr j \<Rightarrow> Inr j)))
   }"

definition rq_QueueDepth :: "host \<Rightarrow> RedisQueue \<Rightarrow> ('z world_scheme, goerror + int) state" where
  "rq_QueueDepth h r = perform (RedisLLen (rq_queueKey r)) (\<lambda>tr. h_redisLen h tr (rq_queueKey r))"

definition rq_Close :: "host \<Rightarrow> ('z world_scheme, goerror option) state" where
  "rq_Close h = io_err h RedisClose"

definition RedisQueue_ops :: "host \<Rightarrow> RedisQueue \<Rightarrow> 'z world_scheme JobQueue" where
  "RedisQueue_ops h r =
     \<lparr>jq_Enqueue = (\<lambda>j. rq_Enqueue h r (Some j)), jq_Dequeue = rq_Dequeue h r,
      jq_QueueDepth = rq_QueueDepth h r, jq_Close = rq_Close h\<rparr>"

section \<open>What Redis promises\<close>

text \<open>
  The server executes commands one after the other.  The history of a list whose clients use only
  the two commands of this queue consists of elements pushed at the left end and popped at the right
  end; \<open>list_from l E\<close> is the list after the events \<open>E\<close> and \<open>lawful_from l E\<close> says that
  every pop took the rightmost element.
\<close>

datatype list_event = Pushed string | Popped string

fun list_from :: "string list \<Rightarrow> list_event list \<Rightarrow> string list" where
  "list_from l [] = l"
| "list_from l (Pushed v # E) = list_from (v # l) E"
| "list_from l (Popped v # E) = list_from (butlast l) E"

fun lawful_from :: "string list \<Rightarrow> list_event list \<Rightarrow> bool" where
  "lawful_from l [] \<longleftrightarrow> True"
| "lawful_from l (Pushed v # E) \<longleftrightarrow> lawful_from (v # l) E"
| "lawful_from l (Popped v # E) \<longleftrightarrow> l \<noteq> [] \<and> last l = v \<and> lawful_from (butlast l) E"

fun pushes :: "list_event list \<Rightarrow> string list" where
  "pushes [] = []"
| "pushes (Pushed v # E) = v # pushes E"
| "pushes (Popped v # E) = pushes E"

fun pops :: "list_event list \<Rightarrow> string list" where
  "pops [] = []"
| "pops (Pushed v # E) = pops E"
| "pops (Popped v # E) = v # pops E"

text \<open>
  \<open>srv tr\<close> is the history of the list at the moment this program has made the calls \<open>tr\<close>: it only
  grows and is lawful; when \<^verbatim>\<open>LPUSH\<close> succeeds its element was pushed during the call, and when \<^verbatim>\<open>BRPOP\<close>
  succeeds it answers with the key and an element popped during the call.  Other clients may push and
  pop during any call, and a command that failed may have had its effect or not.
\<close>

definition redis_server :: "host \<Rightarrow> string \<Rightarrow> (io_op list \<Rightarrow> list_event list) \<Rightarrow> bool" where
  "redis_server h key srv \<longleftrightarrow>
     (\<forall>tr. lawful_from [] (srv tr)) \<and>
     (\<forall>tr op. \<exists>E. srv (tr @ [op]) = srv tr @ E) \<and>
     (\<forall>tr v. h_err h tr (RedisLPush key v) = None \<longrightarrow>
        (\<exists>E. srv (tr @ [RedisLPush key v]) = srv tr @ E \<and> v \<in> set (pushes E))) \<and>
     (\<forall>tr timeout vs. h_redisPop h tr key = Inr vs \<longrightarrow>
        (\<exists>E v. srv (tr @ [RedisBRPop key timeout]) = srv tr @ E \<and> vs = [key, v] \<and> v \<in> set (pops E)))"

lemma redis_serverD:
  assumes "redis_server h key srv"
  shows "lawful_from [] (srv tr)"
    and "h_err h tr (RedisLPush key v) = None \<Longrightarrow>
      \<exists>E. srv (tr @ [RedisLPush key v]) = srv tr @ E \<and> v \<in> set (pushes E)"
    and "h_redisPop h tr key = Inr vs \<Longrightarrow>
      \<exists>E v. srv (tr @ [RedisBRPop key timeout]) = srv tr @ E \<and> vs = [key, v] \<and> v \<in> set (pops E)"
  using assms unfolding redis_server_def by blast+

lemma redis_server_grows:
  assumes "redis_server h key srv"
  shows "\<exists>E. srv (tr @ ops) = srv tr @ E"
proof (induction ops rule: rev_induct)
  case (snoc op ops)
  moreover obtain E where "srv ((tr @ ops) @ [op]) = srv (tr @ ops) @ E"
    using assms unfolding redis_server_def by blast
  ultimately show ?case by auto
qed simp

lemma event_append [simp]:
  "pushes (E @ F) = pushes E @ pushes F" "pops (E @ F) = pops E @ pops F"
  by (induction E rule: pushes.induct) simp_all

lemma in_pops: "v \<in> set (pops E) \<longleftrightarrow> Popped v \<in> set E"
  by (induction E rule: pops.induct) auto

lemma list_from_append [simp]:
  "list_from l (E @ F) = list_from (list_from l E) F"
  "lawful_from l (E @ F) \<longleftrightarrow> lawful_from l E \<and> lawful_from (list_from l E) F"
  by (induction l E rule: list_from.induct) simp_all

lemma rev_last: "l \<noteq> [] \<Longrightarrow> rev l = last l # rev (butlast l)"
  by (metis append_butlast_last_id rev.simps(2) rev_rev_ident rev_swap)

text \<open>First in, first out: whoever pops gets what was there and was pushed, in that order.\<close>

lemma lawful_fifo:
  "lawful_from l E \<Longrightarrow> rev l @ pushes E = pops E @ rev (list_from l E)"
proof (induction l E rule: lawful_from.induct)
  case (3 l v E)
  then have l: "rev l = v # rev (butlast l)" using rev_last [of l] by auto
  from 3 show ?case unfolding l by simp
qed simp_all

section \<open>What the operations contribute\<close>

text \<open>
  One call of the queue, seen in the history of the list: a job that was accepted is among the
  elements pushed during the call, with its defaults filled in, and a job that was taken is
  among those popped.
\<close>

definition pushed_as :: "RedisQueue \<Rightarrow> SubmissionJob \<Rightarrow> string \<Rightarrow> bool" where
  "pushed_as r j v \<longleftrightarrow> (\<exists>t. cd_Unmarshal (rq_codec r) v = Inr (job_defaults j t))"

definition popped_as :: "RedisQueue \<Rightarrow> SubmissionJob \<Rightarrow> string \<Rightarrow> bool" where
  "popped_as r j v \<longleftrightarrow> cd_Unmarshal (rq_codec r) v = Inr j"

definition contributes ::
  "RedisQueue \<Rightarrow> list_event list \<Rightarrow> SubmissionJob list \<Rightarrow> SubmissionJob list \<Rightarrow> bool" where
  "contributes r E accepted taken \<longleftrightarrow>
     (\<exists>vs. subseq vs (pushes E) \<and> list_all2 (pushed_as r) accepted vs) \<and>
     (\<exists>us. subseq us (pops E) \<and> list_all2 (popped_as r) taken us)"

lemma contributes_simps [simp]:
  "contributes r E [] []"
  "contributes r E [j] [] \<longleftrightarrow> (\<exists>v \<in> set (pushes E). pushed_as r j v)"
  "contributes r E [] [j] \<longleftrightarrow> (\<exists>v \<in> set (pops E). popped_as r j v)"
proof -
  have "(\<exists>vs. subseq vs xs \<and> list_all2 P [j] vs) \<longleftrightarrow> (\<exists>v \<in> set xs. P j v)" for P :: "SubmissionJob \<Rightarrow> string \<Rightarrow> bool" and xs
    by (auto simp: list_all2_Cons1 simp flip: subseq_singleton_left)
  then show "contributes r E [] []"
      "contributes r E [j] [] \<longleftrightarrow> (\<exists>v \<in> set (pushes E). pushed_as r j v)"
      "contributes r E [] [j] \<longleftrightarrow> (\<exists>v \<in> set (pops E). popped_as r j v)"
    by (auto simp: contributes_def)
qed

lemma contributes_append:
  assumes "contributes r E a t" and "contributes r F a' t'"
  shows "contributes r (E @ F) (a @ a') (t @ t')"
proof -
  obtain vs us vs' us' where "subseq vs (pushes E)" "list_all2 (pushed_as r) a vs"
    "subseq us (pops E)" "list_all2 (popped_as r) t us"
    "subseq vs' (pushes F)" "list_all2 (pushed_as r) a' vs'"
    "subseq us' (pops F)" "list_all2 (popped_as r) t' us'"
    using assms unfolding contributes_def by blast
  then show ?thesis unfolding contributes_def
    by (intro conjI exI [of _ "vs @ vs'"] exI [of _ "us @ us'"]) (simp_all add: list_emb_append_mono list_all2_appendI)
qed

lemma contributes_later:
  assumes "contributes r F a t" shows "contributes r (E @ F) a t"
  using contributes_append [of r E "[]" "[]" F a t] assms by simp

lemma rq_Enqueue_pushes:
  assumes c: "codec_faithful job_utf8 (rq_codec r)" and s: "redis_server h (rq_queueKey r) srv"
    and j: "job_utf8 j" and run: "run_state (rq_Enqueue h r (Some j)) w = (res, w')"
  shows "\<exists>E. srv (w_trace w') = srv (w_trace w) @ E \<and> contributes r E (if res = None then [j] else []) []"
proof -
  obtain t ops where n: "run_state (job_Normalize h j) w = (job_defaults j t, w\<lparr>w_trace := w_trace w @ ops\<rparr>)"
    using job_Normalize_run by blast
  obtain E where E: "srv (w_trace w @ ops) = srv (w_trace w) @ E" using redis_server_grows [OF s] by blast
  show ?thesis
  proof (cases "cd_Marshal (rq_codec r) (job_defaults j t)")
    case (Inl e)
    with run E show ?thesis by (auto simp: rq_Enqueue_def n)
  next
    case (Inr v)
    let ?op = "RedisLPush (rq_queueKey r) v"
    have w': "w' = w\<lparr>w_trace := (w_trace w @ ops) @ [?op]\<rparr>" "res = h_err h (w_trace w @ ops) ?op"
      using run by (simp_all add: rq_Enqueue_def n Inr)
    have "pushed_as r j v"
      using codec_faithfulD [OF c job_utf8_defaults [OF j] Inr] unfolding pushed_as_def by blast
    moreover obtain F where "srv ((w_trace w @ ops) @ [?op]) = srv (w_trace w @ ops) @ F"
        "res = None \<longrightarrow> v \<in> set (pushes F)"
      using redis_serverD(2) [OF s, of "w_trace w @ ops" v] redis_server_grows [OF s, of "w_trace w @ ops" "[?op]"] w'(2)
      by (cases res) auto
    ultimately show ?thesis using E w'(1) by (intro exI [of _ "E @ F"]) auto
  qed
qed

lemma rq_Dequeue_pops:
  assumes s: "redis_server h (rq_queueKey r) srv" and run: "run_state (rq_Dequeue h r timeout) w = (res, w')"
  shows "\<exists>E. srv (w_trace w') = srv (w_trace w) @ E \<and>
    contributes r E [] (case res of Inr j \<Rightarrow> [j] | Inl _ \<Rightarrow> [])"
proof (cases "h_redisPop h (w_trace w) (rq_queueKey r)")
  case (Inl e)
  then obtain ops e' where "w_trace w' = w_trace w @ ops" "res = Inl e'"
    using run by (auto simp: rq_Dequeue_def split: if_splits)
  then show ?thesis using redis_server_grows [OF s, of "w_trace w" ops] by auto
next
  case (Inr vs)
  let ?op = "RedisBRPop (rq_queueKey r) timeout"
  obtain E v where E: "srv (w_trace w @ [?op]) = srv (w_trace w) @ E" "vs = [rq_queueKey r, v]" "v \<in> set (pops E)"
    using redis_serverD(3) [OF s Inr] by blast
  from run have "w_trace w' = w_trace w @ [?op]" by (auto simp: rq_Dequeue_def Inr)
  moreover have "popped_as r j v" if "res = Inr j" for j
    using run that by (auto simp: rq_Dequeue_def Inr E(2) popped_as_def split: sum.splits)
  ultimately show ?thesis using E by (intro exI [of _ E]) (auto split: sum.splits)
qed

lemma redis_call:
  assumes c: "codec_faithful job_utf8 (rq_codec r)" and s: "redis_server h (rq_queueKey r) srv"
    and "list_all job_utf8 (call_jobs [c])" and run: "run_state (queue_do (RedisQueue_ops h r) c) w = ((a, t), w')"
  shows "\<exists>E. srv (w_trace w') = srv (w_trace w) @ E \<and> contributes r E a t"
proof (cases c)
  case (CallEnqueue j)
  then show ?thesis
    using assms(3) run rq_Enqueue_pushes [OF assms(1,2), of j w]
    by (auto simp: call_jobs_def RedisQueue_ops_def split: prod.splits if_splits)
next
  case (CallDequeue timeout)
  then show ?thesis
    using run rq_Dequeue_pops [OF s, of timeout w]
    by (auto simp: RedisQueue_ops_def split: prod.splits)
next
  case CallDepth
  then show ?thesis
    using run redis_server_grows [OF s, of "w_trace w"] by (auto simp: RedisQueue_ops_def rq_QueueDepth_def)
next
  case CallClose
  then show ?thesis
    using run redis_server_grows [OF s, of "w_trace w"] by (auto simp: RedisQueue_ops_def rq_Close_def)
qed

lemma redis_calls:
  assumes "codec_faithful job_utf8 (rq_codec r)" and "redis_server h (rq_queueKey r) srv"
    and "list_all job_utf8 (call_jobs cs)"
    and "run_state (run_calls (RedisQueue_ops h r) cs) w = ((accepted, taken), w')"
  shows "\<exists>E. srv (w_trace w') = srv (w_trace w) @ E \<and> contributes r E accepted taken"
  using assms(3,4)
proof (induction cs arbitrary: w accepted taken)
  case (Cons c cs)
  obtain a t w1 where 1: "run_state (queue_do (RedisQueue_ops h r) c) w = ((a, t), w1)" by (metis prod.exhaust)
  obtain as ts where 2: "run_state (run_calls (RedisQueue_ops h r) cs) w1 = ((as, ts), w')"
    and at: "accepted = a @ as" "taken = t @ ts"
    using Cons.prems(2) 1 by (auto split: prod.splits)
  have cs: "list_all job_utf8 (call_jobs [c])" "list_all job_utf8 (call_jobs cs)"
    using Cons.prems(1) by (simp_all add: call_jobs_def)
  obtain E F where "srv (w_trace w1) = srv (w_trace w) @ E" "contributes r E a t"
      "srv (w_trace w') = srv (w_trace w1) @ F" "contributes r F as ts"
    using redis_call [OF assms(1,2) cs(1) 1] Cons.IH [OF cs(2) 2] by blast
  then show ?case unfolding at by (intro exI [of _ "E @ F"] conjI contributes_append) simp_all
qed simp

end
