(* ===== verification/Redis_Bus.thy ===== *)
theory Redis_Bus
  imports Events
begin

text \<open>
  \<^verbatim>\<open>events/redis_bus.go\<close>: the event bus on Redis Pub/Sub.  \<open>Publish\<close> meets the publisher's contract;
  a subscription is a reader goroutine that forwards decoded messages into a channel until it is
  cancelled, modelled step by step together with the cleanup function another goroutine may call.
\<close>

section \<open>Operations\<close>

definition RedisEventChannelPrefix :: string where
  "RedisEventChannelPrefix = ''speedcode:events:''"

definition rb_Publish ::
  "host \<Rightarrow> ExecutionEvent codec \<Rightarrow> string \<Rightarrow> ExecutionEvent option \<Rightarrow>
   ('z world_scheme, goerror option) state" where
  "rb_Publish h json sid event =
     (case event of
        None \<Rightarrow> ret None
      | Some ev \<Rightarrow> do {
          ev' \<leftarrow> stamp h sid ev;
          (case cd_Marshal json ev' of
             Inl e \<Rightarrow> ret (Some (ErrWrap ''failed to marshal event: '' e))
           | Inr data \<Rightarrow> io_err h (RedisPublish (RedisEventChannelPrefix @ sid) data))
        })"

text \<open>The part of \<open>Subscribe\<close> that runs before the reader starts; the address of the channel is 0.\<close>

definition rb_Subscribe :: "host \<Rightarrow> string \<Rightarrow> ('z world_scheme, goerror + nat) state" where
  "rb_Subscribe h sid = do {
     let channel = RedisEventChannelPrefix @ sid;
     e \<leftarrow> io_err h (RedisSubscribe channel);
     (case e of
        Some err \<Rightarrow> do {
          io_do (PubSubClose channel);
          ret (Inl (ErrWrap ''failed to subscribe to redis pubsub: '' err))
        }
      | None \<Rightarrow> ret (Inr 0))
   }"

definition rb_Close :: "host \<Rightarrow> ('z world_scheme, goerror option) state" where
  "rb_Close h = io_err h RedisClose"

definition rb_cleanup :: "string \<Rightarrow> nat \<Rightarrow> ('z world_scheme, goerror option) state" where
  "rb_cleanup sid c = do { io_do (PubSubClose (RedisEventChannelPrefix @ sid)); ret None }"

definition RedisEventBus_ops :: "host \<Rightarrow> ExecutionEvent codec \<Rightarrow> 'z world_scheme EventBus" where
  "RedisEventBus_ops h json =
     \<lparr>eb_Publish = (\<lambda>sid ev. rb_Publish h json sid (Some ev)), eb_Subscribe = rb_Subscribe h,
      eb_Cancel = rb_cleanup, eb_Close = rb_Close h\<rparr>"

section \<open>The publisher's contract\<close>

text \<open>The messages sent on a channel: the payloads of the commands that succeeded.\<close>

fun redis_messages :: "host \<Rightarrow> string \<Rightarrow> io_op list \<Rightarrow> io_op list \<Rightarrow> string list" where
  "redis_messages h ch tr [] = []"
| "redis_messages h ch tr (op # ops) =
     (case op of
        RedisPublish k v \<Rightarrow> if k = ch \<and> h_err h tr op = None then [v] else []
      | _ \<Rightarrow> []) @ redis_messages h ch (tr @ [op]) ops"

lemma redis_messages_append:
  "redis_messages h ch tr (ops @ ops') = redis_messages h ch tr ops @ redis_messages h ch (tr @ ops) ops'"
  by (induction ops arbitrary: tr) simp_all

definition decode_messages :: "ExecutionEvent codec \<Rightarrow> string list \<Rightarrow> ExecutionEvent list" where
  "decode_messages json vs =
     concat (map (\<lambda>v. case cd_Unmarshal json v of Inr ev \<Rightarrow> [ev] | Inl _ \<Rightarrow> []) vs)"

definition rb_seen :: "host \<Rightarrow> ExecutionEvent codec \<Rightarrow> string \<Rightarrow> 'z world_scheme \<Rightarrow> ExecutionEvent list" where
  "rb_seen h json sid w =
     decode_messages json (redis_messages h (RedisEventChannelPrefix @ sid) [] (w_trace w))"

lemma rb_Publish_bus:
  assumes c: "codec_faithful ev_utf8 json" and ev: "ev_utf8 ev" and sid: "utf8_valid sid"
    and run: "run_state (rb_Publish h json sid (Some ev)) w = (r, w')"
  shows "\<exists>t. rb_seen h json sid w' = rb_seen h json sid w @ (if r = None then [stamp_event sid t ev] else [])"
proof -
  obtain t ops where n:
    "run_state (stamp h sid ev) w = (stamp_event sid t ev, w\<lparr>w_trace := w_trace w @ ops\<rparr>)"
    and ops: "ops = (if IsZero (ev_Timestamp ev) then [Now] else [])"
    using stamp_run by blast
  have quiet: "redis_messages h ch tr ops = []" for ch tr by (simp add: ops)
  from run show ?thesis
    by (cases "cd_Marshal json (stamp_event sid t ev)")
      (auto simp: rb_Publish_def n rb_seen_def decode_messages_def redis_messages_append quiet
        codec_faithfulD [OF c ev_utf8_stamp [OF sid ev]])
qed

lemma redis_event_bus:
  assumes "codec_faithful ev_utf8 json" and "utf8_valid sid"
  shows "event_bus (RedisEventBus_ops h json :: 'z world_scheme EventBus) sid ev_utf8
    (rb_seen h json sid) (\<lambda>xs. xs) (\<lambda>_. True)"
proof unfold_locales
  fix w w' :: "'z world_scheme" and ev r
  assume "ev_utf8 ev" "run_state (eb_Publish (RedisEventBus_ops h json) sid ev) w = (r, w')"
  with rb_Publish_bus [OF assms(1) _ assms(2), of ev h w r w']
  show "True \<and> (\<exists>t. rb_seen h json sid w' =
      rb_seen h json sid w @ (if r = None then [stamp_event sid t ev] else []))"
    by (simp add: RedisEventBus_ops_def)
qed simp_all

section \<open>The reader goroutine\<close>

datatype reader_pc = Receiving | Sending ExecutionEvent | Exited

record rb_sub =
  rs_ch :: "ExecutionEvent chan"
  rs_once :: bool
  rs_pc :: reader_pc
  rs_got :: "ExecutionEvent list"
  rs_msgs :: "string list"
  rs_panic :: bool

definition rb_sub_init :: rb_sub where
  "rb_sub_init =
     \<lparr>rs_ch = make_chan 64, rs_once = False, rs_pc = Receiving, rs_got = [], rs_msgs = [],
      rs_panic = False\<rparr>"

text \<open>The cleanup closure: once only, close the subscription and the channel.\<close>

definition rb_clean :: "rb_sub \<Rightarrow> rb_sub" where
  "rb_clean s =
     (if rs_once s then s
      else (case chan_close (rs_ch s) of
              Some c \<Rightarrow> s\<lparr>rs_once := True, rs_ch := c\<rparr>
            | None \<Rightarrow> s\<lparr>rs_once := True, rs_panic := True\<rparr>))"

inductive rb_step :: "ExecutionEvent codec \<Rightarrow> rb_sub \<Rightarrow> rb_sub \<Rightarrow> bool" for json where
  Message: "rs_pc s = Receiving \<Longrightarrow> cd_Unmarshal json v = Inr ev \<Longrightarrow>
    rb_step json s (s\<lparr>rs_pc := Sending ev, rs_msgs := rs_msgs s @ [v]\<rparr>)"
| BadMessage: "rs_pc s = Receiving \<Longrightarrow> cd_Unmarshal json v = Inl e \<Longrightarrow>
    rb_step json s (s\<lparr>rs_msgs := rs_msgs s @ [v]\<rparr>)"
| Forward: "rs_pc s = Sending ev \<Longrightarrow> chan_send ev (rs_ch s) = Sent c \<Longrightarrow>
    rb_step json s (s\<lparr>rs_ch := c, rs_pc := Receiving\<rparr>)"
| ForwardClosed: "rs_pc s = Sending ev \<Longrightarrow> chan_send ev (rs_ch s) = SendPanic \<Longrightarrow>
    rb_step json s (s\<lparr>rs_pc := Exited, rs_panic := True\<rparr>)"
| Stop: "rs_pc s \<noteq> Exited \<Longrightarrow> rb_step json s ((rb_clean s)\<lparr>rs_pc := Exited\<rparr>)"
| Cancel: "rb_step json s (rb_clean s)"
| Consume: "chan_recv (rs_ch s) = Received ev c \<Longrightarrow>
    rb_step json s (s\<lparr>rs_ch := c, rs_got := rs_got s @ [ev]\<rparr>)"

inductive rb_reach :: "ExecutionEvent codec \<Rightarrow> rb_sub \<Rightarrow> bool" for json where
  rb_start: "rb_reach json rb_sub_init"
| rb_next: "rb_reach json s \<Longrightarrow> rb_step json s s' \<Longrightarrow> rb_reach json s'"

text \<open>
  What was received and what is buffered is a prefix of the decoded messages, in order, and
  everything but the event in hand while the reader lives; a panic needs a cancelled subscription.
\<close>

definition rb_inv :: "ExecutionEvent codec \<Rightarrow> rb_sub \<Rightarrow> bool" where
  "rb_inv json s \<longleftrightarrow>
     (rs_once s \<longleftrightarrow> ch_closed (rs_ch s)) \<and> (rs_panic s \<longrightarrow> rs_once s) \<and>
     (case rs_pc s of
        Receiving \<Rightarrow> rs_got s @ ch_buf (rs_ch s) = decode_messages json (rs_msgs s)
      | Sending ev \<Rightarrow> rs_got s @ ch_buf (rs_ch s) @ [ev] = decode_messages json (rs_msgs s)
      | Exited \<Rightarrow> prefix (rs_got s @ ch_buf (rs_ch s)) (decode_messages json (rs_msgs s)))"

lemma rb_clean_simps [simp]:
  "ch_buf (rs_ch (rb_clean s)) = ch_buf (rs_ch s)" "rs_got (rb_clean s) = rs_got s"
  "rs_msgs (rb_clean s) = rs_msgs s" "rs_pc (rb_clean s) = rs_pc s" "rs_once (rb_clean s)"
  by (auto simp: rb_clean_def chan_close_def)

lemma rb_clean_flags:
  "(rs_once s \<longleftrightarrow> ch_closed (rs_ch s)) \<Longrightarrow> ch_closed (rs_ch (rb_clean s)) \<and> rs_panic (rb_clean s) = rs_panic s"
  by (auto simp: rb_clean_def chan_close_def)

lemma decode_messages_snoc [simp]:
  "decode_messages json (vs @ [v]) =
     decode_messages json vs @ (case cd_Unmarshal json v of Inr ev \<Rightarrow> [ev] | Inl _ \<Rightarrow> [])"
  by (simp add: decode_messages_def)

lemma rb_inv_prefix:
  "rb_inv json s \<Longrightarrow> prefix (rs_got s @ ch_buf (rs_ch s)) (decode_messages json (rs_msgs s))"
  by (cases "rs_pc s") (simp_all add: rb_inv_def, metis append_assoc prefixI)

lemma rb_inv_step: "rb_step json s s' \<Longrightarrow> rb_inv json s \<Longrightarrow> rb_inv json s'"
proof (induction rule: rb_step.induct)
  case (Stop s)
  with rb_inv_prefix [OF Stop.prems] show ?case
    using rb_clean_flags [of s] by (auto simp: rb_inv_def)
next
  case (ForwardClosed s ev)
  with rb_inv_prefix [OF ForwardClosed.prems] show ?case
    by (auto simp: rb_inv_def chan_send_def split: if_splits)
next
  case (Cancel s)
  then show ?case using rb_clean_flags [of s] by (auto simp: rb_inv_def split: reader_pc.splits)
next
  case (Consume s ev c)
  with chan_recv_frame [OF Consume.hyps] show ?case
    by (auto simp: rb_inv_def split: reader_pc.splits)
qed (auto simp: rb_inv_def chan_send_Sent chan_send_def split: if_splits)

lemma rb_reach_inv: "rb_reach json s \<Longrightarrow> rb_inv json s"
proof (induction rule: rb_reach.induct)
  case rb_start
  show ?case by (simp add: rb_inv_def rb_sub_init_def make_chan_def decode_messages_def)
next
  case (rb_next s s')
  then show ?case by (blast intro: rb_inv_step)
qed

end
