(* ===== verification/Engine.thy ===== *)
theory Engine
  imports Sandbox_Select
begin

text \<open>
  Package \<^verbatim>\<open>engine\<close>: one request through normalization, language lookup, backend selection,
  preparation, compilation and execution, with the workspace removed on every path after
  preparation.  Proved once against the backend contract: the engine always answers with a judged
  result for the request, and an accepted result is trustworthy.
\<close>

definition engine_failure :: "host \<Rightarrow> ExecutionResult \<Rightarrow> ('z world_scheme, ExecutionResult) state" where
  "engine_failure h res = do { t \<leftarrow> io_now h; ret (res\<lparr>er_ExecutedAt := t\<rparr>) }"

definition system_error :: "ExecutionRequest \<Rightarrow> string \<Rightarrow> string \<Rightarrow> ExecutionResult" where
  "system_error req backend details =
     ExecutionResult_zero\<lparr>er_ID := req_ID req, er_Verdict := VerdictSystemError,
       er_ErrorDetails := details, er_SandboxBackend := backend\<rparr>"

definition compile_crash :: "ExecutionRequest \<Rightarrow> string \<Rightarrow> goerror \<Rightarrow> ExecutionResult" where
  "compile_crash req backend e =
     ExecutionResult_zero\<lparr>er_ID := req_ID req, er_Verdict := VerdictCompilationError,
       er_ErrorDetails := ''compilation execution error: '' @ err_Error e, er_SandboxBackend := backend\<rparr>"

definition compile_failure :: "ExecutionRequest \<Rightarrow> string \<Rightarrow> CompilationResult \<Rightarrow> ExecutionResult" where
  "compile_failure req backend cr =
     ExecutionResult_zero\<lparr>er_ID := req_ID req, er_Verdict := VerdictCompilationError,
       er_ExitCode := comp_ExitCode cr, er_Stdout := comp_Stdout cr, er_Stderr := comp_Stderr cr,
       er_Compilation := Some cr, er_SandboxBackend := backend\<rparr>"

definition execute_phase ::
  "host \<Rightarrow> ('z world_scheme) sandbox \<Rightarrow> ExecutionRequest \<Rightarrow> SandboxContext \<Rightarrow> ('z world_scheme, ExecutionResult) state" where
  "execute_phase h sb req sCtx = do {
     r \<leftarrow> sb_Execute sb sCtx;
     (case r of
        Inl e \<Rightarrow> engine_failure h (system_error req (sb_Name sb) (''execution failed: '' @ err_Error e))
      | Inr res \<Rightarrow> ret res)
   }"

text \<open>Phases 4 and 5, between a successful \<open>Prepare\<close> and the deferred \<open>Cleanup\<close>.\<close>

definition engine_body ::
  "host \<Rightarrow> ('z world_scheme) sandbox \<Rightarrow> ExecutionRequest \<Rightarrow> LanguageHandler \<Rightarrow> SandboxContext \<Rightarrow>
   ('z world_scheme, ExecutionResult) state" where
  "engine_body h sb req lang sCtx =
     (if lh_NeedsCompilation lang then do {
        c \<leftarrow> sb_Compile sb sCtx;
        (case c of
           Inl e \<Rightarrow> engine_failure h (compile_crash req (sb_Name sb) e)
         | Inr cr \<Rightarrow>
             if \<not> comp_Success cr then engine_failure h (compile_failure req (sb_Name sb) cr)
             else execute_phase h sb req sCtx)
      }
      else execute_phase h sb req sCtx)"

definition run_in_sandbox ::
  "host \<Rightarrow> ('z world_scheme) sandbox \<Rightarrow> ExecutionRequest \<Rightarrow> LanguageHandler \<Rightarrow>
   ('z world_scheme, ExecutionResult) state" where
  "run_in_sandbox h sb req lang = do {
     p \<leftarrow> sb_Prepare sb req lang;
     (case p of
        Inl e \<Rightarrow> engine_failure h
          (system_error req (sb_Name sb) (''failed to prepare sandbox: '' @ err_Error e))
      | Inr sCtx \<Rightarrow> do {
          res \<leftarrow> engine_body h sb req lang sCtx;
          _ \<leftarrow> sb_Cleanup sb sCtx;
          ret res
        })
   }"

text \<open>Phase 2: the request's preference first, the engine's own as a fallback.\<close>

definition engine_select ::
  "host \<Rightarrow> string \<Rightarrow> string \<Rightarrow> ('z world_scheme, goerror + ('z world_scheme) sandbox) state" where
  "engine_select h backend preference = do {
     s \<leftarrow> SelectSandbox h preference;
     (case s of
        Inr sb \<Rightarrow> ret (Inr sb)
      | Inl e \<Rightarrow> if backend \<noteq> [] then SelectSandbox h backend else ret (Inl e))
   }"

definition Run ::
  "host \<Rightarrow> string \<Rightarrow> ExecutionRequest option \<Rightarrow> ('z world_scheme, goerror + ExecutionResult) state" where
  "Run h backend request =
     (case request of
        None \<Rightarrow> ret (Inl (ErrNew ''execution request cannot be nil''))
      | Some r \<Rightarrow> do {
          req \<leftarrow> Normalize h r;
          res \<leftarrow> (case Get h (init_registry h) (req_Language req) of
             Inl e \<Rightarrow> engine_failure h (system_error req [] (err_Error e))
           | Inr lang \<Rightarrow> do {
               s \<leftarrow> engine_select h backend (req_SandboxType req);
               (case s of
                  Inl e \<Rightarrow> engine_failure h
                    (system_error req [] (''failed to select sandbox: '' @ err_Error e))
                | Inr sb \<Rightarrow> run_in_sandbox h sb req lang)
             });
          ret (Inr res)
        })"

section \<open>Proved against the backend contract\<close>

text \<open>What every answer of the engine satisfies.\<close>

definition judged :: "ExecutionRequest \<Rightarrow> ExecutionResult \<Rightarrow> bool" where
  "judged req res \<longleftrightarrow>
     er_ID res = req_ID req \<and>
     er_Verdict res \<in> insert VerdictSystemError (insert VerdictCompilationError run_verdicts) \<and>
     (er_Verdict res = VerdictAccepted \<longrightarrow> accepted_ok req res) \<and>
     (er_Verdict res \<in> run_verdicts \<longrightarrow>
        length (er_Stdout res) \<le> cap_of (req_MaxOutputBytes req) \<and>
        length (er_Stderr res) \<le> cap_of (req_MaxOutputBytes req))"

lemma judged_failure:
  "judged req (fst (run_state (engine_failure h (system_error req b d)) w))"
  "judged req (fst (run_state (engine_failure h (compile_crash req b e)) w))"
  "judged req (fst (run_state (engine_failure h (compile_failure req b cr)) w))"
  by (simp_all add: engine_failure_def system_error_def compile_crash_def compile_failure_def
      judged_def run_verdicts_def)

lemma io_only_engine_failure [io_frame]: "io_only (engine_failure h res)"
  unfolding engine_failure_def by (intro io_frame)

lemma io_only_engine_select [io_frame]: "io_only (engine_select h b p)"
  unfolding engine_select_def by (intro io_frame)

context sandbox_backend
begin

lemma execute_phase_judged:
  assumes "sc_ID ctx = req_ID req" and "sc_Request ctx = req"
  shows "judged req (fst (run_state (execute_phase h sb req ctx) w))"
proof (cases "run_state (sb_Execute sb ctx) w")
  case (Pair r w')
  show ?thesis
  proof (cases r)
    case (Inl e)
    with Pair show ?thesis by (simp add: execute_phase_def judged_failure)
  next
    case (Inr res)
    note run = Pair [unfolded Inr]
    show ?thesis
      using Pair Inr assms execute_id [OF run] execute_verdict [OF run] execute_bounded [OF run]
        execute_accepted [OF run]
      by (auto simp: execute_phase_def judged_def)
  qed
qed

lemma engine_body_judged:
  assumes "sc_ID ctx = req_ID req" and "sc_Request ctx = req"
  shows "judged req (fst (run_state (engine_body h sb req lang ctx) w))"
  using execute_phase_judged [OF assms]
  by (auto simp: engine_body_def judged_failure split_def split: sum.splits)

lemma run_in_sandbox_judged: "judged req (fst (run_state (run_in_sandbox h sb req lang) w))"
proof (cases "run_state (sb_Prepare sb req lang) w")
  case (Pair p w')
  show ?thesis
  proof (cases p)
    case (Inl e)
    with Pair show ?thesis by (simp add: run_in_sandbox_def judged_failure)
  next
    case (Inr ctx)
    with prepare_ctx [OF Pair [unfolded Inr]] Pair show ?thesis
      by (simp add: run_in_sandbox_def engine_body_judged split_def)
  qed
qed

lemma io_execute_phase: "io_only (execute_phase h sb req ctx)"
  unfolding execute_phase_def by (intro io_frame io_execute)

lemma io_engine_body: "io_only (engine_body h sb req lang ctx)"
  unfolding engine_body_def by (intro io_frame io_compile io_execute_phase)

text \<open>The body runs between preparation and cleanup, and cleanup comes last.\<close>

lemma run_in_sandbox_cleans:
  assumes "run_state (sb_Prepare sb req lang) w = (Inr ctx, w1)"
    and "run_state (run_in_sandbox h sb req lang) w = (res, w')"
  obtains w2 e where "run_state (engine_body h sb req lang ctx) w1 = (res, w2)"
    and "run_state (sb_Cleanup sb ctx) w2 = (e, w')"
  using assms that by (auto simp: run_in_sandbox_def split: prod.splits)

end

lemma engine_select_backend:
  assumes "run_state (engine_select h b p) w = (Inr sb, w')"
  shows "sandbox_backend sb"
  using assms
  by (auto simp: engine_select_def split: prod.splits sum.splits if_splits
      dest: SelectSandbox_backend)

lemma Run_judged:
  "\<exists>res. fst (run_state (Run h b (Some r)) w) = Inr res \<and>
     judged (fst (run_state (Normalize h r) w)) res"
proof -
  obtain req w1 where n: "run_state (Normalize h r) w = (req, w1)" by force
  show ?thesis
  proof (cases "Get h (init_registry h) (req_Language req)")
    case (Inl e)
    then show ?thesis by (simp add: Run_def n split_def judged_failure)
  next
    case (Inr lang)
    obtain s w2 where s: "run_state (engine_select h b (req_SandboxType req)) w1 = (s, w2)" by force
    show ?thesis
    proof (cases s)
      case (Inl e)
      with Inr s show ?thesis by (simp add: Run_def n split_def judged_failure)
    next
      case (Inr sb)
      from engine_select_backend [OF s [unfolded Inr]]
      have "judged req (fst (run_state (run_in_sandbox h sb req lang) w2))"
        by (rule sandbox_backend.run_in_sandbox_judged)
      with \<open>Get h (init_registry h) (req_Language req) = Inr lang\<close> Inr s show ?thesis
        by (simp add: Run_def n split_def)
    qed
  qed
qed

end
