(* ===== verification/Sample_Host.thy ===== *)
theory Sample_Host
  imports Worker_Correct Memory_Queue Redis_Queue Redis_Bus Engine
begin

text \<open>
  A concrete host, job and world at which the properties are instantiated: a Linux machine on
  which every call succeeds and every program ends at once with the output \<^verbatim>\<open>ok\<close>, a Python
  submission, and the in-memory services with one subscriber; a host whose programs fail with
  output, and a Redis server.
\<close>

definition sample_proc :: proc where
  "sample_proc = \<lparr>pr_Err = None, pr_Stdout = [''ok''], pr_Stderr = []\<rparr>"

definition sample_host :: host where
  "sample_host =
     \<lparr>h_goos = ''linux'', h_unicodeLower = (\<lambda>s. s), h_floatToInt = (\<lambda>_. 0),
      h_formatTime = (\<lambda>_ _. ''20250101000000''), h_timeJSON = (\<lambda>_. ''2025-01-01T00:00:00Z''),
      h_now = (\<lambda>_. 1), h_rand = (\<lambda>_ _. Inr ''abcdefgh''),
      h_uuid = (\<lambda>_. ''01234567-89ab-4cde-8f01-23456789abcd''), h_getenv = (\<lambda>_ _. []),
      h_hostname = (\<lambda>_. Inr ''node''), h_geteuid = (\<lambda>_. 0), h_numcpu = (\<lambda>_. 4),
      h_statfs = (\<lambda>_ _. Inr 0x63677270), h_mkdirTemp = (\<lambda>_ _. Inr ''/tmp/ws''),
      h_err = (\<lambda>_ _. None), h_read = (\<lambda>_ _. Inr []), h_run = (\<lambda>_ _. sample_proc),
      h_ctxErr = (\<lambda>_. None), h_select = (\<lambda>_. 2), h_start = (\<lambda>_ _. Inr 7),
      h_wait = (\<lambda>_ _. (False, sample_proc)), h_rusage = (\<lambda>_ _. None),
      h_parseInspect = (\<lambda>_. Inr []), h_redisPop = (\<lambda>_ _. Inl ErrRedisNil),
      h_redisLen = (\<lambda>_ _. Inl (ErrHost ''connection refused'')),
      h_redisGet = (\<lambda>_ _. Inl ErrRedisNil)\<rparr>"

definition sample_test :: TestCase where
  "sample_test = \<lparr>tc_ID = ''t1'', tc_Input = [], tc_ExpectedOutput = ''ok'', tc_IsHidden = True\<rparr>"

definition sample_job :: SubmissionJob where
  "sample_job =
     \<lparr>job_SubmissionID = ''sub-1'', job_Language = ''python3'', job_Code = ''print(1)'',
      job_TimeLimitMs = 1000, job_MemoryLimitMB = 64, job_CpuQuota = Fin 1, job_PidsLimit = 16,
      job_MaxOutputBytes = 1024, job_SandboxType = ''dev'', job_TestCases = [sample_test],
      job_EnqueuedAt = 1\<rparr>"

definition sample_request :: ExecutionRequest where
  "sample_request = exec_request sample_job"

text \<open>Channel 0 is subscribed to the sample submission.\<close>

definition sample_bus :: MemoryEventBus where
  "sample_bus = snd (subscribe_step ''sub-1'' NewMemoryEventBus)"

definition sample_world :: mem_world where
  "sample_world =
     \<lparr>w_trace = [], w_nextCore = 0, w_queue = NewMemoryQueue 2, w_bus = sample_bus,
      w_store = NewMemoryStore\<rparr>"

lemma sample_subscribed: "mb_subscribed ''sub-1'' 0 (w_bus sample_world)"
proof -
  have "mb_ok sample_bus" unfolding sample_bus_def by (rule mb_ok_subscribe) simp
  moreover have "\<not> mb_closed sample_bus" "subs_of ''sub-1'' sample_bus = [0]"
    by (simp_all add: sample_bus_def subscribe_step_def NewMemoryEventBus_def subs_of_def)
  ultimately show ?thesis by (simp add: mb_subscribed_def sample_world_def)
qed

section \<open>A job whose test fails\<close>

text \<open>
  The same machine, on which every program prints something and ends with exit code 1: the result
  of the sample job is evaluated up to its verdict.
\<close>

definition leak_host :: host where
  "leak_host = sample_host
     \<lparr>h_run := (\<lambda>_ _. \<lparr>pr_Err = Some (ErrExit 1), pr_Stdout = [''secret''], pr_Stderr = [''trace'']\<rparr>)\<rparr>"

lemma leak_python: "Get leak_host (init_registry leak_host) ''python3'' = Inr PythonHandler"
proof -
  have 1: "ToLower (h_unicodeLower leak_host) (TrimSpace ''python3'') = ''python3''"
    "ToLower (h_unicodeLower leak_host) ''python3'' = ''python3''" by code_simp+
  have 2: "lh_Name PythonHandler = ''python3''" by (simp add: PythonHandler_def)
  show ?thesis by (simp add: Get_def init_registry_def Register_def 1 2 update_conv)
qed

lemma leak_select:
  "run_state (SelectSandbox leak_host ''dev'') w =
    (Inr (DevProcessSandbox leak_host), w\<lparr>w_trace := w_trace w @ [Getenv ''RUNNER_IMAGE'']\<rparr>)"
  by (simp add: SelectSandbox_def select_from_def prefs_defs NewDockerSandbox_def)

lemma leak_verdict:
  "er_Verdict (dev_result ctx (h_run leak_host tr cmd) wall to t) \<noteq> VerdictAccepted"
  by (simp add: dev_result_def Let_def dev_verdict_accepted leak_host_def)

lemma lookup_io:
  assumes "io_only m"
  shows "ms_lookup (snd (run_state m w)) = ms_lookup w"
proof -
  obtain ops c where "snd (run_state m w) = w\<lparr>w_trace := w_trace w @ ops, w_nextCore := c\<rparr>"
    using io_only_E [OF assms, of w] by blast
  then show ?thesis by (simp add: ms_lookup_def)
qed

lemma lookup_publish:
  "ms_lookup (snd (run_state (eb_Publish (MemoryEventBus_ops h) sid ev) w)) = ms_lookup w"
  using mb_Publish_frame [OF surjective_pairing] by (simp add: MemoryEventBus_ops_def)

lemma lookup_save:
  "ms_lookup (snd (run_state (st_SaveState (MemoryStore_ops h) s) w)) =
    (ms_lookup w)(ss_SubmissionID s \<mapsto> s\<lparr>ss_UpdatedAt := h_now h (w_trace w)\<rparr>)"
  by (simp add: MemoryStore_ops_def ms_SaveState_run ms_lookup_def)

lemma leak_run_test:
  "er_Verdict (fst (run_state (run_test bus leak_host (DevProcessSandbox leak_host) sid n i tc ctx) w)) \<noteq>
     VerdictAccepted"
  by (simp add: run_test_def split_def DevProcessSandbox_def dev_Execute_def leak_verdict)

lemma leak_evaluate:
  assumes "job_tests job = [tc]"
  shows "\<exists>s it. ms_lookup (snd (run_state (evaluate (MemoryEventBus_ops leak_host) (MemoryStore_ops leak_host)
      leak_host (DevProcessSandbox leak_host) job ctx c) w)) (job_SubmissionID job) = Some s \<and>
    ss_Results s = [it] \<and> tr_Verdict it \<noteq> VerdictAccepted"
  by (simp add: evaluate_def assms Let_def split_def lookup_publish lookup_save lookup_io [OF io_only_audit_verdict]
     lookup_io [OF io_only_RecordSubmissionMetrics] tally_step_def tally0_def result_item_def leak_run_test)

lemma leak_prepares:
  obtains ctx where "fst (run_state (dev_Prepare leak_host req lang) w) = Inr ctx"
  by (simp add: dev_Prepare_def WriteSourceFile_def leak_host_def sample_host_def Let_def)

lemma leak_results:
  "\<exists>s it. ms_lookup (snd (run_state (ProcessJob (MemoryEventBus_ops leak_host) (MemoryStore_ops leak_host)
       leak_host (Some sample_job)) w)) ''sub-1'' = Some s \<and>
     ss_Results s = [it] \<and> tr_Verdict it \<noteq> VerdictAccepted"
proof -
  have 1: "job_tests sample_job = [sample_test]" "job_SubmissionID sample_job = ''sub-1''"
      "job_Language sample_job = ''python3''" "job_SandboxType sample_job = ''dev''" "\<not> lh_NeedsCompilation PythonHandler"
    by (simp_all add: job_tests_def sample_job_def PythonHandler_def)
  have 2: "sb_Prepare (DevProcessSandbox leak_host) = dev_Prepare leak_host" by (simp add: DevProcessSandbox_def)
  have 3: "ms_lookup (snd (run_state (sb_Cleanup (DevProcessSandbox leak_host) ctx) w)) = ms_lookup w" for ctx and w :: "'a mem_world_scheme"
    by (intro lookup_io dev.io_cleanup)
  let ?u = "w\<lparr>w_trace := w_trace w @ [Getenv ''RUNNER_IMAGE'']\<rparr>"
  obtain req v where n: "run_state (Normalize leak_host (exec_request sample_job)) ?u = (req, v)" by force
  obtain ctx where "fst (run_state (dev_Prepare leak_host req PythonHandler) v) = Inr ctx" by (rule leak_prepares)
  then obtain v' where p: "run_state (dev_Prepare leak_host req PythonHandler) v = (Inr ctx, v')" by (metis prod.collapse)
  show ?thesis
    using leak_evaluate [OF 1(1), of ctx None v']
    by (simp add: ProcessJob_def leak_python 1 leak_select process_in_def n 2 p compile_then_evaluate_def split_def 3)
qed

section \<open>A Redis that behaves as documented\<close>

text \<open>
  A server whose only client is the program, so the history of a list follows from the calls made;
  a store with expiry left out; and codecs for the sample values.
\<close>

definition model_event :: "string \<Rightarrow> string list \<Rightarrow> io_op \<Rightarrow> list_event list" where
  "model_event key l op =
     (case op of
        RedisLPush k v \<Rightarrow> if k = key then [Pushed v] else []
      | RedisBRPop k t \<Rightarrow> if k = key \<and> l \<noteq> [] then [Popped (last l)] else []
      | _ \<Rightarrow> [])"

definition model_history :: "string \<Rightarrow> io_op list \<Rightarrow> list_event list" where
  "model_history key tr = foldl (\<lambda>E op. E @ model_event key (list_from [] E) op) [] tr"

definition model_list :: "string \<Rightarrow> io_op list \<Rightarrow> string list" where
  "model_list key tr = list_from [] (model_history key tr)"

definition redis_host :: host where
  "redis_host = sample_host
     \<lparr>h_redisPop := (\<lambda>tr k. if model_list k tr = [] then Inl ErrRedisNil else Inr [k, last (model_list k tr)]),
      h_redisLen := (\<lambda>tr k. Inr (int (length (model_list k tr)))),
      h_redisGet := (\<lambda>tr k. case redis_value sample_host k [] tr None of Some d \<Rightarrow> Inr d | None \<Rightarrow> Inl ErrRedisNil)\<rparr>"

lemma model_history_snoc:
  "model_history key (tr @ [op]) = model_history key tr @ model_event key (model_list key tr) op"
  by (simp add: model_history_def model_list_def)

lemma model_history_lawful: "lawful_from [] (model_history key tr)"
proof (induction tr rule: rev_induct)
  case (snoc op tr)
  then show ?case
    by (cases op) (simp_all add: model_history_snoc model_event_def model_list_def)
qed (simp add: model_history_def)

lemma redis_host_server: "redis_server redis_host key (model_history key)"
  by (auto simp: redis_server_def model_history_lawful model_history_snoc model_event_def redis_host_def
      split: if_splits)

lemma redis_value_host: "redis_value redis_host k tr ops v = redis_value sample_host k tr ops v"
  by (induction sample_host k tr ops v rule: redis_value.induct)
    (simp_all add: redis_host_def sample_host_def cong: io_op.case_cong)

lemma redis_host_strings: "redis_strings redis_host"
  unfolding redis_strings_def redis_value_host by (auto simp: redis_host_def split: option.splits)

definition one_codec :: "'a \<Rightarrow> string \<Rightarrow> 'a codec" where
  "one_codec x text =
     \<lparr>cd_Marshal = (\<lambda>y. if y = x then Inr text else Inl (ErrNew ''unsupported value'')),
      cd_Unmarshal = (\<lambda>s. if s = text then Inr x else Inl (ErrNew ''syntax error''))\<rparr>"

lemma one_codec_faithful: "codec_faithful P (one_codec x text)"
  by (simp add: codec_faithful_def one_codec_def)

definition sample_redis_queue :: RedisQueue where
  "sample_redis_queue = NewRedisQueue (one_codec sample_job ''J'') []"

lemma sample_redis_calls:
  "fst (run_state (run_calls (RedisQueue_ops redis_host sample_redis_queue) [CallEnqueue sample_job, CallDequeue 5])
     world0) = ([sample_job], [sample_job])"
proof -
  have j: "run_state (job_Normalize redis_host sample_job) w = (sample_job, w)" for w :: world
    by (simp add: job_Normalize_def job_defaults_def sample_job_def IsZero_def fle_def)
  have "model_history k [RedisLPush k ''J''] = [Pushed ''J'']" for k
    by (simp add: model_history_def model_event_def)
  then have pop: "h_redisPop redis_host [RedisLPush k ''J''] k = Inr [k, ''J'']" for k
    by (simp add: redis_host_def model_list_def)
  have err: "h_err redis_host tr op = None" for tr op by (simp add: redis_host_def sample_host_def)
  show ?thesis
    by (simp add: RedisQueue_ops_def rq_Enqueue_def rq_Dequeue_def j pop err sample_redis_queue_def NewRedisQueue_def
        one_codec_def world0_def)
qed

definition sample_state :: SubmissionState where
  "sample_state = state_of ''sub-1'' StatusQueued VerdictAccepted ''python3'' 1"

definition sample_redis_store :: RedisStore where
  "sample_redis_store = NewRedisStore (one_codec (sample_state\<lparr>ss_UpdatedAt := 1\<rparr>) ''S'') 0"

definition sample_codec :: "ExecutionEvent codec" where
  "sample_codec = one_codec (event_of ''sub-1'' StatusRunning 1) ''E''"

lemma sample_codec_decodes:
  "cd_Unmarshal sample_codec ''E'' = Inr (event_of ''sub-1'' StatusRunning 1)"
  by (simp add: sample_codec_def one_codec_def)

section \<open>Reachable states\<close>

lemma q_reach_pending: "\<exists>s. q_reach 3 s \<and> mq_pending (qs_m s) \<noteq> []"
proof -
  let ?s0 = "qsys_init 3"
  let ?s1 = "?s0\<lparr>qs_enq := (qs_enq ?s0)(0 := Some sample_job)\<rparr>"
  have 1: "q_step ?s0 ?s1" by (rule EnqueueCheck) (simp_all add: qsys_init_def NewMemoryQueue_def)
  obtain m where sel: "enqueue_select False None (job_defaults sample_job 1) (qs_m ?s1) = (None, m)"
      and m: "mq_pending m \<noteq> []"
    by (simp add: enqueue_select_def chan_send_def qsys_init_def NewMemoryQueue_def make_chan_def mq_pending_def)
  have "qs_enq ?s1 0 = Some sample_job" and "ctx_error None" by (simp_all add: ctx_error_def)
  note 2 = EnqueueSelect [OF this sel]
  show ?thesis
    by (rule exI, rule conjI, rule q_next [OF q_next [OF q_start 1] 2]) (simp add: m)
qed

lemma rb_reach_buffered: "\<exists>s. rb_reach sample_codec s \<and> ch_buf (rs_ch s) \<noteq> []"
proof -
  let ?ev = "event_of ''sub-1'' StatusRunning 1"
  let ?s0 = rb_sub_init
  let ?s1 = "?s0\<lparr>rs_pc := Sending ?ev, rs_msgs := rs_msgs ?s0 @ [''E'']\<rparr>"
  have 1: "rb_step sample_codec ?s0 ?s1"
    by (rule Message) (simp_all add: rb_sub_init_def sample_codec_decodes)
  obtain c where c: "chan_send ?ev (rs_ch ?s1) = Sent c" "ch_buf c \<noteq> []"
    by (simp add: rb_sub_init_def make_chan_def chan_send_def)
  have "rs_pc ?s1 = Sending ?ev" by simp
  then have 2: "rb_step sample_codec ?s1 (?s1\<lparr>rs_ch := c, rs_pc := Receiving\<rparr>)" using c(1) by (rule Forward)
  from rb_next [OF rb_next [OF rb_start 1] 2] c(2) show ?thesis by (intro exI conjI) (assumption, simp)
qed

end
