(* ===== verification/Metrics.thy ===== *)
theory Metrics
  imports Security
begin

text \<open>
  \<^verbatim>\<open>metrics/prometheus.go\<close>: the collectors the program registers.  The recording functions, which the
  worker calls, are in \<^verbatim>\<open>Security\<close> beside the audit log; here they are shown to use registered
  collectors with the right number of labels, which is what keeps the Prometheus library from
  panicking.
\<close>

section \<open>Collectors\<close>

datatype collector_kind = CounterKind | GaugeKind | HistogramKind "float64 list"

record collector =
  co_Namespace :: string
  co_Name :: string
  co_Help :: string
  co_Kind :: collector_kind
  co_Labels :: "string list"

definition fq_name :: "collector \<Rightarrow> string" where
  "fq_name c = co_Namespace c @ ''_'' @ co_Name c"

definition SubmissionsTotal :: collector where
  "SubmissionsTotal =
     \<lparr>co_Namespace = ''speedcode'', co_Name = ''submissions_total'',
      co_Help = ''Total number of code submissions processed by the execution engine.'',
      co_Kind = CounterKind, co_Labels = [''language'', ''verdict'', ''sandbox_backend'']\<rparr>"

definition QueueDepth_gauge :: collector where
  "QueueDepth_gauge =
     \<lparr>co_Namespace = ''speedcode'', co_Name = ''queue_depth'',
      co_Help = ''Current count of submissions waiting in the task queue.'',
      co_Kind = GaugeKind, co_Labels = []\<rparr>"

definition duration_buckets :: "float64 list" where
  "duration_buckets = map fl [1 / 100, 1 / 40, 1 / 20, 1 / 10, 1 / 4, 1 / 2, 1, 2, 5, 10]"

definition ExecutionDuration :: collector where
  "ExecutionDuration =
     \<lparr>co_Namespace = ''speedcode'', co_Name = ''execution_duration_seconds'',
      co_Help = ''Wall-clock execution duration in seconds.'',
      co_Kind = HistogramKind duration_buckets, co_Labels = [''language'', ''verdict'']\<rparr>"

definition CPUTimeDuration :: collector where
  "CPUTimeDuration =
     \<lparr>co_Namespace = ''speedcode'', co_Name = ''cpu_time_seconds'',
      co_Help = ''Total CPU user and kernel execution duration in seconds.'',
      co_Kind = HistogramKind duration_buckets, co_Labels = [''language'', ''verdict'']\<rparr>"

definition PeakMemoryBytes :: collector where
  "PeakMemoryBytes =
     \<lparr>co_Namespace = ''speedcode'', co_Name = ''peak_memory_bytes'',
      co_Help = ''Peak physical RAM memory consumed in bytes.'',
      co_Kind = HistogramKind (map Fin [1048576, 4194304, 16777216, 67108864, 134217728, 268435456, 536870912]),
      co_Labels = [''language'']\<rparr>"

definition SecurityViolationsTotal :: collector where
  "SecurityViolationsTotal =
     \<lparr>co_Namespace = ''speedcode'', co_Name = ''security_violations_total'',
      co_Help = ''Count of security boundary breaches, blocked syscalls, and resource terminations.'',
      co_Kind = CounterKind, co_Labels = [''violation_type'']\<rparr>"

definition ActiveWorkers :: collector where
  "ActiveWorkers =
     \<lparr>co_Namespace = ''speedcode'', co_Name = ''active_workers'',
      co_Help = ''Number of worker threads currently processing code submissions.'',
      co_Kind = GaugeKind, co_Labels = []\<rparr>"

text \<open>What \<^verbatim>\<open>init\<close> registers.\<close>

definition registered_collectors :: "collector list" where
  "registered_collectors =
     [SubmissionsTotal, QueueDepth_gauge, ExecutionDuration, CPUTimeDuration, PeakMemoryBytes,
      SecurityViolationsTotal, ActiveWorkers]"

lemmas collector_defs = registered_collectors_def SubmissionsTotal_def QueueDepth_gauge_def ExecutionDuration_def
  CPUTimeDuration_def PeakMemoryBytes_def SecurityViolationsTotal_def ActiveWorkers_def

section \<open>Well-formed recording\<close>

text \<open>Registering panics on a name that is taken.\<close>

lemma collectors_distinct: "distinct (map fq_name registered_collectors)"
  by (simp add: collector_defs fq_name_def)

definition label_count :: "collector \<Rightarrow> nat" where
  "label_count c = length (co_Labels c)"

text \<open>A recording names a registered collector of its kind and has a value for each label.\<close>

definition is_counter :: "collector \<Rightarrow> bool" where
  "is_counter c \<longleftrightarrow> (case co_Kind c of CounterKind \<Rightarrow> True | _ \<Rightarrow> False)"

definition is_histogram :: "collector \<Rightarrow> bool" where
  "is_histogram c \<longleftrightarrow> (case co_Kind c of HistogramKind _ \<Rightarrow> True | _ \<Rightarrow> False)"

definition metric_ok :: "io_op \<Rightarrow> bool" where
  "metric_ok op \<longleftrightarrow>
     (case op of
        MetricInc n ls \<Rightarrow>
          list_ex (\<lambda>c. fq_name c = n \<and> is_counter c \<and> label_count c = length ls) registered_collectors
      | MetricObserve n ls x \<Rightarrow>
          list_ex (\<lambda>c. fq_name c = n \<and> is_histogram c \<and> label_count c = length ls) registered_collectors
      | _ \<Rightarrow> True)"

lemma names:
  "fq_name SubmissionsTotal = ''speedcode_submissions_total''"
  "fq_name ExecutionDuration = ''speedcode_execution_duration_seconds''"
  "fq_name CPUTimeDuration = ''speedcode_cpu_time_seconds''"
  "fq_name PeakMemoryBytes = ''speedcode_peak_memory_bytes''"
  "fq_name SecurityViolationsTotal = ''speedcode_security_violations_total''"
  by (simp_all add: collector_defs fq_name_def)

lemma shapes [simp]:
  "is_counter SubmissionsTotal" "label_count SubmissionsTotal = 3"
  "is_counter SecurityViolationsTotal" "label_count SecurityViolationsTotal = 1"
  "is_histogram ExecutionDuration" "label_count ExecutionDuration = 2"
  "is_histogram CPUTimeDuration" "label_count CPUTimeDuration = 2"
  "is_histogram PeakMemoryBytes" "label_count PeakMemoryBytes = 1"
  by (simp_all add: collector_defs is_counter_def is_histogram_def label_count_def)

lemma recordings_ok:
  "\<exists>ops. w_trace (snd (run_state (RecordSubmissionMetrics l v s a b c) w)) = w_trace w @ ops \<and> list_all metric_ok ops"
  "\<exists>ops. w_trace (snd (run_state (RecordViolation t) w)) = w_trace w @ ops \<and> list_all metric_ok ops"
  by (intro exI conjI, simp add: RecordSubmissionMetrics_def,
      simp add: metric_ok_def registered_collectors_def flip: names)
    (intro exI conjI, simp add: RecordViolation_def,
      simp add: metric_ok_def registered_collectors_def flip: names)

end
