(* ===== verification/Pool.thy ===== *)
theory Pool
  imports Worker Memory_Queue Redis_Queue "HOL-Library.Multiset"
begin

text \<open>
  \<^verbatim>\<open>worker/pool.go\<close>: the worker pool.  \<open>worker_turn\<close> is one pass of a worker's loop over any queue,
  bus and store, with the whole of \<open>ProcessJob\<close> in it.  The second half interleaves the goroutines
  of a pool with each other, with the goroutine that starts and stops the pool and with whoever
  else uses the queue, in memory or on Redis: one transition per atomic action of the code.  There
  a job taken from the queue stays with one worker until that worker is done with it, the counters
  count, and \<open>Stop\<close> returns only when no worker is left.
\<close>

section \<open>Configuration\<close>

record PoolConfig =
  pc_Concurrency :: int
  pc_PollTimeout :: int
  pc_WorkerID :: string

text \<open>
  The pool's own state.  \<open>wp_stopped\<close> says that \<^verbatim>\<open>stopCh\<close> is closed and \<open>wp_wg\<close> is the counter
  of the wait group.
\<close>

record WorkerPool =
  wp_cfg :: PoolConfig
  wp_stopped :: bool
  wp_wg :: int
  wp_activeJobs :: int
  wp_totalJobs :: int
  wp_running :: bool

definition pool_config :: "PoolConfig \<Rightarrow> PoolConfig" where
  "pool_config cfg =
     cfg\<lparr>pc_Concurrency := (if pc_Concurrency cfg \<le> 0 then 4 else pc_Concurrency cfg),
         pc_PollTimeout := (if pc_PollTimeout cfg \<le> 0 then 2 * Second else pc_PollTimeout cfg),
         pc_WorkerID := (if pc_WorkerID cfg = [] then ''worker-daemon'' else pc_WorkerID cfg)\<rparr>"

definition NewWorkerPool :: "PoolConfig \<Rightarrow> WorkerPool" where
  "NewWorkerPool cfg =
     \<lparr>wp_cfg = pool_config cfg, wp_stopped = False, wp_wg = 0, wp_activeJobs = 0, wp_totalJobs = 0,
      wp_running = False\<rparr>"

definition ActiveJobs :: "WorkerPool \<Rightarrow> int" where
  "ActiveJobs p = wp_activeJobs p"

definition TotalProcessed :: "WorkerPool \<Rightarrow> int" where
  "TotalProcessed p = wp_totalJobs p"

section \<open>One pass of the loop\<close>

text \<open>What a failed \<open>Dequeue\<close> makes the loop do.\<close>

datatype poll_outcome = PollAgain | PollLeave | PollSleep

definition poll_error :: "goerror \<Rightarrow> goerror option \<Rightarrow> poll_outcome" where
  "poll_error err ctxErr =
     (if errors_Is err ErrQueueEmpty then PollAgain
      else if errors_Is err ErrQueueClosed \<or> ctxErr \<noteq> None then PollLeave
      else PollSleep)"

text \<open>
  A worker that nobody disturbs: the default case of the \<^verbatim>\<open>select\<close>.  The value says whether the
  loop goes on.  The two counters rise before and one falls after the job; log output is left out.
\<close>

definition worker_turn ::
  "('z world_scheme) JobQueue \<Rightarrow> ('z world_scheme) EventBus \<Rightarrow> ('z world_scheme) StateStore \<Rightarrow> host \<Rightarrow>
   WorkerPool \<Rightarrow> ('z world_scheme, bool \<times> WorkerPool) state" where
  "worker_turn q bus st h p = do {
     r \<leftarrow> jq_Dequeue q (pc_PollTimeout (wp_cfg p));
     (case r of
        Inl err \<Rightarrow> do {
          ctxErr \<leftarrow> (if errors_Is err ErrQueueEmpty \<or> errors_Is err ErrQueueClosed then ret None
                      else perform CtxErr (h_ctxErr h));
          (case poll_error err ctxErr of
             PollAgain \<Rightarrow> ret (True, p)
           | PollLeave \<Rightarrow> ret (False, p)
           | PollSleep \<Rightarrow> do { io_do (Sleep (200 * Millisecond)); ret (True, p) })
        }
      | Inr job \<Rightarrow> do {
          let p = p\<lparr>wp_activeJobs := wrap64 (wp_activeJobs p + 1)\<rparr>;
          let p = p\<lparr>wp_totalJobs := wrap64 (wp_totalJobs p + 1)\<rparr>;
          jobStart \<leftarrow> io_now h;
          e \<leftarrow> ProcessJob bus st h (Some job);
          (if e = None then do { _ \<leftarrow> io_now h; ret () } else ret ());
          ret (True, p\<lparr>wp_activeJobs := wrap64 (wp_activeJobs p - 1)\<rparr>)
        })
   }"

text \<open>The loop, for as many passes as are given; the value says whether the worker is still in it.\<close>

fun workerLoop ::
  "nat \<Rightarrow> ('z world_scheme) JobQueue \<Rightarrow> ('z world_scheme) EventBus \<Rightarrow> ('z world_scheme) StateStore \<Rightarrow> host \<Rightarrow>
   WorkerPool \<Rightarrow> ('z world_scheme, bool \<times> WorkerPool) state" where
  "workerLoop 0 q bus st h p = ret (True, p)"
| "workerLoop (Suc n) q bus st h p = do {
     ctx \<leftarrow> perform CtxErr (h_ctxErr h);
     if ctx \<noteq> None \<or> wp_stopped p then ret (False, p)
     else do {
       r \<leftarrow> worker_turn q bus st h p;
       if fst r then workerLoop n q bus st h (snd r) else ret r
     }
   }"

section \<open>Queues as seen by a pool\<close>

text \<open>
  What the pool needs to know of a queue with state \<open>'q\<close>: what a call of \<open>Dequeue\<close> may answer under the
  error of its context, and what that does to the queue; how the handlers of the same program and
  other programs change it; what closing it does; and whether the program's event subscriptions have
  reader goroutines, which is so when the services are on Redis.
\<close>

record 'q queue_sys =
  qy_init :: 'q
  qy_poll :: "goerror option \<Rightarrow> 'q \<Rightarrow> goerror + SubmissionJob \<Rightarrow> 'q \<Rightarrow> bool"
  qy_handler :: "'q \<Rightarrow> 'q \<Rightarrow> bool"
  qy_others :: "'q \<Rightarrow> 'q \<Rightarrow> bool"
  qy_close :: "'q \<Rightarrow> 'q"
  qy_readers :: bool

definition qy_moves :: "'q queue_sys \<Rightarrow> 'q \<Rightarrow> 'q \<Rightarrow> bool" where
  "qy_moves Q q q' \<longleftrightarrow> qy_handler Q q q' \<or> qy_others Q q q' \<or> q' = qy_close Q q"

text \<open>A call of \<open>Dequeue\<close> always returns: it waits no longer than its timeout.\<close>

definition polls_return :: "'q queue_sys \<Rightarrow> bool" where
  "polls_return Q \<longleftrightarrow> (\<forall>ctx q. \<exists>r q'. qy_poll Q ctx q r q')"

definition mem_poll :: "goerror option \<Rightarrow> qsys \<Rightarrow> goerror + SubmissionJob \<Rightarrow> qsys \<Rightarrow> bool" where
  "mem_poll ctx q r q' \<longleftrightarrow>
     (\<exists>pick m. dequeue_select pick ctx (qs_m q) = (r, m) \<and>
        q' = q\<lparr>qs_m := m, qs_out := qs_out q @ (case r of Inr j \<Rightarrow> [j] | Inl _ \<Rightarrow> [])\<rparr>)"

definition mem_produce :: "qsys \<Rightarrow> qsys \<Rightarrow> bool" where
  "mem_produce q q' \<longleftrightarrow> q_step q q' \<and> qs_out q' = qs_out q \<and> mq_closed (qs_m q') = mq_closed (qs_m q)"

definition memory_sys :: "int \<Rightarrow> qsys queue_sys" where
  "memory_sys n =
     \<lparr>qy_init = qsys_init n, qy_poll = mem_poll, qy_handler = mem_produce, qy_others = (\<lambda>_ _. False),
      qy_close = (\<lambda>q. q\<lparr>qs_m := close_step (qs_m q)\<rparr>), qy_readers = False\<rparr>"

text \<open>
  On Redis the state is the list at the key.  A poll pops its last element, which may not decode, or
  fails and leaves it; others push at the front and pop at the end.
\<close>

definition redis_poll ::
  "SubmissionJob codec \<Rightarrow> goerror option \<Rightarrow> string list \<Rightarrow> goerror + SubmissionJob \<Rightarrow> string list \<Rightarrow> bool" where
  "redis_poll json ctx l r l' \<longleftrightarrow>
     l' = l \<and> (r = Inl ErrQueueEmpty \<or> ctx = None \<and> (\<exists>e. r = Inl (ErrWrap ''redis dequeue failed: '' e))) \<or>
     l \<noteq> [] \<and> l' = butlast l \<and>
       r = (case cd_Unmarshal json (last l) of
              Inl e \<Rightarrow> Inl (ErrWrap ''failed to unmarshal job payload: '' e)
            | Inr j \<Rightarrow> Inr j)"

definition redis_change :: "string list \<Rightarrow> string list \<Rightarrow> bool" where
  "redis_change l l' \<longleftrightarrow> (\<exists>v. l' = v # l) \<or> l \<noteq> [] \<and> l' = butlast l"

definition redis_sys :: "SubmissionJob codec \<Rightarrow> string list queue_sys" where
  "redis_sys json =
     \<lparr>qy_init = [], qy_poll = redis_poll json, qy_handler = redis_change, qy_others = redis_change,
      qy_close = (\<lambda>l. l), qy_readers = True\<rparr>"

lemma polls_return_memory: "polls_return (memory_sys n)"
  unfolding polls_return_def memory_sys_def mem_poll_def by (simp, metis surj_pair)

lemma polls_return_redis: "polls_return (redis_sys json)"
  by (auto simp: polls_return_def redis_sys_def redis_poll_def)

text \<open>Both describe the calls of the operations.\<close>

lemma mq_Dequeue_polls:
  assumes "run_state (mq_Dequeue h timeout) w = (r, w')" and "qs_m q = w_queue w"
  shows "\<exists>ctx q'. mem_poll ctx q r q' \<and> qs_m q' = w_queue w'"
  using assms(1)
proof (rule mq_Dequeue_run)
  fix p ctx
  assume "dequeue_select p ctx (w_queue w) = (r, w_queue w')"
  then show ?thesis unfolding mem_poll_def assms(2) by fastforce
qed

text \<open>
  On Redis the other clients may move before and after the command takes effect, and a pop that
  failed may have been executed all the same, which is then a move of its own.
\<close>

lemma lawful_changes: "lawful_from l E \<Longrightarrow> redis_change\<^sup>*\<^sup>* l (list_from l E)"
proof (induction l E rule: lawful_from.induct)
  case (2 l v E)
  have "redis_change l (v # l)" by (simp add: redis_change_def)
  with 2 show ?case by (auto intro: converse_rtranclp_into_rtranclp)
next
  case (3 l v E)
  then have "redis_change l (butlast l)" by (simp add: redis_change_def)
  with 3 show ?case by (auto intro: converse_rtranclp_into_rtranclp)
qed simp

lemma rq_Dequeue_polls:
  assumes run: "run_state (rq_Dequeue h r timeout) w = (res, w')" and s: "redis_server h (rq_queueKey r) srv"
  shows "\<exists>ctx l l'. redis_change\<^sup>*\<^sup>* (list_from [] (srv (w_trace w))) l \<and> redis_poll (rq_codec r) ctx l res l' \<and>
    redis_change\<^sup>*\<^sup>* l' (list_from [] (srv (w_trace w')))"
proof (cases "h_redisPop h (w_trace w) (rq_queueKey r)")
  case (Inl e)
  then obtain ops where ops: "w_trace w' = w_trace w @ ops"
    and poll: "redis_poll (rq_codec r) None l res l" for l
    using run by (auto simp: rq_Dequeue_def redis_poll_def split: if_splits)
  obtain E where "srv (w_trace w') = srv (w_trace w) @ E" using redis_server_grows [OF s] ops by auto
  with lawful_changes [of "list_from [] (srv (w_trace w))" E] redis_serverD(1) [OF s, of "w_trace w'"] poll
  show ?thesis by auto
next
  case (Inr vs)
  obtain E v where E: "srv (w_trace w @ [RedisBRPop (rq_queueKey r) timeout]) = srv (w_trace w) @ E"
      "vs = [rq_queueKey r, v]" "v \<in> set (pops E)"
    using redis_serverD(3) [OF s Inr] by blast
  then obtain F G where split: "E = F @ Popped v # G" by (auto simp: in_pops dest: split_list)
  have w': "w_trace w' = w_trace w @ [RedisBRPop (rq_queueKey r) timeout]"
    using run by (auto simp: rq_Dequeue_def Inr)
  let ?l = "list_from (list_from [] (srv (w_trace w))) F"
  have law: "lawful_from (list_from [] (srv (w_trace w))) F" "?l \<noteq> []" "last ?l = v" "lawful_from (butlast ?l) G"
    using redis_serverD(1) [OF s, of "w_trace w'"] by (simp_all add: w' E(1) split)
  have "redis_poll (rq_codec r) None ?l res (butlast ?l)"
    using run law(2,3) by (auto simp: rq_Dequeue_def Inr E(2) redis_poll_def)
  with lawful_changes [OF law(1)] lawful_changes [OF law(4)] show ?thesis by (auto simp: w' E(1) split)
qed

section \<open>All goroutines\<close>

text \<open>
  Where a worker is.  \<open>Selecting\<close> is the head of its loop, \<open>Polling\<close> the call of \<open>Dequeue\<close>,
  \<open>Failed\<close> the branch of a failed call, \<open>Took\<close> and \<open>Counted\<close> the places before the two counters
  rise, \<open>Working\<close> inside \<open>ProcessJob\<close>, \<open>Worked\<close> before the counter falls, \<open>Leaving\<close> before
  the deferred \<^verbatim>\<open>wg.Done\<close>.
\<close>

datatype worker_pc =
    Selecting
  | Polling
  | Failed goerror
  | Took SubmissionJob
  | Counted SubmissionJob
  | Working SubmissionJob
  | Worked SubmissionJob
  | Leaving
  | Gone

text \<open>
  Where the goroutine is that owns the pool: outside, in the loop of \<open>Start\<close> after some workers,
  in \<open>Stop\<close> at \<^verbatim>\<open>wg.Wait\<close>, or ended by a panic.
\<close>

datatype owner_pc = Outside | Spawning int | Waiting | Crashed

text \<open>\<open>ps_taken\<close> and \<open>ps_done\<close> are the jobs workers have taken and processed so far.\<close>

record 'q psys =
  ps_queue :: 'q
  ps_pool :: WorkerPool
  ps_owner :: owner_pc
  ps_workers :: "worker_pc list"
  ps_cancelled :: bool
  ps_taken :: "SubmissionJob list"
  ps_done :: "SubmissionJob list"

definition psys_init :: "'q queue_sys \<Rightarrow> PoolConfig \<Rightarrow> 'q psys" where
  "psys_init Q cfg =
     \<lparr>ps_queue = qy_init Q, ps_pool = NewWorkerPool cfg, ps_owner = Outside, ps_workers = [],
      ps_cancelled = False, ps_taken = [], ps_done = []\<rparr>"

abbreviation at_worker :: "'q psys \<Rightarrow> nat \<Rightarrow> worker_pc \<Rightarrow> bool" where
  "at_worker s k c \<equiv> k < length (ps_workers s) \<and> ps_workers s ! k = c"

abbreviation goto_pc :: "nat \<Rightarrow> worker_pc \<Rightarrow> 'q psys \<Rightarrow> 'q psys" where
  "goto_pc k c s \<equiv> s\<lparr>ps_workers := (ps_workers s)[k := c]\<rparr>"

text \<open>The moves of a worker; the context it passes on is cancelled or not done at all.\<close>

definition pool_ctx :: "'q psys \<Rightarrow> goerror option" where
  "pool_ctx s = (if ps_cancelled s then Some ErrCanceled else None)"

inductive w_step :: "'q queue_sys \<Rightarrow> 'q psys \<Rightarrow> 'q psys \<Rightarrow> bool" for Q where
  SelectDone: "at_worker s k Selecting \<Longrightarrow> ps_cancelled s \<or> wp_stopped (ps_pool s) \<Longrightarrow>
    w_step Q s (goto_pc k Leaving s)"
| SelectDefault: "at_worker s k Selecting \<Longrightarrow> \<not> ps_cancelled s \<Longrightarrow> \<not> wp_stopped (ps_pool s) \<Longrightarrow>
    w_step Q s (goto_pc k Polling s)"
| Dequeued: "at_worker s k Polling \<Longrightarrow> qy_poll Q (pool_ctx s) (ps_queue s) (Inr j) q \<Longrightarrow>
    w_step Q s (goto_pc k (Took j) (s\<lparr>ps_queue := q, ps_taken := ps_taken s @ [j]\<rparr>))"
| DequeueFailed: "at_worker s k Polling \<Longrightarrow> qy_poll Q (pool_ctx s) (ps_queue s) (Inl e) q \<Longrightarrow>
    w_step Q s (goto_pc k (Failed e) (s\<lparr>ps_queue := q\<rparr>))"
| Retry: "at_worker s k (Failed e) \<Longrightarrow> poll_error e (pool_ctx s) \<noteq> PollLeave \<Longrightarrow>
    w_step Q s (goto_pc k Selecting s)"
| GiveUp: "at_worker s k (Failed e) \<Longrightarrow> poll_error e (pool_ctx s) = PollLeave \<Longrightarrow>
    w_step Q s (goto_pc k Leaving s)"
| CountActive: "at_worker s k (Took j) \<Longrightarrow>
    w_step Q s (goto_pc k (Counted j)
      (s\<lparr>ps_pool := (ps_pool s)\<lparr>wp_activeJobs := wrap64 (wp_activeJobs (ps_pool s) + 1)\<rparr>\<rparr>))"
| CountTotal: "at_worker s k (Counted j) \<Longrightarrow>
    w_step Q s (goto_pc k (Working j)
      (s\<lparr>ps_pool := (ps_pool s)\<lparr>wp_totalJobs := wrap64 (wp_totalJobs (ps_pool s) + 1)\<rparr>\<rparr>))"
| JobReturns: "at_worker s k (Working j) \<Longrightarrow>
    w_step Q s (goto_pc k (Worked j) (s\<lparr>ps_done := ps_done s @ [j]\<rparr>))"
| Uncount: "at_worker s k (Worked j) \<Longrightarrow>
    w_step Q s (goto_pc k Selecting
      (s\<lparr>ps_pool := (ps_pool s)\<lparr>wp_activeJobs := wrap64 (wp_activeJobs (ps_pool s) - 1)\<rparr>\<rparr>))"
| WorkerExit: "at_worker s k Leaving \<Longrightarrow>
    w_step Q s (goto_pc k Gone (s\<lparr>ps_pool := (ps_pool s)\<lparr>wp_wg := wp_wg (ps_pool s) - 1\<rparr>\<rparr>))"

text \<open>
  The moves of the goroutine that owns the pool inside \<open>Start\<close>: a pool that runs is left alone;
  otherwise it is marked as running and the workers are started one by one.
\<close>

inductive start_step :: "'q psys \<Rightarrow> 'q psys \<Rightarrow> bool" where
  StartRunning: "ps_owner s = Outside \<Longrightarrow> wp_running (ps_pool s) \<Longrightarrow> start_step s s"
| StartPool: "ps_owner s = Outside \<Longrightarrow> \<not> wp_running (ps_pool s) \<Longrightarrow>
    start_step s (s\<lparr>ps_pool := (ps_pool s)\<lparr>wp_running := True\<rparr>, ps_owner := Spawning 0\<rparr>)"
| Spawn: "ps_owner s = Spawning i \<Longrightarrow> i < pc_Concurrency (wp_cfg (ps_pool s)) \<Longrightarrow>
    start_step s (s\<lparr>ps_pool := (ps_pool s)\<lparr>wp_wg := wp_wg (ps_pool s) + 1\<rparr>, ps_owner := Spawning (i + 1),
      ps_workers := ps_workers s @ [Selecting]\<rparr>)"
| StartReturns: "ps_owner s = Spawning i \<Longrightarrow> \<not> i < pc_Concurrency (wp_cfg (ps_pool s)) \<Longrightarrow>
    start_step s (s\<lparr>ps_owner := Outside\<rparr>)"

text \<open>The moves inside \<open>Stop\<close>, which closes a channel that \<open>Start\<close> does not make anew.\<close>

inductive stop_step :: "'q psys \<Rightarrow> 'q psys \<Rightarrow> bool" where
  StopIdle: "ps_owner s = Outside \<Longrightarrow> \<not> wp_running (ps_pool s) \<Longrightarrow> stop_step s s"
| StopPool: "ps_owner s = Outside \<Longrightarrow> wp_running (ps_pool s) \<Longrightarrow> \<not> wp_stopped (ps_pool s) \<Longrightarrow>
    stop_step s (s\<lparr>ps_pool := (ps_pool s)\<lparr>wp_running := False, wp_stopped := True\<rparr>, ps_owner := Waiting\<rparr>)"
| StopPanics: "ps_owner s = Outside \<Longrightarrow> wp_running (ps_pool s) \<Longrightarrow> wp_stopped (ps_pool s) \<Longrightarrow>
    stop_step s (s\<lparr>ps_pool := (ps_pool s)\<lparr>wp_running := False\<rparr>, ps_owner := Crashed\<rparr>)"
| StopReturns: "ps_owner s = Waiting \<Longrightarrow> wp_wg (ps_pool s) = 0 \<Longrightarrow> stop_step s (s\<lparr>ps_owner := Outside\<rparr>)"

definition cancel_ctx :: "'q psys \<Rightarrow> 'q psys" where
  "cancel_ctx s = s\<lparr>ps_cancelled := True\<rparr>"

inductive o_step :: "'q psys \<Rightarrow> 'q psys \<Rightarrow> bool" where
  StartMoves: "start_step s s' \<Longrightarrow> o_step s s'"
| StopMoves: "stop_step s s' \<Longrightarrow> o_step s s'"
| CancelContext: "o_step s (cancel_ctx s)"

text \<open>The whole system; what others do with the queue are moves of the queue alone.\<close>

inductive p_step :: "'q queue_sys \<Rightarrow> 'q psys \<Rightarrow> 'q psys \<Rightarrow> bool" for Q where
  WorkerMoves: "w_step Q s s' \<Longrightarrow> p_step Q s s'"
| OwnerMoves: "o_step s s' \<Longrightarrow> p_step Q s s'"
| QueueMoves: "qy_moves Q (ps_queue s) q \<Longrightarrow> p_step Q s (s\<lparr>ps_queue := q\<rparr>)"

inductive p_reach :: "'q queue_sys \<Rightarrow> PoolConfig \<Rightarrow> 'q psys \<Rightarrow> bool" for Q cfg where
  p_start: "p_reach Q cfg (psys_init Q cfg)"
| p_next: "p_reach Q cfg s \<Longrightarrow> p_step Q s s' \<Longrightarrow> p_reach Q cfg s'"

section \<open>Invariant\<close>

definition alive :: "worker_pc \<Rightarrow> int" where
  "alive c = (if c = Gone then 0 else 1)"

definition busy :: "worker_pc \<Rightarrow> int" where
  "busy c = (case c of Counted _ \<Rightarrow> 1 | Working _ \<Rightarrow> 1 | Worked _ \<Rightarrow> 1 | _ \<Rightarrow> 0)"

definition in_job :: "worker_pc \<Rightarrow> int" where
  "in_job c = (case c of Working _ \<Rightarrow> 1 | _ \<Rightarrow> 0)"

definition in_hand :: "worker_pc \<Rightarrow> SubmissionJob multiset" where
  "in_hand c = (case c of Took j \<Rightarrow> {#j#} | Counted j \<Rightarrow> {#j#} | Working j \<Rightarrow> {#j#} | _ \<Rightarrow> {#})"

lemmas pc_weights = alive_def busy_def in_job_def in_hand_def

definition psys_inv :: "'q psys \<Rightarrow> bool" where
  "psys_inv s \<longleftrightarrow>
     wp_wg (ps_pool s) = sum_list (map alive (ps_workers s)) \<and>
     wp_activeJobs (ps_pool s) = wrap64 (sum_list (map busy (ps_workers s))) \<and>
     wp_totalJobs (ps_pool s) = wrap64 (int (length (ps_done s)) + sum_list (map in_job (ps_workers s))) \<and>
     mset (ps_taken s) = mset (ps_done s) + sum_list (map in_hand (ps_workers s)) \<and>
     (ps_owner s = Waiting \<longrightarrow> wp_stopped (ps_pool s))"

lemma wrap64_add [simp]: "wrap64 (wrap64 x + y) = wrap64 (x + y)"
proof -
  have "(wrap64 x + y + 2 ^ 63) mod 2 ^ 64 = ((x + 2 ^ 63) mod 2 ^ 64 + y) mod 2 ^ 64"
    unfolding wrap64_def by (rule arg_cong [where f = "\<lambda>z. z mod 2 ^ 64"]) linarith
  also have "\<dots> = (x + y + 2 ^ 63) mod 2 ^ 64"
    unfolding mod_add_left_eq by (rule arg_cong [where f = "\<lambda>z. z mod 2 ^ 64"]) linarith
  finally show ?thesis unfolding wrap64_def by linarith
qed

lemma wrap64_diff [simp]: "wrap64 (wrap64 x - y) = wrap64 (x - y)"
  using wrap64_add [of x "- y"] by simp

lemma sum_list_moved:
  fixes f :: "'a \<Rightarrow> 'b :: cancel_comm_monoid_add"
  assumes "k < length xs"
  shows "sum_list (map f (xs[k := c])) + f (xs ! k) = sum_list (map f xs) + f c"
  using assms
proof (induction xs arbitrary: k)
  case (Cons x xs)
  then show ?case by (cases k) (simp_all add: ac_simps)
qed simp

lemma sum_list_moved_int:
  fixes f :: "'a \<Rightarrow> int"
  shows "k < length xs \<Longrightarrow> sum_list (map f (xs[k := c])) = sum_list (map f xs) + f c - f (xs ! k)"
  using sum_list_moved [of k xs f c] by simp

lemma sum_list_part:
  fixes f :: "'a \<Rightarrow> 'b multiset"
  shows "k < length xs \<Longrightarrow> f (xs ! k) \<subseteq># sum_list (map f xs)"
proof (induction xs arbitrary: k)
  case (Cons x xs)
  then show ?case by (cases k) (simp_all add: subset_mset.add_increasing)
qed simp

lemma sum_list_moved_mset:
  fixes f :: "'a \<Rightarrow> 'b multiset"
  assumes "k < length xs"
  shows "sum_list (map f (xs[k := c])) = sum_list (map f xs) - f (xs ! k) + f c"
  using sum_list_moved [OF assms, of f c] sum_list_part [OF assms, of f]
  by (metis add_diff_cancel_right' subset_mset.add_diff_assoc2)

lemma in_hand_part:
  "k < length ws \<Longrightarrow> ws ! k \<in> {Took j, Counted j, Working j} \<Longrightarrow> j \<in># sum_list (map in_hand ws)"
  using sum_list_part [of k ws in_hand] by (auto simp: in_hand_def)

lemmas pool_sums = sum_list_moved_int sum_list_moved_mset pc_weights add.assoc

lemma w_step_inv:
  assumes "w_step Q s s'" and "psys_inv s"
  shows "psys_inv s'"
  using assms
proof (induction rule: w_step.induct)
  case (CountActive s k j)
  then have "j \<in># sum_list (map in_hand (ps_workers s))" by (intro in_hand_part [of k]) auto
  with CountActive show ?case by (simp add: psys_inv_def pool_sums)
next
  case (CountTotal s k j)
  then have "j \<in># sum_list (map in_hand (ps_workers s))" by (intro in_hand_part [of k]) auto
  with CountTotal show ?case by (simp add: psys_inv_def pool_sums)
next
  case (JobReturns s k j)
  then have "j \<in># sum_list (map in_hand (ps_workers s))" by (intro in_hand_part [of k]) auto
  with JobReturns show ?case by (simp add: psys_inv_def pool_sums)
qed (simp_all add: psys_inv_def pool_sums)

lemma start_step_inv: "start_step s s' \<Longrightarrow> psys_inv s \<Longrightarrow> psys_inv s'"
  by (induction rule: start_step.induct) (simp_all add: psys_inv_def pc_weights)

lemma stop_step_inv: "stop_step s s' \<Longrightarrow> psys_inv s \<Longrightarrow> psys_inv s'"
  by (induction rule: stop_step.induct) (simp_all add: psys_inv_def)

lemma o_step_inv: "o_step s s' \<Longrightarrow> psys_inv s \<Longrightarrow> psys_inv s'"
proof (induction rule: o_step.induct)
  case (CancelContext s)
  then show ?case by (simp add: psys_inv_def cancel_ctx_def)
qed (blast intro: start_step_inv stop_step_inv)+

lemma p_step_inv: "p_step Q s s' \<Longrightarrow> psys_inv s \<Longrightarrow> psys_inv s'"
proof (induction rule: p_step.induct)
  case (QueueMoves s q)
  then show ?case by (simp add: psys_inv_def)
qed (blast intro: w_step_inv o_step_inv)+

lemma p_reach_inv: "p_reach Q cfg s \<Longrightarrow> psys_inv s"
proof (induction rule: p_reach.induct)
  case p_start
  show ?case by (simp add: psys_inv_def psys_init_def NewWorkerPool_def wrap64_def)
next
  case (p_next s s')
  then show ?case by (blast intro: p_step_inv)
qed

text \<open>On the in-memory queue, the moves of a pool are moves of the queue as well.\<close>

lemma start_step_queue: "start_step s s' \<Longrightarrow> ps_queue s' = ps_queue s \<and> ps_taken s' = ps_taken s"
  by (induction rule: start_step.induct) simp_all

lemma stop_step_queue: "stop_step s s' \<Longrightarrow> ps_queue s' = ps_queue s \<and> ps_taken s' = ps_taken s"
  by (induction rule: stop_step.induct) simp_all

lemma o_step_queue: "o_step s s' \<Longrightarrow> ps_queue s' = ps_queue s \<and> ps_taken s' = ps_taken s"
  by (induction rule: o_step.induct) (auto simp: cancel_ctx_def dest: start_step_queue stop_step_queue)

lemma mem_poll_q_step: "mem_poll ctx q r q' \<Longrightarrow> ctx_error ctx \<Longrightarrow> q_step q q'"
  by (auto simp: mem_poll_def intro: DequeueSelect)

lemma ctx_error_pool [simp]: "ctx_error (pool_ctx s)"
  by (simp add: ctx_error_def pool_ctx_def)

lemma memory_w_step:
  assumes "w_step (memory_sys n) s s'" and "q_reach n (ps_queue s)" and "ps_taken s = qs_out (ps_queue s)"
  shows "q_reach n (ps_queue s') \<and> ps_taken s' = qs_out (ps_queue s')"
  using assms
proof (induction rule: w_step.induct)
  case (Dequeued s k j q)
  then have poll: "mem_poll (pool_ctx s) (ps_queue s) (Inr j) q" by (simp add: memory_sys_def)
  from q_next [OF Dequeued.prems(1) mem_poll_q_step [OF poll]] poll Dequeued.prems(2) show ?case
    by (auto simp: mem_poll_def)
next
  case (DequeueFailed s k e q)
  then have poll: "mem_poll (pool_ctx s) (ps_queue s) (Inl e) q" by (simp add: memory_sys_def)
  from q_next [OF DequeueFailed.prems(1) mem_poll_q_step [OF poll]] poll DequeueFailed.prems(2) show ?case
    by (auto simp: mem_poll_def)
qed simp_all

lemma memory_p_reach:
  "p_reach (memory_sys n) cfg s \<Longrightarrow> q_reach n (ps_queue s) \<and> ps_taken s = qs_out (ps_queue s)"
proof (induction rule: p_reach.induct)
  case p_start
  show ?case by (simp add: psys_init_def memory_sys_def q_start) (simp add: qsys_init_def)
next
  case (p_next s s')
  from p_next.hyps(2) p_next.IH show ?case
  proof (induction rule: p_step.induct)
    case (WorkerMoves s s')
    then show ?case using memory_w_step by blast
  next
    case (OwnerMoves s s')
    then show ?case using o_step_queue [of s s'] by simp
  next
    case (QueueMoves s q)
    then have "q_step (ps_queue s) q \<and> qs_out q = qs_out (ps_queue s)"
      by (auto simp: qy_moves_def memory_sys_def mem_produce_def intro: CloseQueue)
    with QueueMoves.prems show ?case by (auto intro: q_next)
  qed
qed

section \<open>Shutdown\<close>

text \<open>How many more moves a worker of a stopped pool can make.\<close>

definition pc_rank :: "worker_pc \<Rightarrow> nat" where
  "pc_rank c =
     (case c of
        Gone \<Rightarrow> 0 | Leaving \<Rightarrow> 1 | Selecting \<Rightarrow> 2 | Failed _ \<Rightarrow> 3 | Worked _ \<Rightarrow> 3 | Working _ \<Rightarrow> 4
      | Counted _ \<Rightarrow> 5 | Took _ \<Rightarrow> 6 | Polling \<Rightarrow> 7)"

definition pool_rank :: "'q psys \<Rightarrow> nat" where
  "pool_rank s = sum_list (map pc_rank (ps_workers s))"

lemma rank_moved:
  assumes "k < length xs" and "pc_rank c < pc_rank (xs ! k)"
  shows "sum_list (map pc_rank (xs[k := c])) < sum_list (map pc_rank xs)"
  using sum_list_moved [OF assms(1), of pc_rank c] assms(2) by simp

lemma w_step_rank:
  assumes "w_step Q s s'" and "wp_stopped (ps_pool s)"
  shows "wp_stopped (ps_pool s') \<and> pool_rank s' < pool_rank s"
  using assms
  by (induction rule: w_step.induct) (auto simp: pool_rank_def pc_rank_def intro!: rank_moved)

lemma w_step_enabled:
  assumes "polls_return Q" and "k < length (ps_workers s)" and "ps_workers s ! k \<noteq> Gone"
  shows "\<exists>s'. w_step Q s s'"
proof (cases "ps_workers s ! k")
  case Selecting
  then show ?thesis using assms SelectDone SelectDefault by blast
next
  case Polling
  obtain r q where poll: "qy_poll Q (pool_ctx s) (ps_queue s) r q"
    using assms(1) unfolding polls_return_def by blast
  have k: "at_worker s k Polling" using Polling assms by simp
  show ?thesis
  proof (cases r)
    case (Inl e)
    from DequeueFailed [OF k poll [unfolded Inl]] show ?thesis by blast
  next
    case (Inr j)
    from Dequeued [OF k poll [unfolded Inr]] show ?thesis by blast
  qed
next
  case (Failed e)
  then show ?thesis using assms Retry GiveUp by blast
qed (use assms in \<open>blast intro: w_step.intros\<close>)+

lemma pool_rank_bound: "pool_rank s \<le> 7 * length (ps_workers s)"
proof -
  have "pc_rank c \<le> 7" for c by (cases c) (simp_all add: pc_rank_def)
  then have "sum_list (map pc_rank ws) \<le> 7 * length ws" for ws
    by (induction ws) (simp_all add: add_le_mono)
  then show ?thesis by (simp add: pool_rank_def)
qed

lemma w_steps_bound:
  assumes "(w_step Q ^^ m) s s'" and "wp_stopped (ps_pool s)"
  shows "wp_stopped (ps_pool s') \<and> m + pool_rank s' \<le> pool_rank s"
  using assms
proof (induction m arbitrary: s')
  case (Suc m)
  from Suc.prems(1) obtain s1 where "(w_step Q ^^ m) s s1" "w_step Q s1 s'" by (auto elim: relpowp_Suc_E)
  with Suc.IH [OF _ Suc.prems(2)] w_step_rank [of Q s1 s'] show ?case by fastforce
qed simp

lemma alive_simps [simp]: "alive Gone = 0" "c \<noteq> Gone \<Longrightarrow> alive c = 1"
  by (simp_all add: alive_def)

lemma alive_nonneg: "0 \<le> sum_list (map alive ws)"
proof (induction ws)
  case (Cons c ws)
  then show ?case by (cases "c = Gone") simp_all
qed simp

lemma alive_none: "sum_list (map alive ws) = 0 \<longleftrightarrow> set ws \<subseteq> {Gone}"
proof (induction ws)
  case (Cons c ws)
  then show ?case using alive_nonneg [of ws] by (cases "c = Gone") simp_all
qed simp

lemma all_gone: "set ws \<subseteq> {Gone} \<Longrightarrow> sum_list (map in_hand ws) = {#}"
  by (induction ws) (simp_all add: in_hand_def)

lemma w_steps_to_exit:
  assumes ret: "polls_return Q" and "wp_stopped (ps_pool s)"
  shows "\<exists>s'. (w_step Q)\<^sup>*\<^sup>* s s' \<and> set (ps_workers s') \<subseteq> {Gone}"
  using assms(2)
proof (induction "pool_rank s" arbitrary: s rule: less_induct)
  case less
  show ?case
  proof (cases "set (ps_workers s) \<subseteq> {Gone}")
    case False
    then obtain k where "k < length (ps_workers s)" "ps_workers s ! k \<noteq> Gone"
      by (metis in_set_conv_nth insertCI subsetI)
    then obtain s1 where s1: "w_step Q s s1" using w_step_enabled [OF ret] by blast
    from less.hyps [of s1] w_step_rank [OF s1 less.prems] obtain s'
      where "(w_step Q)\<^sup>*\<^sup>* s1 s'" "set (ps_workers s') \<subseteq> {Gone}" by blast
    with s1 show ?thesis by (meson converse_rtranclp_into_rtranclp)
  qed auto
qed

lemma w_steps_reach: "(w_step Q)\<^sup>*\<^sup>* s s' \<Longrightarrow> p_reach Q cfg s \<Longrightarrow> p_reach Q cfg s'"
  by (induction rule: rtranclp_induct) (blast intro: p_next WorkerMoves)+

lemma w_steps_owner: "(w_step Q)\<^sup>*\<^sup>* s s' \<Longrightarrow> ps_owner s' = ps_owner s"
proof (induction rule: rtranclp_induct)
  case (step s1 s2)
  have "ps_owner s2 = ps_owner s1" using step.hyps(2) by (induction rule: w_step.induct) simp_all
  with step.IH show ?case by simp
qed simp

text \<open>No worker is left and every job taken has been processed.\<close>

definition pool_idle :: "'q psys \<Rightarrow> bool" where
  "pool_idle s \<longleftrightarrow> set (ps_workers s) \<subseteq> {Gone} \<and> mset (ps_taken s) = mset (ps_done s)"

lemma psys_inv_idle: "psys_inv s \<Longrightarrow> wp_wg (ps_pool s) = 0 \<Longrightarrow> pool_idle s"
  using alive_none [of "ps_workers s"] all_gone [of "ps_workers s"] by (simp add: psys_inv_def pool_idle_def)

section \<open>A run\<close>

text \<open>A pool of one worker, started, that has taken a job; and the same pool being stopped.\<close>

definition one_worker :: PoolConfig where
  "one_worker = \<lparr>pc_Concurrency = 1, pc_PollTimeout = 0, pc_WorkerID = []\<rparr>"

definition blank_job :: SubmissionJob where
  "blank_job = job_defaults
     \<lparr>job_SubmissionID = ''sub-1'', job_Language = ''python3'', job_Code = [], job_TimeLimitMs = 0,
      job_MemoryLimitMB = 0, job_CpuQuota = Fin 0, job_PidsLimit = 0, job_MaxOutputBytes = 0,
      job_SandboxType = [], job_TestCases = [], job_EnqueuedAt = 0\<rparr> 1"

lemma started_pool:
  obtains s where "p_reach Q one_worker s" "ps_owner s = Outside" "ps_workers s = [Selecting]"
    "wp_running (ps_pool s)" "\<not> wp_stopped (ps_pool s)" "\<not> ps_cancelled s" "ps_queue s = qy_init Q"
    "wp_cfg (ps_pool s) = pool_config one_worker"
proof -
  let ?s0 = "psys_init Q one_worker"
  let ?s1 = "?s0\<lparr>ps_pool := (ps_pool ?s0)\<lparr>wp_running := True\<rparr>, ps_owner := Spawning 0\<rparr>"
  let ?s2 = "?s1\<lparr>ps_pool := (ps_pool ?s1)\<lparr>wp_wg := wp_wg (ps_pool ?s1) + 1\<rparr>, ps_owner := Spawning (0 + 1),
      ps_workers := ps_workers ?s1 @ [Selecting]\<rparr>"
  let ?s3 = "?s2\<lparr>ps_owner := Outside\<rparr>"
  have 1: "o_step ?s0 ?s1" by (intro StartMoves StartPool) (simp_all add: psys_init_def NewWorkerPool_def)
  have 2: "o_step ?s1 ?s2"
    by (intro StartMoves Spawn) (simp_all add: psys_init_def NewWorkerPool_def pool_config_def one_worker_def)
  have 3: "o_step ?s2 ?s3"
    by (rule StartMoves [OF StartReturns [of _ "0 + 1"]])
      (simp_all add: psys_init_def NewWorkerPool_def pool_config_def one_worker_def)
  have "p_reach Q one_worker ?s3"
    by (rule p_next [OF p_next [OF p_next [OF p_start OwnerMoves [OF 1]] OwnerMoves [OF 2]] OwnerMoves [OF 3]])
  then show thesis by (rule that) (simp_all add: psys_init_def NewWorkerPool_def)
qed

text \<open>From an idle worker and an empty queue, a producer and the worker can bring a job into its hand.\<close>

lemma queue_offers:
  assumes "0 < n"
  obtains q1 q2 q3 where "mem_produce (qsys_init n) q1" "mem_produce q1 q2" "mem_poll None q2 (Inr blank_job) q3"
proof -
  let ?q = "qsys_init n"
  let ?q1 = "?q\<lparr>qs_enq := (qs_enq ?q)(0 := Some blank_job)\<rparr>"
  have 1: "q_step ?q ?q1" by (rule EnqueueCheck) (simp_all add: qsys_init_def NewMemoryQueue_def)
  have again: "job_defaults blank_job 1 = blank_job"
    by (simp add: blank_job_def job_defaults_def limit_defs fle_def)
  obtain m where m: "enqueue_select False None (job_defaults blank_job 1) (qs_m ?q1) = (None, m)"
      "ch_buf (mq_ch m) = [blank_job]" "mq_closed m = mq_closed (qs_m ?q1)"
    using assms
    by (simp add: qsys_init_def enqueue_select_def chan_send_def NewMemoryQueue_def make_chan_def again)
  have "qs_enq ?q1 0 = Some blank_job" "ctx_error None" by (simp_all add: ctx_error_def)
  note 2 = EnqueueSelect [OF this m(1)]
  let ?q2 = "?q1\<lparr>qs_m := m, qs_enq := (qs_enq ?q1)(0 := None),
      qs_in := qs_in ?q1 @ (if (None :: goerror option) = None then [job_defaults blank_job 1] else []),
      qs_panic := (qs_panic ?q1 \<or> None = Some (ErrPanic ''send on closed channel''))\<rparr>"
  obtain m' where m': "dequeue_select 2 None m = (Inr blank_job, m')"
    by (simp add: dequeue_select_def chan_recv_def m)
  have "mem_produce ?q ?q1" using 1 by (simp add: mem_produce_def)
  moreover have "mem_produce ?q1 ?q2" unfolding mem_produce_def using 2 m(3) by simp
  moreover have "mem_poll None ?q2 (Inr blank_job) (?q2\<lparr>qs_m := m', qs_out := qs_out ?q2 @ [blank_job]\<rparr>)"
    unfolding mem_poll_def using m' by (intro exI [of _ 2] exI [of _ m']) simp
  ultimately show thesis by (rule that)
qed

lemma job_taken:
  fixes s :: "qsys psys"
  assumes s: "ps_workers s = [Selecting]" "\<not> wp_stopped (ps_pool s)" "\<not> ps_cancelled s"
    "ps_queue s = qsys_init n" and n: "0 < n"
  obtains q1 q2 s3 s4 where "mem_produce (ps_queue s) q1" "mem_produce q1 q2"
    "w_step (memory_sys n) (s\<lparr>ps_queue := q2\<rparr>) s3" "w_step (memory_sys n) s3 s4" "ps_workers s4 = [Took blank_job]"
proof -
  obtain q1 q2 q3 where q: "mem_produce (qsys_init n) q1" "mem_produce q1 q2" "mem_poll None q2 (Inr blank_job) q3"
    by (rule queue_offers [OF n])
  let ?s2 = "s\<lparr>ps_queue := q2\<rparr>"
  let ?s3 = "goto_pc 0 Polling ?s2"
  have 3: "w_step (memory_sys n) ?s2 ?s3" by (rule SelectDefault) (simp_all add: s)
  have 4: "w_step (memory_sys n) ?s3 (goto_pc 0 (Took blank_job) (?s3\<lparr>ps_queue := q3, ps_taken := ps_taken ?s3 @ [blank_job]\<rparr>))"
    by (rule Dequeued) (simp_all add: s q memory_sys_def pool_ctx_def)
  show thesis by (rule that [OF q(1,2) [folded s(4)] 3 4]) (simp add: s)
qed

lemma one_worker_took: "\<exists>s. p_reach (memory_sys 3) one_worker s \<and> ps_workers s = [Took blank_job]"
proof -
  obtain s where s: "p_reach (memory_sys 3) one_worker s" "ps_workers s = [Selecting]"
    "\<not> wp_stopped (ps_pool s)" "\<not> ps_cancelled s" "ps_queue s = qy_init (memory_sys 3)"
    by (rule started_pool)
  then have "ps_queue s = qsys_init 3" by (simp add: memory_sys_def)
  from s(2-4) this obtain q1 q2 s3 s4 where t: "mem_produce (ps_queue s) q1" "mem_produce q1 q2"
    "w_step (memory_sys 3) (s\<lparr>ps_queue := q2\<rparr>) s3" "w_step (memory_sys 3) s3 s4" "ps_workers s4 = [Took blank_job]"
    by (rule job_taken) simp_all
  have move: "p_step (memory_sys 3) a (a\<lparr>ps_queue := q\<rparr>)" if "mem_produce (ps_queue a) q" for a q
    by (rule QueueMoves) (simp add: qy_moves_def memory_sys_def that)
  have "p_reach (memory_sys 3) one_worker (s\<lparr>ps_queue := q1\<rparr>\<lparr>ps_queue := q2\<rparr>)"
    by (rule p_next [OF p_next [OF s(1) move] move]) (use t in simp_all)
  then have "p_reach (memory_sys 3) one_worker (s\<lparr>ps_queue := q2\<rparr>)" by simp
  from p_next [OF p_next [OF this WorkerMoves [OF t(3)]] WorkerMoves [OF t(4)]] t(5) show ?thesis by blast
qed

lemma one_worker_stopping:
  obtains s where "p_reach Q one_worker s" "ps_owner s = Waiting" "ps_workers s = [Selecting]"
    "\<not> wp_running (ps_pool s)" "wp_stopped (ps_pool s)" "wp_cfg (ps_pool s) = pool_config one_worker"
proof -
  obtain s where s: "p_reach Q one_worker s" "ps_owner s = Outside" "ps_workers s = [Selecting]"
    "wp_running (ps_pool s)" "\<not> wp_stopped (ps_pool s)" "wp_cfg (ps_pool s) = pool_config one_worker"
    by (rule started_pool)
  from p_next [OF s(1) OwnerMoves [OF StopMoves [OF StopPool [OF s(2,4,5)]]]] show thesis
    by (rule that) (simp_all add: s)
qed

lemma one_worker_stopped:
  obtains s where "p_reach Q one_worker s" "ps_owner s = Waiting" "wp_wg (ps_pool s) = 0"
    "\<not> wp_running (ps_pool s)" "wp_stopped (ps_pool s)" "wp_cfg (ps_pool s) = pool_config one_worker"
proof -
  obtain s where s: "p_reach Q one_worker s" "ps_owner s = Waiting" "ps_workers s = [Selecting]"
    "\<not> wp_running (ps_pool s)" "wp_stopped (ps_pool s)" "wp_cfg (ps_pool s) = pool_config one_worker"
    by (rule one_worker_stopping)
  let ?s1 = "goto_pc 0 Leaving s"
  let ?s2 = "goto_pc 0 Gone (?s1\<lparr>ps_pool := (ps_pool ?s1)\<lparr>wp_wg := wp_wg (ps_pool ?s1) - 1\<rparr>\<rparr>)"
  have 1: "w_step Q s ?s1" by (rule SelectDone) (simp_all add: s)
  have 2: "w_step Q ?s1 ?s2" by (rule WorkerExit) (simp add: s)
  have r: "p_reach Q one_worker ?s2"
    by (rule p_next [OF p_next [OF s(1) WorkerMoves [OF 1]] WorkerMoves [OF 2]])
  have "wp_wg (ps_pool ?s2) = 0" using p_reach_inv [OF r] by (simp add: psys_inv_def s)
  with r show thesis by (intro that [OF r]) (simp_all add: s)
qed

section \<open>Properties\<close>

text \<open>
  C29.  No job is lost in the pool.  Under every interleaving of workers, producers, the owner and
  the closing of the in-memory queue, the jobs accepted by the queue are the jobs taken followed by
  the jobs pending, and the jobs taken are exactly those that are done and those in the hands of a
  worker, each held once.
\<close>

theorem pool_keeps_jobs:
  assumes "p_reach (memory_sys n) cfg s"
  shows "qs_in (ps_queue s) = ps_taken s @ mq_pending (qs_m (ps_queue s)) \<and>
    mset (ps_taken s) = mset (ps_done s) + sum_list (map in_hand (ps_workers s))"
  using p_reach_inv [OF assms] memory_p_reach [OF assms] q_reach_inv [of n "ps_queue s"]
  by (simp add: psys_inv_def qsys_inv_def)

theorem pool_keeps_jobs_witness:
  "\<exists>s. p_reach (memory_sys 3) one_worker s \<and> ps_workers s = [Took blank_job] \<and>
    qs_in (ps_queue s) = ps_taken s @ mq_pending (qs_m (ps_queue s)) \<and>
    mset (ps_taken s) = mset (ps_done s) + sum_list (map in_hand (ps_workers s))"
proof -
  obtain s where s: "p_reach (memory_sys 3) one_worker s" "ps_workers s = [Took blank_job]"
    using one_worker_took by blast
  from pool_keeps_jobs [OF s(1)] s show ?thesis by blast
qed

text \<open>
  C30.  The counters of the pool, on any queue.  While fewer than $2^{63}$ workers have been started,
  \<open>ActiveJobs\<close> is the number of workers between the two updates of that counter, never negative and
  never more than the workers still alive, whose number is the counter of the wait group;
  \<open>TotalProcessed\<close> is the number of jobs that \<open>ProcessJob\<close> was called for, modulo $2^{64}$.
\<close>

theorem pool_counters:
  assumes "p_reach Q cfg s" and "int (length (ps_workers s)) < 2 ^ 63"
  shows "ActiveJobs (ps_pool s) = sum_list (map busy (ps_workers s)) \<and>
    0 \<le> ActiveJobs (ps_pool s) \<and> ActiveJobs (ps_pool s) \<le> wp_wg (ps_pool s) \<and>
    wp_wg (ps_pool s) = sum_list (map alive (ps_workers s)) \<and>
    TotalProcessed (ps_pool s) =
      wrap64 (int (length (ps_done s)) + sum_list (map in_job (ps_workers s)))"
proof -
  note i = p_reach_inv [OF assms(1), unfolded psys_inv_def]
  have le: "0 \<le> sum_list (map busy ws) \<and> sum_list (map busy ws) \<le> sum_list (map alive ws) \<and>
      sum_list (map busy ws) \<le> int (length ws)" for ws
    by (induction ws) (auto simp: busy_def alive_def split: worker_pc.splits)
  then have "int64_ok (sum_list (map busy (ps_workers s)))"
    unfolding int64_ok_def using assms(2) le [of "ps_workers s"] by linarith
  then have "ActiveJobs (ps_pool s) = sum_list (map busy (ps_workers s))"
    using i by (simp add: ActiveJobs_def)
  with i le [of "ps_workers s"] show ?thesis by (simp add: TotalProcessed_def)
qed

theorem pool_counters_witness:
  "\<exists>s. p_reach (memory_sys 3) one_worker s \<and> ps_workers s = [Took blank_job] \<and>
    ActiveJobs (ps_pool s) = sum_list (map busy (ps_workers s)) \<and>
    0 \<le> ActiveJobs (ps_pool s) \<and> ActiveJobs (ps_pool s) \<le> wp_wg (ps_pool s) \<and>
    wp_wg (ps_pool s) = sum_list (map alive (ps_workers s)) \<and>
    TotalProcessed (ps_pool s) =
      wrap64 (int (length (ps_done s)) + sum_list (map in_job (ps_workers s)))"
proof -
  obtain s where s: "p_reach (memory_sys 3) one_worker s" "ps_workers s = [Took blank_job]"
    using one_worker_took by blast
  have "int (length (ps_workers s)) < 2 ^ 63" by (simp add: s)
  from pool_counters [OF s(1) this] s show ?thesis by blast
qed

text \<open>
  C31.  \<open>Stop\<close> waits and returns, on any queue whose polls return.  Once the stop channel is closed, the
  workers can make at most seven moves each, whatever the queue hands them; from every reachable
  state they have moves that lead to the end of all of them, where the wait ends; and \<open>Stop\<close> returns
  in no other state: every worker has ended then and every job that was ever taken from the queue
  was processed to its end.
\<close>

theorem stop_completes:
  assumes "polls_return Q" and "p_reach Q cfg s" and "ps_owner s = Waiting"
  shows "(\<forall>m s'. (w_step Q ^^ m) s s' \<longrightarrow> m \<le> 7 * length (ps_workers s)) \<and>
    (\<exists>s'. (w_step Q)\<^sup>*\<^sup>* s s' \<and> stop_step s' (s'\<lparr>ps_owner := Outside\<rparr>)) \<and>
    (\<forall>s'. stop_step s s' \<longrightarrow>
       ps_owner s' = Outside \<and> set (ps_workers s') \<subseteq> {Gone} \<and> mset (ps_taken s') = mset (ps_done s'))"
proof -
  have stop: "wp_stopped (ps_pool s)"
    using p_reach_inv [OF assms(2)] assms(3) by (simp add: psys_inv_def)
  have "m \<le> 7 * length (ps_workers s)" if "(w_step Q ^^ m) s s'" for m s'
    using w_steps_bound [OF that stop] pool_rank_bound [of s] by linarith
  moreover have "\<exists>s'. (w_step Q)\<^sup>*\<^sup>* s s' \<and> stop_step s' (s'\<lparr>ps_owner := Outside\<rparr>)"
  proof -
    obtain s' where s': "(w_step Q)\<^sup>*\<^sup>* s s'" "set (ps_workers s') \<subseteq> {Gone}"
      using w_steps_to_exit [OF assms(1) stop] by blast
    then have "wp_wg (ps_pool s') = 0"
      using p_reach_inv [OF w_steps_reach [OF s'(1) assms(2)]] alive_none [of "ps_workers s'"]
      by (simp add: psys_inv_def)
    with w_steps_owner [OF s'(1)] assms(3) have "stop_step s' (s'\<lparr>ps_owner := Outside\<rparr>)"
      by (intro StopReturns) simp_all
    with s'(1) show ?thesis by blast
  qed
  moreover have "ps_owner s' = Outside \<and> pool_idle s'" if "stop_step s s'" for s'
  proof -
    have "psys_inv s'" using p_reach_inv [OF assms(2)] that by (blast intro: stop_step_inv)
    moreover have "ps_owner s' = Outside \<and> wp_wg (ps_pool s') = 0"
      using that assms(3) by (cases rule: stop_step.cases) simp_all
    ultimately show ?thesis using psys_inv_idle by blast
  qed
  ultimately show ?thesis by (auto simp: pool_idle_def)
qed

theorem stop_completes_witness:
  "\<exists>s. p_reach (memory_sys 3) one_worker s \<and> ps_owner s = Waiting \<and> ps_workers s = [Selecting] \<and>
    (\<exists>s'. (w_step (memory_sys 3))\<^sup>*\<^sup>* s s' \<and> stop_step s' (s'\<lparr>ps_owner := Outside\<rparr>))"
proof -
  obtain s where s: "p_reach (memory_sys 3) one_worker s" "ps_owner s = Waiting" "ps_workers s = [Selecting]"
    by (rule one_worker_stopping)
  from stop_completes [OF polls_return_memory s(1,2)] s show ?thesis by blast
qed

text \<open>
  A pool cannot be used again.  \<open>Stop\<close> leaves its channel closed and \<open>Start\<close> does not make
  a new one, so stopping a pool that was started a second time panics: such a state is reachable
  already with one worker and an empty queue.
\<close>

lemma restarted_pool_panics:
  "\<exists>s. p_reach (memory_sys 3) one_worker s \<and> ps_owner s = Crashed"
proof -
  obtain s where s: "p_reach (memory_sys 3) one_worker s" "ps_owner s = Waiting" "wp_wg (ps_pool s) = 0"
    "\<not> wp_running (ps_pool s)" "wp_stopped (ps_pool s)" "wp_cfg (ps_pool s) = pool_config one_worker"
    by (rule one_worker_stopped)
  let ?s1 = "s\<lparr>ps_owner := Outside\<rparr>"
  let ?s2 = "?s1\<lparr>ps_pool := (ps_pool ?s1)\<lparr>wp_running := True\<rparr>, ps_owner := Spawning 0\<rparr>"
  let ?s3 = "?s2\<lparr>ps_pool := (ps_pool ?s2)\<lparr>wp_wg := wp_wg (ps_pool ?s2) + 1\<rparr>, ps_owner := Spawning (0 + 1),
      ps_workers := ps_workers ?s2 @ [Selecting]\<rparr>"
  let ?s4 = "?s3\<lparr>ps_owner := Outside\<rparr>"
  have 1: "o_step s ?s1" by (intro StopMoves StopReturns) (simp_all add: s)
  have 2: "o_step ?s1 ?s2" by (intro StartMoves StartPool) (simp_all add: s)
  have 3: "o_step ?s2 ?s3" by (intro StartMoves Spawn) (simp_all add: s pool_config_def one_worker_def)
  have 4: "o_step ?s3 ?s4"
    by (rule StartMoves [OF StartReturns [of _ "0 + 1"]]) (simp_all add: s pool_config_def one_worker_def)
  have 5: "o_step ?s4 (?s4\<lparr>ps_pool := (ps_pool ?s4)\<lparr>wp_running := False\<rparr>, ps_owner := Crashed\<rparr>)"
    by (intro StopMoves StopPanics) (simp_all add: s)
  have "p_reach (memory_sys 3) one_worker ?s3"
    by (rule p_next [OF p_next [OF p_next [OF s(1) OwnerMoves [OF 1]] OwnerMoves [OF 2]] OwnerMoves [OF 3]])
  from p_next [OF p_next [OF this OwnerMoves [OF 4]] OwnerMoves [OF 5]] show ?thesis
    by (intro exI conjI) (assumption, simp)
qed

end
