(* ===== verification/Go_Http.thy ===== *)
theory Go_Http
  imports Go_Prelude "HOL-Library.AList"
begin

text \<open>
  The part of \<^verbatim>\<open>net/http\<close> the gateway is written with: requests, the response writer with its
  rule that the first status wins and fixes the headers, \<^verbatim>\<open>http.Error\<close>, status texts, and the
  path cleaning of \<^verbatim>\<open>ServeMux\<close>.  Paths carry no percent escapes, so the escaped and the decoded
  path are the same.
\<close>

section \<open>Requests and responses\<close>

record http_request =
  rq_Method :: string
  rq_Path :: string
  rq_Body :: string

record http_response =
  hr_Header :: "(string \<times> string) list"
  hr_Status :: "int option"
  hr_Body :: string

definition new_response :: http_response where
  "new_response = \<lparr>hr_Header = [], hr_Status = None, hr_Body = []\<rparr>"

text \<open>\<^verbatim>\<open>w.Header().Set\<close>; once the status is written the change no longer reaches the client.\<close>

definition header_Set :: "string \<Rightarrow> string \<Rightarrow> http_response \<Rightarrow> http_response" where
  "header_Set k v w = (if hr_Status w = None then w\<lparr>hr_Header := AList.update k v (hr_Header w)\<rparr> else w)"

definition header_Del :: "string \<Rightarrow> http_response \<Rightarrow> http_response" where
  "header_Del k w = (if hr_Status w = None then w\<lparr>hr_Header := AList.delete k (hr_Header w)\<rparr> else w)"

definition WriteHeader :: "int \<Rightarrow> http_response \<Rightarrow> http_response" where
  "WriteHeader code w = (if hr_Status w = None then w\<lparr>hr_Status := Some code\<rparr> else w)"

definition http_Write :: "string \<Rightarrow> http_response \<Rightarrow> http_response" where
  "http_Write data w = (WriteHeader 200 w)\<lparr>hr_Body := hr_Body w @ data\<rparr>"

text \<open>The status the client sees: a handler that writes nothing answers 200.\<close>

definition hr_code :: "http_response \<Rightarrow> int" where
  "hr_code w = (case hr_Status w of Some c \<Rightarrow> c | None \<Rightarrow> 200)"

definition hr_header :: "string \<Rightarrow> http_response \<Rightarrow> string option" where
  "hr_header k w = map_of (hr_Header w) k"

definition StatusText :: "int \<Rightarrow> string" where
  "StatusText code =
     (if code = 200 then ''OK'' else if code = 202 then ''Accepted'' else if code = 204 then ''No Content''
      else if code = 301 then ''Moved Permanently'' else if code = 400 then ''Bad Request''
      else if code = 404 then ''Not Found'' else if code = 405 then ''Method Not Allowed''
      else if code = 429 then ''Too Many Requests'' else if code = 500 then ''Internal Server Error''
      else [])"

definition http_Error :: "string \<Rightarrow> int \<Rightarrow> http_response \<Rightarrow> http_response" where
  "http_Error msg code w =
     http_Write (msg @ [CHR 0x0A])
       (WriteHeader code
         (header_Set ''X-Content-Type-Options'' ''nosniff''
           (header_Set ''Content-Type'' ''text/plain; charset=utf-8'' (header_Del ''Content-Length'' w))))"

definition http_NotFound :: "http_response \<Rightarrow> http_response" where
  "http_NotFound w = http_Error ''404 page not found'' 404 w"

text \<open>The redirect of the router; the short HTML body it adds for some methods is left out.\<close>

definition http_Redirect :: "string \<Rightarrow> http_response \<Rightarrow> http_response" where
  "http_Redirect url w = WriteHeader 301 (header_Set ''Location'' url w)"

lemma response_simps [simp]:
  "hr_Status new_response = None"
  "hr_Status (header_Set k v w) = hr_Status w"
  "hr_Status (header_Del k w) = hr_Status w"
  "hr_Status w = None \<Longrightarrow> hr_Status (WriteHeader code w) = Some code"
  "hr_Status w = None \<Longrightarrow> hr_Status (http_Write s w) = Some 200"
  "hr_Status w = Some c \<Longrightarrow> hr_Status (http_Write s w) = Some c"
  "hr_Body (header_Set k v w) = hr_Body w"
  "hr_Body (header_Del k w) = hr_Body w"
  "hr_Body (WriteHeader code w) = hr_Body w"
  "hr_Body (http_Write s w) = hr_Body w @ s"
  by (simp_all add: new_response_def header_Set_def header_Del_def WriteHeader_def http_Write_def)

lemma header_simps [simp]:
  "hr_Status w = None \<Longrightarrow> hr_header k (header_Set k' v w) = (if k = k' then Some v else hr_header k w)"
  "hr_header k (header_Set k' v w) = (if hr_Status w = None \<and> k = k' then Some v else hr_header k w)"
  "hr_header k (WriteHeader code w) = hr_header k w"
  "hr_header k (http_Write s w) = hr_header k w"
  by (simp_all add: hr_header_def header_Set_def WriteHeader_def http_Write_def update_conv')

lemma header_Del_other [simp]: "k \<noteq> k' \<Longrightarrow> hr_header k (header_Del k' w) = hr_header k w"
  by (simp add: hr_header_def header_Del_def delete_conv')

lemma http_Error_simps [simp]:
  "hr_Status w = None \<Longrightarrow> hr_Status (http_Error msg code w) = Some code"
  "hr_Body (http_Error msg code w) = hr_Body w @ msg @ [CHR 0x0A]"
  "k \<notin> {''X-Content-Type-Options'', ''Content-Type'', ''Content-Length''} \<Longrightarrow>
     hr_header k (http_Error msg code w) = hr_header k w"
  by (simp_all add: http_Error_def)

section \<open>Paths\<close>

definition cleanPath :: "string \<Rightarrow> string" where
  "cleanPath p =
     (if p = [] then ''/''
      else
        let p = (if hd p = CHR ''/'' then p else CHR ''/'' # p);
            np = Clean p
        in if last p = CHR ''/'' \<and> np \<noteq> ''/'' then np @ ''/'' else np)"

lemma Clean_abs_path:
  assumes "list_all simple_name ps" and "ps \<noteq> []"
  shows "Clean (abs_path ps) = abs_path ps"
proof -
  have "\<forall>p\<in>set ps. CHR ''/'' \<notin> set p" using assms(1) by (auto simp: list_all_iff simple_name_def)
  then have "Split (abs_path ps) (CHR ''/'') = [] # ps"
    using Split_join_with [OF assms(2)] by (simp add: abs_path_def)
  then show ?thesis
    using clean_push_simple [OF assms(1)] by (simp add: Clean_def abs_path_def Let_def)
qed

lemma join_last:
  assumes "list_all simple_name ps" and "ps \<noteq> []"
  shows "join_with ''/'' ps \<noteq> [] \<and> last (join_with ''/'' ps) \<noteq> CHR ''/''"
  using assms
proof (induction ps rule: induct_list012)
  case (2 x)
  then show ?case by (auto simp: simple_name_def) (metis last_in_set)
next
  case (3 x y zs)
  then show ?case by simp
qed simp

lemma cleanPath_abs_path:
  assumes "list_all simple_name ps" and "ps \<noteq> []"
  shows "cleanPath (abs_path ps) = abs_path ps"
  using Clean_abs_path [OF assms] join_last [OF assms] by (simp add: cleanPath_def Let_def abs_path_def)

end
