(* ===== verification/Websocket.thy ===== *)
theory Websocket
  imports Go_Http Go_Json Memory_Queue Store
begin

text \<open>
  \<^verbatim>\<open>api/websocket.go\<close> and the server's record: streaming the events of a submission to a client.
  \<open>ws_turn\<close> is one pass of the forwarding loop, \<open>HandleWebSocket\<close> the handler around it.  The
  connection belongs to the WebSocket library, so its calls are answered by the host; an event is
  received from the channel by the operation \<open>recv\<close> of the bus.  \<^verbatim>\<open>Websocket_Stream\<close>
  interleaves the loop with publishers of the in-memory bus, \<^verbatim>\<open>Websocket_Session\<close> the whole handler.
\<close>

section \<open>The server\<close>

record ServerConfig =
  cfg_Addr :: string
  cfg_MaxQueueDepth :: int

text \<open>
  \<open>sv_recv\<close> is \<^verbatim>\<open><-eventCh\<close> on a channel of the bus: \<open>None\<close> when it would block,
  \<open>Some None\<close> when the channel is closed.
\<close>

record 'w Server =
  sv_cfg :: ServerConfig
  sv_queue :: "'w JobQueue"
  sv_eventBus :: "'w EventBus"
  sv_stateStore :: "'w StateStore"
  sv_recv :: "nat \<Rightarrow> ('w, ExecutionEvent option option) state"

section \<open>The route\<close>

definition ws_submission :: "string \<Rightarrow> string option" where
  "ws_submission path =
     (let pathParts = Split (Trim path ''/'') (CHR ''/'')
      in if length pathParts < 4 \<or> last pathParts \<noteq> ''ws'' then None
         else Some (pathParts ! (length pathParts - 2)))"

section \<open>The handler\<close>

definition is_final :: "EventStatus \<Rightarrow> bool" where
  "is_final st \<longleftrightarrow> st = StatusCompleted \<or> st = StatusFailed"

definition final_event :: "SubmissionState \<Rightarrow> gotime \<Rightarrow> ExecutionEvent" where
  "final_event state t =
     (event_of (ss_SubmissionID state) (ss_Status state) t)
       \<lparr>ev_Verdict := ss_Verdict state, ev_CurrentTestCase := ss_TotalTestCases state,
        ev_TotalTestCases := ss_TotalTestCases state, ev_WallTimeMs := ss_TotalWallTimeMs state,
        ev_CpuTimeMs := ss_TotalCpuTimeMs state, ev_PeakMemoryMB := ss_PeakMemoryMB state,
        ev_Compilation := ss_Compilation state, ev_ErrorDetails := ss_ErrorDetails state\<rparr>"

text \<open>The message types of the protocol, and the payload of a normal closure.\<close>

definition TextMessage :: int where "TextMessage = 1"

definition CloseMessage :: int where "CloseMessage = 8"

definition PingMessage :: int where "PingMessage = 9"

definition close_payload :: string where
  "close_payload = [CHR 0x03, CHR 0xE8] @ ''Execution Completed''"

text \<open>\<^verbatim>\<open>conn.WriteJSON\<close>: a value that cannot be encoded is not sent.\<close>

definition ws_WriteJSON :: "(goerror + string) \<Rightarrow> ('z world_scheme, unit) state" where
  "ws_WriteJSON v = (case v of Inl _ \<Rightarrow> ret () | Inr data \<Rightarrow> io_do (WsWriteJSON data))"

text \<open>
  One event: a value that cannot be encoded is skipped, a failed write ends the loop, and after a
  final event a close message ends it.  The value says whether the loop goes on.
\<close>

definition ws_forward ::
  "host \<Rightarrow> ExecutionEvent codec \<Rightarrow> ExecutionEvent \<Rightarrow> ('z world_scheme, bool) state" where
  "ws_forward h json event =
     (case cd_Marshal json event of
        Inl _ \<Rightarrow> ret True
      | Inr data \<Rightarrow> do {
          e \<leftarrow> io_err h (WsWriteMessage TextMessage data);
          if e \<noteq> None then ret False
          else if is_final (ev_Status event) then do {
            io_do (WsWriteMessage CloseMessage close_payload);
            ret False
          }
          else ret True
        })"

text \<open>
  One pass of the loop.  The host picks among the ready cases: 0 is the context, when it is done,
  1 the end of the listening goroutine, 2 the heartbeat, anything else the channel; with nothing
  to receive the loop keeps waiting.
\<close>

definition ws_turn ::
  "('z world_scheme) Server \<Rightarrow> host \<Rightarrow> ExecutionEvent codec \<Rightarrow> nat \<Rightarrow> ('z world_scheme, bool) state" where
  "ws_turn s h json eventCh = do {
     ctx \<leftarrow> perform CtxErr (h_ctxErr h);
     pick \<leftarrow> perform SelectCase (h_select h);
     if pick = 0 \<and> ctx \<noteq> None then ret False
     else if pick = 1 then ret False
     else if pick = 2 then do {
       e \<leftarrow> io_err h (WsWriteMessage PingMessage []);
       ret (e = None)
     }
     else do {
       r \<leftarrow> sv_recv s eventCh;
       (case r of
          None \<Rightarrow> ret True
        | Some None \<Rightarrow> ret False
        | Some (Some event) \<Rightarrow> ws_forward h json event)
     }
   }"

fun ws_loop ::
  "nat \<Rightarrow> ('z world_scheme) Server \<Rightarrow> host \<Rightarrow> ExecutionEvent codec \<Rightarrow> nat \<Rightarrow> ('z world_scheme, bool) state" where
  "ws_loop 0 s h json eventCh = ret True"
| "ws_loop (Suc n) s h json eventCh = do {
     go \<leftarrow> ws_turn s h json eventCh;
     if go then ws_loop n s h json eventCh else ret False
   }"

text \<open>
  The handler, with the number of passes the loop makes at most.  How it ended: the request was
  refused with a response, the library refused the upgrade, the connection was closed, a panic in
  the deferred cleanup, or the loop was not over after the passes given.
\<close>

datatype ws_result = WsRefused http_response | WsNotUpgraded | WsEnded | WsPanicked goerror | WsStreaming nat

definition ws_stream ::
  "nat \<Rightarrow> ('z world_scheme) Server \<Rightarrow> host \<Rightarrow> ExecutionEvent codec \<Rightarrow> string \<Rightarrow> ('z world_scheme, ws_result) state" where
  "ws_stream n s h json submissionID = do {
     sub \<leftarrow> eb_Subscribe (sv_eventBus s) submissionID;
     (case sub of
        Inl err \<Rightarrow> do {
          ws_WriteJSON (Inr (json_compact (JObject [(''error'', JString ''failed to subscribe to event bus'')]) @
            [CHR 0x0A]));
          io_do WsClose;
          ret WsEnded
        }
      | Inr eventCh \<Rightarrow> do {
          go \<leftarrow> ws_loop n s h json eventCh;
          if go then ret (WsStreaming eventCh)
          else do {
            e \<leftarrow> eb_Cancel (sv_eventBus s) submissionID eventCh;
            io_do WsClose;
            ret (case e of Some err \<Rightarrow> WsPanicked err | None \<Rightarrow> WsEnded)
          }
        })
   }"

definition HandleWebSocket ::
  "nat \<Rightarrow> ('z world_scheme) Server \<Rightarrow> host \<Rightarrow> ExecutionEvent codec \<Rightarrow> http_request \<Rightarrow> http_response \<Rightarrow>
   ('z world_scheme, ws_result) state" where
  "HandleWebSocket n s h json r w =
     (case ws_submission (rq_Path r) of
        None \<Rightarrow> ret (WsRefused (http_Error ''invalid websocket route'' 400 w))
      | Some submissionID \<Rightarrow> do {
          e \<leftarrow> io_err h WsUpgrade;
          if e \<noteq> None then ret WsNotUpgraded
          else do {
            g \<leftarrow> st_GetState (sv_stateStore s) submissionID;
            (case g of
               Inr state \<Rightarrow>
                 if is_final (ss_Status state) then do {
                   t \<leftarrow> io_now h;
                   ws_WriteJSON (case cd_Marshal json (final_event state t) of
                     Inl err \<Rightarrow> Inl err | Inr data \<Rightarrow> Inr (data @ [CHR 0x0A]));
                   io_do WsClose;
                   ret WsEnded
                 }
                 else ws_stream n s h json submissionID
             | Inl _ \<Rightarrow> ws_stream n s h json submissionID)
          }
        })"

section \<open>Receiving on the in-memory bus\<close>

definition recv_step :: "nat \<Rightarrow> MemoryEventBus \<Rightarrow> ExecutionEvent option option \<times> MemoryEventBus" where
  "recv_step c m =
     (case chan_recv (mb_heap m c) of
        Received ev ch \<Rightarrow> (Some (Some ev), m\<lparr>mb_heap := (mb_heap m)(c := ch)\<rparr>)
      | RecvClosed \<Rightarrow> (Some None, m)
      | RecvBlock \<Rightarrow> (None, m))"

definition mb_recv :: "nat \<Rightarrow> ('z mb_world_scheme, ExecutionEvent option option) state" where
  "mb_recv c = on_bus (recv_step c)"

lemma recv_step_subscribed:
  assumes "mb_subscribed sid c m"
  shows "recv_step c m =
    (case ch_buf (mb_heap m c) of
       [] \<Rightarrow> (None, m)
     | ev # rest \<Rightarrow> (Some (Some ev), m\<lparr>mb_heap := (mb_heap m)(c := (mb_heap m c)\<lparr>ch_buf := rest\<rparr>)\<rparr>))"
  using mb_subscribedD(2) [OF assms]
  by (auto simp: recv_step_def chan_recv_def live_chan_def split: list.splits)

lemma mb_subscribed_drain:
  assumes "mb_subscribed sid c m" and "ch_buf (mb_heap m c) = ev # rest"
  shows "mb_subscribed sid c (m\<lparr>mb_heap := (mb_heap m)(c := (mb_heap m c)\<lparr>ch_buf := rest\<rparr>)\<rparr>)"
proof -
  let ?m = "m\<lparr>mb_heap := (mb_heap m)(c := (mb_heap m c)\<lparr>ch_buf := rest\<rparr>)\<rparr>"
  have subs: "subs_of k ?m = subs_of k m" for k by (simp add: subs_of_def)
  have live: "live_chan ?m d" if "live_chan m d" for d
    using that assms(2) by (auto simp: live_chan_def chan_ok_def)
  have "mb_ok ?m"
    using mb_subscribedD(1) [OF assms(1)] live unfolding mb_ok_def subs by simp
  with assms(1) show ?thesis by (simp add: mb_subscribed_def subs)
qed

end
