(* ===== verification/Api_Server.thy ===== *)
theory Api_Server
  imports Websocket Languages Security
begin

text \<open>
  \<^verbatim>\<open>api/server.go\<close>: the HTTP gateway.  A handler takes the request and the response writer and runs
  over any queue, bus and store; decoding the body of a submission and encoding a stored state are
  the codecs of \<open>api_json\<close>, the metrics endpoint is a handler of the Prometheus library, and the
  submission identifier comes from the UUID library through the host.
\<close>

section \<open>Payloads\<close>

record SubmitRequest =
  sr_Language :: string
  sr_Code :: string
  sr_TimeLimitMs :: int
  sr_MemoryLimitMB :: int
  sr_CpuQuota :: float64
  sr_PidsLimit :: int
  sr_MaxOutputBytes :: int
  sr_SandboxType :: string
  sr_TestCases :: "TestCase list"

record SubmitResponse =
  sp_SubmissionID :: string
  sp_Status :: EventStatus
  sp_WsURL :: string
  sp_EnqueuedAt :: gotime

record api_json =
  aj_decode :: "string \<Rightarrow> goerror + SubmitRequest"
  aj_state :: "SubmissionState codec"
  aj_event :: "ExecutionEvent codec"

definition SubmitResponse_json :: "host \<Rightarrow> SubmitResponse \<Rightarrow> json" where
  "SubmitResponse_json h r =
     JObject [(''submission_id'', JString (sp_SubmissionID r)),
              (''status'', JString (EventStatus_String (sp_Status r))),
              (''ws_url'', JString (sp_WsURL r)),
              (''enqueued_at'', JString (h_timeJSON h (sp_EnqueuedAt r)))]"

section \<open>Configuration\<close>

definition server_config :: "ServerConfig \<Rightarrow> ServerConfig" where
  "server_config cfg =
     cfg\<lparr>cfg_Addr := (if cfg_Addr cfg = [] then '':8080'' else cfg_Addr cfg),
         cfg_MaxQueueDepth := (if cfg_MaxQueueDepth cfg \<le> 0 then 500 else cfg_MaxQueueDepth cfg)\<rparr>"

definition NewServer ::
  "ServerConfig \<Rightarrow> 'w JobQueue \<Rightarrow> 'w EventBus \<Rightarrow> 'w StateStore \<Rightarrow>
   (nat \<Rightarrow> ('w, ExecutionEvent option option) state) \<Rightarrow> 'w Server" where
  "NewServer cfg q bus st recv =
     \<lparr>sv_cfg = server_config cfg, sv_queue = q, sv_eventBus = bus, sv_stateStore = st, sv_recv = recv\<rparr>"

section \<open>Writing JSON\<close>

definition encode_json :: "(goerror + string) \<Rightarrow> http_response \<Rightarrow> http_response" where
  "encode_json v w = (case v of Inr data \<Rightarrow> http_Write (data @ [CHR 0x0A]) w | Inl _ \<Rightarrow> w)"

definition writeJSONError :: "http_response \<Rightarrow> int \<Rightarrow> string \<Rightarrow> http_response" where
  "writeJSONError w status message =
     encode_json (Inr (json_compact (JObject [(''error'', JString (StatusText status)), (''message'', JString message)])))
       (WriteHeader status (header_Set ''Content-Type'' ''application/json'' w))"

section \<open>Submitting\<close>

definition queued_state :: "string \<Rightarrow> SubmitRequest \<Rightarrow> gotime \<Rightarrow> SubmissionState" where
  "queued_state submissionID req now =
     (state_of submissionID StatusQueued VerdictAccepted (sr_Language req) (int (length (sr_TestCases req))))
       \<lparr>ss_CreatedAt := now, ss_UpdatedAt := now\<rparr>"

definition submitted_job :: "string \<Rightarrow> SubmitRequest \<Rightarrow> gotime \<Rightarrow> SubmissionJob" where
  "submitted_job submissionID req now =
     \<lparr>job_SubmissionID = submissionID, job_Language = sr_Language req, job_Code = sr_Code req,
      job_TimeLimitMs = sr_TimeLimitMs req, job_MemoryLimitMB = sr_MemoryLimitMB req,
      job_CpuQuota = sr_CpuQuota req, job_PidsLimit = sr_PidsLimit req,
      job_MaxOutputBytes = sr_MaxOutputBytes req, job_SandboxType = sr_SandboxType req,
      job_TestCases = sr_TestCases req, job_EnqueuedAt = now\<rparr>"

definition ws_url :: "string \<Rightarrow> string" where
  "ws_url submissionID = ''/api/v1/submissions/'' @ submissionID @ ''/ws''"

definition accepted_response :: "host \<Rightarrow> string \<Rightarrow> gotime \<Rightarrow> http_response \<Rightarrow> http_response" where
  "accepted_response h submissionID now w =
     encode_json (Inr (json_compact (SubmitResponse_json h
         \<lparr>sp_SubmissionID = submissionID, sp_Status = StatusQueued, sp_WsURL = ws_url submissionID,
          sp_EnqueuedAt = now\<rparr>)))
       (WriteHeader 202 (header_Set ''Content-Type'' ''application/json'' w))"

text \<open>Storing the initial state, queueing the job and announcing it, under a given identifier.\<close>

definition submit_as ::
  "('z world_scheme) Server \<Rightarrow> host \<Rightarrow> SubmitRequest \<Rightarrow> string \<Rightarrow> gotime \<Rightarrow> http_response \<Rightarrow>
   ('z world_scheme, http_response) state" where
  "submit_as s h req submissionID now w = do {
     e \<leftarrow> st_SaveState (sv_stateStore s) (queued_state submissionID req now);
     (case e of
        Some err \<Rightarrow> ret (writeJSONError w 500 (''Failed to initialize submission state: '' @ err_Error err))
      | None \<Rightarrow> do {
          e \<leftarrow> jq_Enqueue (sv_queue s) (submitted_job submissionID req now);
          (case e of
             Some err \<Rightarrow> ret (writeJSONError w 500 (''Failed to enqueue submission: '' @ err_Error err))
           | None \<Rightarrow> do {
               _ \<leftarrow> eb_Publish (sv_eventBus s) submissionID (event_of submissionID StatusQueued now);
               ret (accepted_response h submissionID now w)
             })
        })
   }"

text \<open>The part of the handler after validation and backpressure.\<close>

definition submit ::
  "('z world_scheme) Server \<Rightarrow> host \<Rightarrow> SubmitRequest \<Rightarrow> http_response \<Rightarrow> ('z world_scheme, http_response) state" where
  "submit s h req w = do {
     u \<leftarrow> perform UuidNew (h_uuid h);
     now \<leftarrow> io_now h;
     submit_as s h req (''sub-'' @ take 12 u) now w
   }"

definition overload_message :: "int \<Rightarrow> int \<Rightarrow> string" where
  "overload_message depth limit =
     ''Queue capacity exceeded (current depth: '' @ FormatInt depth @ '', max: '' @ FormatInt limit @
     ''); please retry shortly''"

definition handleSubmissions ::
  "('z world_scheme) Server \<Rightarrow> host \<Rightarrow> api_json \<Rightarrow> http_request \<Rightarrow> http_response \<Rightarrow>
   ('z world_scheme, http_response) state" where
  "handleSubmissions s h js r w =
     (if rq_Method r \<noteq> ''POST'' then ret (http_Error ''Method Not Allowed'' 405 w)
      else
        (case aj_decode js (rq_Body r) of
           Inl err \<Rightarrow> ret (writeJSONError w 400 (''Invalid JSON payload: '' @ err_Error err))
         | Inr req \<Rightarrow>
             if TrimSpace (sr_Code req) = [] then ret (writeJSONError w 400 ''code cannot be empty'')
             else
               (case Get h (init_registry h) (sr_Language req) of
                  Inl err \<Rightarrow> ret (writeJSONError w 400 (err_Error err))
                | Inr _ \<Rightarrow> do {
                    d \<leftarrow> jq_QueueDepth (sv_queue s);
                    (case d of
                       Inr depth \<Rightarrow>
                         if cfg_MaxQueueDepth (sv_cfg s) \<le> depth
                         then ret (writeJSONError (header_Set ''Retry-After'' ''5'' w) 429
                                (overload_message depth (cfg_MaxQueueDepth (sv_cfg s))))
                         else submit s h req w
                     | Inl _ \<Rightarrow> submit s h req w)
                  })))"

section \<open>Reading\<close>

definition detail_response ::
  "api_json \<Rightarrow> goerror + SubmissionState \<Rightarrow> http_response \<Rightarrow> http_response" where
  "detail_response js g w =
     (case g of
        Inl err \<Rightarrow>
          if errors_Is err ErrNotFound then writeJSONError w 404 ''submission not found''
          else writeJSONError w 500 (''failed to get submission: '' @ err_Error err)
      | Inr state \<Rightarrow>
          encode_json (cd_Marshal (aj_state js) state)
            (header_Set ''Content-Type'' ''application/json'' w))"

definition submission_detail ::
  "('z world_scheme) Server \<Rightarrow> api_json \<Rightarrow> http_request \<Rightarrow> http_response \<Rightarrow>
   ('z world_scheme, http_response) state" where
  "submission_detail s js r w =
     (if rq_Method r \<noteq> ''GET'' then ret (http_Error ''Method Not Allowed'' 405 w)
      else
        let id = TrimSpace (TrimPrefix (rq_Path r) ''/api/v1/submissions/'')
        in if id = [] then ret (writeJSONError w 400 ''missing submission id'')
           else do {
             g \<leftarrow> st_GetState (sv_stateStore s) id;
             ret (detail_response js g w)
           })"

text \<open>What a request comes to: a response, or a connection handed over to the WebSocket handler.\<close>

datatype outcome = Responded http_response | Streamed ws_result

definition respond :: "('w, http_response) state \<Rightarrow> ('w, outcome) state" where
  "respond m = do { w \<leftarrow> m; ret (Responded w) }"

definition handleSubmissionDetailOrWS ::
  "nat \<Rightarrow> ('z world_scheme) Server \<Rightarrow> host \<Rightarrow> api_json \<Rightarrow> http_request \<Rightarrow> http_response \<Rightarrow>
   ('z world_scheme, outcome) state" where
  "handleSubmissionDetailOrWS n s h js r w =
     (if HasSuffix (rq_Path r) ''/ws''
      then do { res \<leftarrow> HandleWebSocket n s h (aj_event js) r w; ret (Streamed res) }
      else respond (submission_detail s js r w))"

definition handleHealth ::
  "('z world_scheme) Server \<Rightarrow> host \<Rightarrow> http_response \<Rightarrow> ('z world_scheme, http_response) state" where
  "handleHealth s h w = do {
     d \<leftarrow> jq_QueueDepth (sv_queue s);
     t \<leftarrow> io_now h;
     ret (encode_json (Inr (json_compact (JObject
            [(''queue_depth'', JInt (case d of Inr depth \<Rightarrow> depth | Inl _ \<Rightarrow> 0)),
             (''status'', JString ''healthy''),
             (''timestamp'', JString (h_formatTime h ''2006-01-02T15:04:05Z07:00'' t))])))
          (header_Set ''Content-Type'' ''application/json'' w))
   }"

section \<open>Routing\<close>

datatype endpoint = EpSubmissions | EpDetail | EpHealth | EpMetrics

text \<open>The patterns of the router: three exact paths and one subtree.\<close>

definition mux_match :: "string \<Rightarrow> endpoint option" where
  "mux_match p =
     (if p = ''/api/v1/submissions'' then Some EpSubmissions
      else if HasPrefix p ''/api/v1/submissions/'' then Some EpDetail
      else if p = ''/api/v1/health'' then Some EpHealth
      else if p = ''/metrics'' then Some EpMetrics
      else None)"

definition mux ::
  "nat \<Rightarrow> ('z world_scheme) Server \<Rightarrow> host \<Rightarrow> api_json \<Rightarrow> (http_request \<Rightarrow> http_response \<Rightarrow> http_response) \<Rightarrow>
   http_request \<Rightarrow> http_response \<Rightarrow> ('z world_scheme, outcome) state" where
  "mux n s h js metrics r w =
     (if rq_Method r \<noteq> ''CONNECT'' \<and> cleanPath (rq_Path r) \<noteq> rq_Path r
      then ret (Responded (http_Redirect (cleanPath (rq_Path r)) w))
      else
        (case mux_match (rq_Path r) of
           None \<Rightarrow> ret (Responded (http_NotFound w))
         | Some EpSubmissions \<Rightarrow> respond (handleSubmissions s h js r w)
         | Some EpDetail \<Rightarrow> handleSubmissionDetailOrWS n s h js r w
         | Some EpHealth \<Rightarrow> respond (handleHealth s h w)
         | Some EpMetrics \<Rightarrow> ret (Responded (metrics r w))))"

definition cors_headers :: "http_response \<Rightarrow> http_response" where
  "cors_headers w =
     header_Set ''Access-Control-Allow-Headers'' ''Content-Type, Authorization''
       (header_Set ''Access-Control-Allow-Methods'' ''GET, POST, OPTIONS''
         (header_Set ''Access-Control-Allow-Origin'' ''*'' w))"

definition corsMiddleware ::
  "(http_request \<Rightarrow> http_response \<Rightarrow> ('w, outcome) state) \<Rightarrow> http_request \<Rightarrow> http_response \<Rightarrow> ('w, outcome) state" where
  "corsMiddleware next_handler r w =
     (if rq_Method r = ''OPTIONS'' then ret (Responded (WriteHeader 204 (cors_headers w)))
      else next_handler r (cors_headers w))"

definition ServeHTTP ::
  "nat \<Rightarrow> ('z world_scheme) Server \<Rightarrow> host \<Rightarrow> api_json \<Rightarrow> (http_request \<Rightarrow> http_response \<Rightarrow> http_response) \<Rightarrow>
   http_request \<Rightarrow> ('z world_scheme, outcome) state" where
  "ServeHTTP n s h js metrics r = corsMiddleware (mux n s h js metrics) r new_response"

section \<open>Starting and stopping\<close>

definition server_Start :: "('z world_scheme) Server \<Rightarrow> host \<Rightarrow> ('z world_scheme, goerror option) state" where
  "server_Start s h = do {
     e \<leftarrow> io_err h (ListenAndServe (cfg_Addr (sv_cfg s)));
     ret (case e of
            Some err \<Rightarrow> if errors_Is err (ErrHost ''http: Server closed'') then None else Some err
          | None \<Rightarrow> None)
   }"

definition server_Shutdown :: "host \<Rightarrow> int \<Rightarrow> ('z world_scheme, goerror option) state" where
  "server_Shutdown h timeout = io_err h (ServerShutdown timeout)"

end
