(* ===== verification/Websocket_Stream.thy ===== *)
theory Websocket_Stream
  imports Websocket Sample_Host
begin

text \<open>
  The forwarding loop of a WebSocket against publishers.  A state is whether the loop goes on, the
  world, and the events published for the submission since the client subscribed; the loop takes
  its passes one at a time and any event for any submission may be published, and anybody may
  subscribe, in between.  The invariant accounts for every message sent to the client.
\<close>

section \<open>Interleaving\<close>

inductive ws_reach ::
  "('z mb_world_scheme) Server \<Rightarrow> host \<Rightarrow> ExecutionEvent codec \<Rightarrow> string \<Rightarrow> nat \<Rightarrow> 'z mb_world_scheme \<Rightarrow>
   bool \<Rightarrow> 'z mb_world_scheme \<Rightarrow> ExecutionEvent list \<Rightarrow> bool"
  for s h json sid c w0 where
  StreamStart: "ws_reach s h json sid c w0 True w0 []"
| StreamTurn: "ws_reach s h json sid c w0 True w pub \<Longrightarrow> run_state (ws_turn s h json c) w = (go, w') \<Longrightarrow>
    ws_reach s h json sid c w0 go w' pub"
| StreamPublish: "ws_reach s h json sid c w0 go w pub \<Longrightarrow>
    ws_reach s h json sid c w0 go (w\<lparr>w_bus := snd (publish_step sid ev (w_bus w))\<rparr>) (pub @ [ev])"
| StreamOther: "ws_reach s h json sid c w0 go w pub \<Longrightarrow> sid' \<noteq> sid \<Longrightarrow>
    ws_reach s h json sid c w0 go (w\<lparr>w_bus := snd (publish_step sid' ev (w_bus w))\<rparr>) pub"
| StreamSubscribe: "ws_reach s h json sid c w0 go w pub \<Longrightarrow>
    ws_reach s h json sid c w0 go (w\<lparr>w_bus := snd (subscribe_step sid' (w_bus w))\<rparr>) pub"

section \<open>Messages\<close>

text \<open>The text and close messages among the calls to the host, in order; heartbeats are not counted.\<close>

definition ws_messages :: "io_op list \<Rightarrow> (int \<times> string) list" where
  "ws_messages ops =
     concat (map (\<lambda>op. case op of
       WsWriteMessage k d \<Rightarrow> if k = PingMessage then [] else [(k, d)] | _ \<Rightarrow> []) ops)"

lemma ws_messages_simps [simp]:
  "ws_messages [] = []" "ws_messages (xs @ ys) = ws_messages xs @ ws_messages ys"
  by (simp_all add: ws_messages_def)

lemma ws_messages_single [simp]:
  "ws_messages [CtxErr] = []" "ws_messages [SelectCase] = []"
  "ws_messages (CtxErr # ops) = ws_messages ops" "ws_messages (SelectCase # ops) = ws_messages ops"
  "ws_messages (WsWriteMessage k d # ops) = (if k = PingMessage then [] else [(k, d)]) @ ws_messages ops"
  by (simp_all add: ws_messages_def)

definition encodings :: "ExecutionEvent codec \<Rightarrow> ExecutionEvent list \<Rightarrow> string list" where
  "encodings json evs =
     concat (map (\<lambda>ev. case cd_Marshal json ev of Inr d \<Rightarrow> [d] | Inl _ \<Rightarrow> []) evs)"

definition ends_stream :: "ExecutionEvent codec \<Rightarrow> ExecutionEvent \<Rightarrow> bool" where
  "ends_stream json ev \<longleftrightarrow> (case cd_Marshal json ev of Inr _ \<Rightarrow> is_final (ev_Status ev) | Inl _ \<Rightarrow> False)"

lemma encodings_simps [simp]:
  "encodings json [] = []" "encodings json (xs @ ys) = encodings json xs @ encodings json ys"
  by (simp_all add: encodings_def)

text \<open>What forwarding one event adds.\<close>

lemma ws_forward_run:
  assumes "run_state (ws_forward h json ev) w = (go, w')"
  obtains ops where "w' = w\<lparr>w_trace := w_trace w @ ops\<rparr>" and "go \<longrightarrow> \<not> ends_stream json ev"
    and "ws_messages ops = map (Pair TextMessage) (encodings json [ev]) \<or>
      \<not> go \<and> ends_stream json ev \<and>
      ws_messages ops = map (Pair TextMessage) (encodings json [ev]) @ [(CloseMessage, close_payload)]"
proof (cases "cd_Marshal json ev")
  case (Inl e)
  with assms show thesis
    by (intro that [of "[]"]) (simp_all add: ws_forward_def ends_stream_def encodings_def)
next
  case (Inr d)
  let ?op = "WsWriteMessage TextMessage d"
  have sent: "ws_messages [?op] = map (Pair TextMessage) (encodings json [ev])"
    by (simp add: encodings_def Inr TextMessage_def PingMessage_def)
  show thesis
  proof (cases "h_err h (w_trace w) ?op = None \<and> is_final (ev_Status ev)")
    case True
    with assms Inr sent show thesis
      by (intro that [of "[?op, WsWriteMessage CloseMessage close_payload]"])
        (simp_all add: ws_forward_def ends_stream_def CloseMessage_def PingMessage_def TextMessage_def)
  next
    case False
    with assms Inr sent show thesis
      by (intro that [of "[?op]"]) (auto simp: ws_forward_def ends_stream_def split: if_splits)
  qed
qed

text \<open>One pass of the loop: nothing for the client, or the next event of the channel.\<close>

lemma ws_turn_run:
  assumes "sv_recv s = mb_recv" and "mb_subscribed sid c (w_bus w)"
    and "run_state (ws_turn s h json c) w = (go, w')"
  obtains (quiet) ops where "w' = w\<lparr>w_trace := w_trace w @ ops\<rparr>" and "ws_messages ops = []"
  | (event) ev rest ops where "mb_seen c w = ev # rest"
    and "w' = w\<lparr>w_trace := w_trace w @ ops,
      w_bus := (w_bus w)\<lparr>mb_heap := (mb_heap (w_bus w))(c := (mb_heap (w_bus w) c)\<lparr>ch_buf := rest\<rparr>)\<rparr>\<rparr>"
    and "go \<longrightarrow> \<not> ends_stream json ev"
    and "ws_messages ops = map (Pair TextMessage) (encodings json [ev]) \<or>
      \<not> go \<and> ends_stream json ev \<and>
      ws_messages ops = map (Pair TextMessage) (encodings json [ev]) @ [(CloseMessage, close_payload)]"
proof -
  let ?p = "[CtxErr, SelectCase]"
  let ?w = "w\<lparr>w_trace := w_trace w @ ?p\<rparr>"
  let ?pick = "h_select h (w_trace w @ [CtxErr])"
  show thesis
  proof (cases "(?pick = 0 \<and> h_ctxErr h (w_trace w) \<noteq> None) \<or> ?pick = 1 \<or> ?pick = 2")
    case True
    with assms(3) show thesis
      by (intro quiet [of "?p @ (if ?pick = 2 then [WsWriteMessage PingMessage []] else [])"])
        (auto simp: ws_turn_def split: if_splits)
  next
    case False
    note pick = this
    show thesis
    proof (cases "ch_buf (mb_heap (w_bus w) c)")
      case Nil
      with pick assms(3) show thesis
        by (intro quiet [of ?p]) (auto simp: ws_turn_def assms(1) mb_recv_def recv_step_subscribed [OF assms(2)])
    next
      case (Cons ev rest)
      let ?m = "(w_bus w)\<lparr>mb_heap := (mb_heap (w_bus w))(c := (mb_heap (w_bus w) c)\<lparr>ch_buf := rest\<rparr>)\<rparr>"
      have "run_state (ws_forward h json ev) (?w\<lparr>w_bus := ?m\<rparr>) = (go, w')"
        using pick assms(3) Cons
        by (auto simp: ws_turn_def assms(1) mb_recv_def recv_step_subscribed [OF assms(2)] split: if_splits)
      then obtain ops where "w' = ?w\<lparr>w_bus := ?m, w_trace := w_trace ?w @ ops\<rparr>" "go \<longrightarrow> \<not> ends_stream json ev"
        "ws_messages ops = map (Pair TextMessage) (encodings json [ev]) \<or>
          \<not> go \<and> ends_stream json ev \<and>
          ws_messages ops = map (Pair TextMessage) (encodings json [ev]) @ [(CloseMessage, close_payload)]"
        by (elim ws_forward_run) simp
      with Cons show thesis by (intro event [of ev rest "?p @ ops"]) (simp_all add: mb_seen_def)
    qed
  qed
qed

section \<open>Invariant\<close>

lemma subscribe_step_closed [simp]: "mb_closed (snd (subscribe_step sid m)) = mb_closed m"
  by (simp add: subscribe_step_def Let_def)

lemma publish_other_subscribed:
  assumes "mb_subscribed sid c m" and "sid' \<noteq> sid"
  shows "mb_subscribed sid c (snd (publish_step sid' ev m))"
    and "ch_buf (mb_heap (snd (publish_step sid' ev m)) c) = ch_buf (mb_heap m c)"
proof -
  note D = mb_subscribedD [OF assms(1)]
  have "c \<notin> set (subs_of sid' m)"
    using assms mb_okD(4) [OF D(1), of c sid sid'] by (auto simp: mb_subscribed_def)
  then show "ch_buf (mb_heap (snd (publish_step sid' ev m)) c) = ch_buf (mb_heap m c)"
    by (simp add: publish_step_ok [OF D(1)])
  show "mb_subscribed sid c (snd (publish_step sid' ev m))"
    using assms(1) mb_ok_publish [OF D(1), of sid' ev] D(3)
    by (auto simp: mb_subscribed_def publish_step_ok [OF D(1)] subs_of_def)
qed

lemma subscribe_other_subscribed:
  assumes "mb_subscribed sid c m"
  shows "mb_subscribed sid c (snd (subscribe_step sid' m))"
    and "ch_buf (mb_heap (snd (subscribe_step sid' m)) c) = ch_buf (mb_heap m c)"
proof -
  note D = mb_subscribedD [OF assms]
  have "c \<noteq> mb_next m" using D(2) by (simp add: live_chan_def)
  then show "ch_buf (mb_heap (snd (subscribe_step sid' m)) c) = ch_buf (mb_heap m c)"
    by (simp add: subscribe_step_def Let_def)
  show "mb_subscribed sid c (snd (subscribe_step sid' m))"
    using assms mb_ok_subscribe [OF D(1), of sid'] D(3)
    by (auto simp: mb_subscribed_def)
qed

definition ws_log ::
  "ExecutionEvent codec \<Rightarrow> bool \<Rightarrow> ExecutionEvent list \<Rightarrow> (int \<times> string) list \<Rightarrow> bool" where
  "ws_log json go got msgs \<longleftrightarrow>
     list_all (\<lambda>ev. \<not> ends_stream json ev) (if go then got else butlast got) \<and>
     (msgs = map (Pair TextMessage) (encodings json got) \<or>
      \<not> go \<and> got \<noteq> [] \<and> ends_stream json (last got) \<and>
      msgs = map (Pair TextMessage) (encodings json got) @ [(CloseMessage, close_payload)])"

definition ws_account :: "ExecutionEvent list \<Rightarrow> ExecutionEvent list \<Rightarrow> ExecutionEvent list \<Rightarrow> bool" where
  "ws_account got seen pub \<longleftrightarrow> subseq (got @ seen) pub \<and> (length pub \<le> 64 \<longrightarrow> got @ seen = pub)"

definition ws_inv where
  "ws_inv json sid c w0 go w pub \<longleftrightarrow>
     mb_subscribed sid c (w_bus w) \<and>
     (\<exists>got ops. w_trace w = w_trace w0 @ ops \<and> ws_account got (mb_seen c w) pub \<and>
        ws_log json go got (ws_messages ops))"

lemma ws_account_publish:
  assumes "ws_account got seen pub"
  shows "ws_account got (take 64 (seen @ [ev])) (pub @ [ev])"
proof (cases "length seen < 64")
  case True
  with assms show ?thesis by (auto simp: ws_account_def subseq_append' simp flip: append_assoc)
next
  case False
  have "length seen \<le> length pub"
    using assms list_emb_length [of "(=)" "got @ seen" pub] by (auto simp: ws_account_def)
  moreover have "subseq (got @ take 64 seen) pub"
    using assms subseq_order.trans [of "got @ take 64 seen" "got @ seen" pub]
      prefix_imp_subseq [of "got @ take 64 seen" "got @ seen"]
    by (simp add: ws_account_def take_is_prefix)
  ultimately show ?thesis using False by (auto simp: ws_account_def intro: subseq_rev_drop_many)
qed

lemma ws_log_quiet: "ws_log json True got msgs \<Longrightarrow> ws_log json go got msgs"
  by (cases got rule: rev_cases) (auto simp: ws_log_def)

lemma ws_log_event:
  assumes "ws_log json True got msgs" and "go \<longrightarrow> \<not> ends_stream json ev"
    and "new = map (Pair TextMessage) (encodings json [ev]) \<or>
      \<not> go \<and> ends_stream json ev \<and>
      new = map (Pair TextMessage) (encodings json [ev]) @ [(CloseMessage, close_payload)]"
  shows "ws_log json go (got @ [ev]) (msgs @ new)"
  using assms by (auto simp: ws_log_def)

lemma ws_inv_turn:
  assumes s: "sv_recv s = mb_recv" and i: "ws_inv json sid c w0 True w pub"
    and r: "run_state (ws_turn s h json c) w = (go, w')"
  shows "ws_inv json sid c w0 go w' pub"
proof -
  from i obtain got ops where sub: "mb_subscribed sid c (w_bus w)"
    and g: "w_trace w = w_trace w0 @ ops" "ws_account got (mb_seen c w) pub" "ws_log json True got (ws_messages ops)"
    unfolding ws_inv_def by blast
  from s sub r show ?thesis
  proof (cases rule: ws_turn_run)
    case (quiet ops')
    with sub g show ?thesis unfolding ws_inv_def
      by (intro conjI exI [of _ got] exI [of _ "ops @ ops'"]) (simp_all add: mb_seen_def ws_log_quiet)
  next
    case (event ev rest ops')
    have "mb_subscribed sid c (w_bus w')"
      using mb_subscribed_drain [OF sub] event(1,2) by (simp add: mb_seen_def)
    moreover have "ws_account (got @ [ev]) (mb_seen c w') pub"
      using g(2) event(1,2) by (simp add: ws_account_def mb_seen_def)
    moreover have "w_trace w' = w_trace w0 @ (ops @ ops')" using g(1) event(2) by simp
    ultimately show ?thesis
      unfolding ws_inv_def
      using ws_log_event [OF g(3) event(3,4)] by (metis ws_messages_simps(2))
  qed
qed

lemma ws_reach_inv:
  assumes "ws_reach s h json sid c w0 go w pub" and "sv_recv s = mb_recv"
    and "mb_subscribed sid c (w_bus w0)" and "mb_seen c w0 = []"
  shows "ws_inv json sid c w0 go w pub"
  using assms(1)
proof (induction rule: ws_reach.induct)
  case StreamStart
  show ?case
    unfolding ws_inv_def using assms(3,4)
    by (intro conjI exI [of _ "[]"]) (simp_all add: ws_account_def ws_log_def)
next
  case (StreamTurn w pub go w')
  then show ?case using ws_inv_turn [OF assms(2)] by blast
next
  case (StreamPublish go w pub ev)
  then obtain got ops where sub: "mb_subscribed sid c (w_bus w)"
    and g: "w_trace w = w_trace w0 @ ops" "ws_account got (mb_seen c w) pub" "ws_log json go got (ws_messages ops)"
    unfolding ws_inv_def by blast
  from ws_account_publish [OF g(2), of ev]
  have "ws_account got (mb_seen c (w\<lparr>w_bus := snd (publish_step sid ev (w_bus w))\<rparr>)) (pub @ [ev])"
    using publish_step_subscribed(2) [OF sub, of ev] by (simp add: mb_seen_def)
  with sub g publish_step_subscribed(1) [OF sub, of ev] show ?case
    unfolding ws_inv_def by (intro conjI exI [of _ got] exI [of _ ops]) simp_all
next
  case (StreamOther go w pub sid' ev)
  then show ?case unfolding ws_inv_def by (auto simp: mb_seen_def publish_other_subscribed)
next
  case (StreamSubscribe go w pub sid')
  then show ?case unfolding ws_inv_def by (auto simp: mb_seen_def subscribe_other_subscribed)
qed

section \<open>Properties\<close>

text \<open>
  A server on the in-memory services, and a host that always lets the channel go first.
\<close>

definition memory_server :: "host \<Rightarrow> ServerConfig \<Rightarrow> ('z mem_world_scheme) Server" where
  "memory_server h cfg =
     \<lparr>sv_cfg = cfg, sv_queue = MemoryQueue_ops h, sv_eventBus = MemoryEventBus_ops h,
      sv_stateStore = MemoryStore_ops h, sv_recv = mb_recv\<rparr>"

definition eager_host :: host where
  "eager_host = sample_host\<lparr>h_select := (\<lambda>_. 3)\<rparr>"

lemma eager_simps [simp]:
  "h_select eager_host tr = 3" "h_err eager_host tr op = None" "h_ctxErr eager_host tr = None"
  by (simp_all add: eager_host_def sample_host_def)

lemma memory_server_simps [simp]:
  "sv_cfg (memory_server h cfg) = cfg" "sv_queue (memory_server h cfg) = MemoryQueue_ops h"
  "sv_eventBus (memory_server h cfg) = MemoryEventBus_ops h"
  "sv_stateStore (memory_server h cfg) = MemoryStore_ops h" "sv_recv (memory_server h cfg) = mb_recv"
  by (simp_all add: memory_server_def)

text \<open>
  C34.  What a WebSocket client receives.  However publishing interleaves with the loop, the messages
  written to the connection are the encodings of the events taken from the channel, in order; those
  events followed by the ones still buffered are a subsequence of the published ones, and all of
  them when at most 64 were published; and a final event is the last one forwarded: nothing but the
  close message follows it, and the loop ends.
\<close>

theorem ws_streams:
  assumes "sv_recv s = mb_recv" and "mb_subscribed sid c (w_bus w0)" and "mb_seen c w0 = []"
    and "ws_reach s h json sid c w0 go w pub"
  shows "\<exists>got ops. w_trace w = w_trace w0 @ ops \<and> subseq (got @ mb_seen c w) pub \<and>
    (length pub \<le> 64 \<longrightarrow> got @ mb_seen c w = pub) \<and>
    list_all (\<lambda>ev. \<not> ends_stream json ev) (if go then got else butlast got) \<and>
    (ws_messages ops = map (Pair TextMessage) (encodings json got) \<or>
     \<not> go \<and> got \<noteq> [] \<and> ends_stream json (last got) \<and>
     ws_messages ops = map (Pair TextMessage) (encodings json got) @ [(CloseMessage, close_payload)])"
  using ws_reach_inv [OF assms(4,1-3)] unfolding ws_inv_def ws_account_def ws_log_def by blast

theorem ws_streams_witness:
  "\<exists>w pub. ws_reach (memory_server eager_host \<lparr>cfg_Addr = [], cfg_MaxQueueDepth = 0\<rparr>) eager_host sample_codec
      ''sub-1'' 0 sample_world True w pub \<and> ws_messages (w_trace w) \<noteq> [] \<and>
    (\<exists>got ops. w_trace w = w_trace sample_world @ ops \<and> subseq (got @ mb_seen 0 w) pub \<and>
      (length pub \<le> 64 \<longrightarrow> got @ mb_seen 0 w = pub) \<and>
      list_all (\<lambda>ev. \<not> ends_stream sample_codec ev) (if True then got else butlast got) \<and>
      (ws_messages ops = map (Pair TextMessage) (encodings sample_codec got) \<or>
       \<not> True \<and> got \<noteq> [] \<and> ends_stream sample_codec (last got) \<and>
       ws_messages ops = map (Pair TextMessage) (encodings sample_codec got) @ [(CloseMessage, close_payload)]))"
proof -
  let ?s = "memory_server eager_host \<lparr>cfg_Addr = [], cfg_MaxQueueDepth = 0\<rparr> :: mem_world Server"
  let ?ev = "event_of ''sub-1'' StatusRunning 1"
  let ?w1 = "sample_world\<lparr>w_bus := snd (publish_step ''sub-1'' ?ev (w_bus sample_world))\<rparr>"
  have seen: "mb_seen 0 sample_world = []"
    by (simp add: mb_seen_def sample_world_def sample_bus_def subscribe_step_def NewMemoryEventBus_def make_chan_def)
  have s: "sv_recv ?s = mb_recv" by simp
  have r1: "ws_reach ?s eager_host sample_codec ''sub-1'' 0 sample_world True ?w1 ([] @ [?ev])"
    by (rule StreamPublish [OF StreamStart])
  have buf: "ch_buf (mb_heap (w_bus ?w1) 0) = [?ev]"
    using publish_step_subscribed(2) [OF sample_subscribed, of ?ev] seen by (simp add: mb_seen_def)
  have sub: "mb_subscribed ''sub-1'' 0 (w_bus ?w1)"
    using publish_step_subscribed(1) [OF sample_subscribed, of ?ev] by simp
  have m: "cd_Marshal sample_codec ?ev = Inr ''E''" by (simp add: sample_codec_def one_codec_def)
  have fin: "\<not> is_final (ev_Status ?ev)" by (simp add: is_final_def event_of_def)
  obtain bus where rv: "recv_step 0 (snd (publish_step ''sub-1'' ?ev (w_bus sample_world))) = (Some (Some ?ev), bus)"
    using recv_step_subscribed [OF sub] buf by auto
  have "\<exists>w'. run_state (ws_turn ?s eager_host sample_codec 0) ?w1 = (True, w') \<and> ws_messages (w_trace w') \<noteq> []"
    by (simp add: ws_turn_def mb_recv_def rv ws_forward_def m fin TextMessage_def PingMessage_def)
  then obtain w' where t: "run_state (ws_turn ?s eager_host sample_codec 0) ?w1 = (True, w')"
      and sent: "ws_messages (w_trace w') \<noteq> []" by blast
  note r2 = StreamTurn [OF r1 t]
  from ws_streams [OF s sample_subscribed seen r2] r2 sent show ?thesis by blast
qed

end
