(* ===== verification/Api_Correct.thy ===== *)
theory Api_Correct
  imports Api_Server Websocket_Stream
begin

text \<open>
  What the gateway does to the queue and the store, proved once in the locale \<open>gateway\<close> from the
  contracts of the two and then for the in-memory services; and the routes of the gateway's own
  links.
\<close>

section \<open>Statuses\<close>

lemma writeJSONError_status [simp]:
  "hr_Status w = None \<Longrightarrow> hr_Status (writeJSONError w code msg) = Some code"
  by (simp add: writeJSONError_def encode_json_def)

lemma accepted_response_status [simp]:
  "hr_Status w = None \<Longrightarrow> hr_Status (accepted_response h sid now w) = Some 202"
  by (simp add: accepted_response_def encode_json_def)

lemma submitted_frame [simp]:
  "job_SubmissionID (submitted_job sid req now) = sid" "ss_SubmissionID (queued_state sid req now) = sid"
  "ss_Status (queued_state sid req now) = StatusQueued"
  by (simp_all add: submitted_job_def queued_state_def state_of_def)

section \<open>The gateway over its services\<close>

text \<open>
  The services behind a server keep out of each other's way: storing and publishing leave the queue
  alone, queueing and publishing leave the store alone, and so do the two calls to the host.
\<close>

locale gateway =
  queue: job_queue "sv_queue s" jvalid pending q_inv + store: state_store "sv_stateStore s" svalid lookup st_inv
  for s :: "('z world_scheme) Server" and jvalid pending q_inv svalid lookup st_inv +
  assumes save_queue: "q_inv w \<Longrightarrow> run_state (st_SaveState (sv_stateStore s) x) w = (e, w') \<Longrightarrow>
      q_inv w' \<and> pending w' = pending w"
    and enqueue_store: "st_inv w \<Longrightarrow> run_state (jq_Enqueue (sv_queue s) j) w = (e, w') \<Longrightarrow>
      st_inv w' \<and> lookup w' = lookup w"
    and depth_store: "st_inv w \<Longrightarrow> run_state (jq_QueueDepth (sv_queue s)) w = (d, w') \<Longrightarrow>
      st_inv w' \<and> lookup w' = lookup w"
    and publish_frame: "q_inv w \<Longrightarrow> st_inv w \<Longrightarrow> run_state (eb_Publish (sv_eventBus s) sid ev) w = (e, w') \<Longrightarrow>
      q_inv w' \<and> st_inv w' \<and> pending w' = pending w \<and> lookup w' = lookup w"
    and host_frame: "op \<in> {UuidNew, Now} \<Longrightarrow>
      q_inv (w\<lparr>w_trace := w_trace w @ [op]\<rparr>) = q_inv w \<and> st_inv (w\<lparr>w_trace := w_trace w @ [op]\<rparr>) = st_inv w \<and>
      pending (w\<lparr>w_trace := w_trace w @ [op]\<rparr>) = pending w \<and> lookup (w\<lparr>w_trace := w_trace w @ [op]\<rparr>) = lookup w"
begin

definition keeps where
  "keeps w w' \<longleftrightarrow> q_inv w' \<and> st_inv w' \<and> pending w' = pending w \<and> lookup w' = lookup w"

definition queued where
  "queued w w' sid req now \<longleftrightarrow>
     q_inv w' \<and> st_inv w' \<and> (\<exists>t. pending w' = pending w @ [job_defaults (submitted_job sid req now) t]) \<and>
     (\<exists>t. lookup w' = (lookup w)(sid \<mapsto> (queued_state sid req now)\<lparr>ss_UpdatedAt := t\<rparr>))"

text \<open>The store refused a state: nothing was stored.\<close>

definition unsaved where
  "unsaved w w' \<longleftrightarrow>
     keeps w w' \<and> (\<exists>x v e v'. st_inv v \<and> svalid x \<and> run_state (st_SaveState (sv_stateStore s) x) v = (Some e, v'))"

definition orphaned where
  "orphaned w w' sid req now \<longleftrightarrow>
     q_inv w' \<and> st_inv w' \<and> pending w' = pending w \<and>
     (\<exists>t. lookup w' = (lookup w)(sid \<mapsto> (queued_state sid req now)\<lparr>ss_UpdatedAt := t\<rparr>))"

lemma submit_as_outcome:
  assumes i: "q_inv w" "st_inv w" and v: "jvalid (submitted_job sid req now)" "svalid (queued_state sid req now)"
    and r: "run_state (submit_as s h req sid now resp) w = (resp', w')" and resp: "hr_Status resp = None"
  shows "resp' = accepted_response h sid now resp \<and> queued w w' sid req now \<or>
    hr_Status resp' = Some 500 \<and> (unsaved w w' \<or> orphaned w w' sid req now)"
proof -
  obtain e w2 where 2: "run_state (st_SaveState (sv_stateStore s) (queued_state sid req now)) w = (e, w2)"
    by force
  have q2: "q_inv w2" "pending w2 = pending w" using save_queue [OF i(1) 2] by auto
  show ?thesis
  proof (cases e)
    case (Some err)
    with r 2 resp have "hr_Status resp' = Some 500" "w' = w2" by (auto simp: submit_as_def)
    moreover have "keeps w w2" using store.save_err [OF i(2) v(2) 2 [unfolded Some]] q2 by (auto simp: keeps_def)
    then have "unsaved w w2" unfolding unsaved_def using i(2) v(2) 2 Some by blast
    ultimately show ?thesis by simp
  next
    case None
    obtain t where s2: "st_inv w2" "lookup w2 = (lookup w)(sid \<mapsto> (queued_state sid req now)\<lparr>ss_UpdatedAt := t\<rparr>)"
      using store.save_ok [OF i(2) v(2) 2 [unfolded None]] by auto
    obtain e' w3 where 3: "run_state (jq_Enqueue (sv_queue s) (submitted_job sid req now)) w2 = (e', w3)" by force
    have s3: "st_inv w3" "lookup w3 = lookup w2" using enqueue_store [OF s2(1) 3] by auto
    show ?thesis
    proof (cases e')
      case (Some err)
      with r 2 3 None resp have "hr_Status resp' = Some 500" "w' = w3" by (auto simp: submit_as_def)
      moreover have "q_inv w3" "pending w3 = pending w"
        using queue.enqueue_err [OF q2(1) v(1) 3 [unfolded Some]] q2 by auto
      ultimately show ?thesis using s2 s3 by (auto simp: orphaned_def)
    next
      case enqueued: None
      obtain t' where q3: "q_inv w3" "pending w3 = pending w @ [job_defaults (submitted_job sid req now) t']"
        using queue.enqueue_ok [OF q2(1) v(1) 3 [unfolded enqueued]] q2 by auto
      obtain e'' w4 where 4: "run_state (eb_Publish (sv_eventBus s) sid (event_of sid StatusQueued now)) w3 = (e'', w4)"
        by force
      from r 2 3 4 None enqueued have "resp' = accepted_response h sid now resp" "w' = w4"
        by (auto simp: submit_as_def)
      with publish_frame [OF q3(1) s3(1) 4] s2 s3 q3 show ?thesis by (auto simp: queued_def)
    qed
  qed
qed

lemma submit_outcome:
  assumes i: "q_inv w" "st_inv w" and v: "\<And>sid now. jvalid (submitted_job sid req now) \<and> svalid (queued_state sid req now)"
    and r: "run_state (submit s h req resp) w = (resp', w')" and resp: "hr_Status resp = None"
  shows "\<exists>now tr. let sid = ''sub-'' @ take 12 (h_uuid h tr) in
    resp' = accepted_response h sid now resp \<and> queued w w' sid req now \<or>
    hr_Status resp' = Some 500 \<and> (unsaved w w' \<or> orphaned w w' sid req now)"
proof -
  let ?w0 = "w\<lparr>w_trace := w_trace w @ [UuidNew]\<rparr>"
  let ?w1 = "?w0\<lparr>w_trace := w_trace ?w0 @ [Now]\<rparr>"
  let ?now = "h_now h (w_trace w @ [UuidNew])"
  have 1: "q_inv ?w1" "st_inv ?w1" "pending ?w1 = pending w" "lookup ?w1 = lookup w"
    using host_frame [of UuidNew w] host_frame [of Now ?w0] i by auto
  obtain sid where sid: "sid = ''sub-'' @ take 12 (h_uuid h (w_trace w))" by blast
  have "run_state (submit_as s h req sid ?now resp) ?w1 = (resp', w')"
    using r unfolding submit_def sid by simp
  from submit_as_outcome [OF 1(1,2) v [THEN conjunct1] v [THEN conjunct2] this resp]
  have "resp' = accepted_response h sid ?now resp \<and> queued w w' sid req ?now \<or>
      hr_Status resp' = Some 500 \<and> (unsaved w w' \<or> orphaned w w' sid req ?now)"
    using 1 by (simp add: unsaved_def keeps_def queued_def orphaned_def)
  then show ?thesis unfolding sid Let_def by blast
qed

text \<open>
  The whole handler: a refused request changes nothing, and when the depth of the queue is known an
  accepted one found it below the limit.
\<close>

lemma refused_outcome:
  assumes "run_state (handleSubmissions s h js r resp) w = (resp', w')" and "hr_Status resp = None"
    and "rq_Method r \<noteq> ''POST'' \<or> (\<exists>e. aj_decode js (rq_Body r) = Inl e) \<or>
      (\<exists>req. aj_decode js (rq_Body r) = Inr req \<and>
         (TrimSpace (sr_Code req) = [] \<or> (\<exists>e. Get h (init_registry h) (sr_Language req) = Inl e)))"
  shows "hr_Status resp' \<in> {Some 400, Some 405} \<and> w' = w"
  using assms unfolding handleSubmissions_def
  by (cases "rq_Method r = ''POST''"; cases "aj_decode js (rq_Body r)")
    (simp_all split: if_splits sum.splits, auto)

lemma depth_outcome:
  assumes ok: "rq_Method r = ''POST''" "aj_decode js (rq_Body r) = Inr req"
    "TrimSpace (sr_Code req) \<noteq> []" "Get h (init_registry h) (sr_Language req) = Inr lang"
    and d: "run_state (jq_QueueDepth (sv_queue s)) w = (d, w1)"
    and r: "run_state (handleSubmissions s h js r resp) w = (resp', w')" and resp: "hr_Status resp = None"
  shows "if \<exists>n. d = Inr n \<and> cfg_MaxQueueDepth (sv_cfg s) \<le> n
    then hr_Status resp' = Some 429 \<and> w' = w1
    else run_state (submit s h req resp) w1 = (resp', w')"
proof -
  have "run_state (case d of
         Inr depth \<Rightarrow> if cfg_MaxQueueDepth (sv_cfg s) \<le> depth
           then ret (writeJSONError (header_Set ''Retry-After'' ''5'' resp) 429
             (overload_message depth (cfg_MaxQueueDepth (sv_cfg s))))
           else submit s h req resp
       | Inl _ \<Rightarrow> submit s h req resp) w1 = (resp', w')"
    using r ok d unfolding handleSubmissions_def by simp
  with resp show ?thesis by (cases d) (auto split: if_splits)
qed

lemma handle_outcome:
  assumes i: "q_inv w" "st_inv w"
    and v: "\<And>req sid now. aj_decode js (rq_Body r) = Inr req \<Longrightarrow>
      jvalid (submitted_job sid req now) \<and> svalid (queued_state sid req now)"
    and r: "run_state (handleSubmissions s h js r resp) w = (resp', w')" and resp: "hr_Status resp = None"
  shows "hr_Status resp' \<in> {Some 400, Some 405, Some 429} \<and> keeps w w' \<or>
    (\<exists>req tr now. let sid = ''sub-'' @ take 12 (h_uuid h tr) in
       rq_Method r = ''POST'' \<and> aj_decode js (rq_Body r) = Inr req \<and> TrimSpace (sr_Code req) \<noteq> [] \<and>
       (\<exists>lang. Get h (init_registry h) (sr_Language req) = Inr lang) \<and>
       (\<forall>n. fst (run_state (jq_QueueDepth (sv_queue s)) w) = Inr n \<longrightarrow>
          int (length (pending w)) < cfg_MaxQueueDepth (sv_cfg s)) \<and>
       (resp' = accepted_response h sid now resp \<and> queued w w' sid req now \<or>
        hr_Status resp' = Some 500 \<and> (unsaved w w' \<or> orphaned w w' sid req now)))"
proof (cases "\<exists>req lang. rq_Method r = ''POST'' \<and> aj_decode js (rq_Body r) = Inr req \<and>
       TrimSpace (sr_Code req) \<noteq> [] \<and> Get h (init_registry h) (sr_Language req) = Inr lang")
  case False
  then have "rq_Method r \<noteq> ''POST'' \<or> (\<exists>e. aj_decode js (rq_Body r) = Inl e) \<or>
      (\<exists>req. aj_decode js (rq_Body r) = Inr req \<and>
         (TrimSpace (sr_Code req) = [] \<or> (\<exists>e. Get h (init_registry h) (sr_Language req) = Inl e)))"
    by (metis sum.exhaust)
  from refused_outcome [OF r resp this] i show ?thesis by (auto simp: keeps_def)
next
  case True
  then obtain req lang where ok: "rq_Method r = ''POST''" "aj_decode js (rq_Body r) = Inr req"
    "TrimSpace (sr_Code req) \<noteq> []" "Get h (init_registry h) (sr_Language req) = Inr lang" by blast
  obtain d w1 where 1: "run_state (jq_QueueDepth (sv_queue s)) w = (d, w1)" by force
  have w1: "q_inv w1" "st_inv w1" "pending w1 = pending w" "lookup w1 = lookup w"
    "\<And>n. d = Inr n \<Longrightarrow> n = int (length (pending w))"
    using queue.depth_ok [OF i(1) 1] depth_store [OF i(2) 1] by auto
  note d = depth_outcome [OF ok 1 r resp]
  show ?thesis
  proof (cases "\<exists>n. d = Inr n \<and> cfg_MaxQueueDepth (sv_cfg s) \<le> n")
    case True
    with d w1 show ?thesis by (simp add: keeps_def)
  next
    case False
    with d have sub: "run_state (submit s h req resp) w1 = (resp', w')" by simp
    have below: "\<forall>n. fst (run_state (jq_QueueDepth (sv_queue s)) w) = Inr n \<longrightarrow>
        int (length (pending w)) < cfg_MaxQueueDepth (sv_cfg s)"
      using False 1 w1(5) by auto
    from submit_outcome [OF w1(1,2) v [OF ok(2)] sub resp] show ?thesis
      using ok below unfolding unsaved_def keeps_def queued_def orphaned_def w1(3,4) Let_def by blast
  qed
qed

end

section \<open>The in-memory services\<close>

lemma NewServer_memory:
  "NewServer cfg (MemoryQueue_ops h) (MemoryEventBus_ops h) (MemoryStore_ops h) mb_recv =
     memory_server h (server_config cfg)"
  by (simp add: NewServer_def memory_server_def)

lemma mq_Enqueue_frame:
  fixes w :: "'z mem_world_scheme"
  assumes "run_state (mq_Enqueue h j) w = (r, w')"
  shows "w_store w' = w_store w \<and> w_bus w' = w_bus w"
  using assms
proof (cases rule: mq_Enqueue_run)
  case (sent f ctx t ops)
  show ?thesis by (subst sent(3), subst (2) sent(3)) simp
qed simp

interpretation gw: gateway "memory_server h cfg :: 'z mem_world_scheme Server" "\<lambda>_. True"
    "\<lambda>w. mq_pending (w_queue w)" "\<lambda>w. mq_ok (w_queue w)" "\<lambda>_. True" ms_lookup "\<lambda>_. True" for h cfg
proof (intro gateway.intro gateway_axioms.intro)
  show "job_queue (sv_queue (memory_server h cfg :: 'z mem_world_scheme Server)) (\<lambda>_. True)
      (\<lambda>w. mq_pending (w_queue w)) (\<lambda>w. mq_ok (w_queue w))"
    using mq.job_queue_axioms by simp
  show "state_store (sv_stateStore (memory_server h cfg :: 'z mem_world_scheme Server)) (\<lambda>_. True)
      ms_lookup (\<lambda>_. True)"
    using ms.state_store_axioms by simp
  fix w w' :: "'z mem_world_scheme" and j e d
  show "True \<and> ms_lookup w' = ms_lookup w"
    if "run_state (jq_Enqueue (sv_queue (memory_server h cfg)) j) w = (e, w')"
    using that mq_Enqueue_frame [of h j w e w'] by (simp add: MemoryQueue_ops_def ms_lookup_def)
  show "True \<and> ms_lookup w' = ms_lookup w"
    if "run_state (jq_QueueDepth (sv_queue (memory_server h cfg))) w = (d, w')"
    using that by (auto simp: MemoryQueue_ops_def mq_QueueDepth_def ms_lookup_def)
next
  fix w w' :: "'z mem_world_scheme" and sid ev e
  assume i: "mq_ok (w_queue w)" and r: "run_state (eb_Publish (sv_eventBus (memory_server h cfg)) sid ev) w = (e, w')"
  from r have "run_state (mb_Publish h sid (Some ev)) w = (e, w')" by (simp add: MemoryEventBus_ops_def)
  with i show "mq_ok (w_queue w') \<and> True \<and> mq_pending (w_queue w') = mq_pending (w_queue w) \<and>
      ms_lookup w' = ms_lookup w"
    by (elim mb_Publish_run) (simp add: ms_lookup_def)
qed (auto simp: MemoryStore_ops_def ms_SaveState_run ms_lookup_def)

section \<open>Sequences of submissions\<close>

text \<open>The gateway answering one submission after another.\<close>

fun serve_all ::
  "('z world_scheme) Server \<Rightarrow> host \<Rightarrow> api_json \<Rightarrow> http_request list \<Rightarrow> ('z world_scheme, http_response list) state" where
  "serve_all s h js [] = ret []"
| "serve_all s h js (r # rs) = do {
     resp \<leftarrow> handleSubmissions s h js r new_response;
     resps \<leftarrow> serve_all s h js rs;
     ret (resp # resps)
   }"

lemma memory_depth [simp]:
  "run_state (jq_QueueDepth (MemoryQueue_ops h)) w = (Inr (int (length (mq_pending (w_queue w)))), w)"
  by (simp add: MemoryQueue_ops_def mq_QueueDepth_def mq_pending_def)

lemma handle_depth:
  assumes "mq_ok (w_queue w)"
    and "run_state (handleSubmissions (memory_server h cfg) h js r new_response) w = (resp, w')"
  shows "mq_ok (w_queue w') \<and>
    (if hr_code resp = 202
     then length (mq_pending (w_queue w')) = length (mq_pending (w_queue w)) + 1 \<and>
       int (length (mq_pending (w_queue w'))) \<le> cfg_MaxQueueDepth cfg
     else length (mq_pending (w_queue w')) = length (mq_pending (w_queue w)))"
  using gw.handle_outcome [OF assms(1) TrueI _ assms(2)]
  unfolding gw.unsaved_def gw.keeps_def gw.queued_def gw.orphaned_def Let_def by (auto simp: hr_code_def)

lemma serve_all_depth:
  assumes "mq_ok (w_queue w)" and "int (length (mq_pending (w_queue w))) \<le> cfg_MaxQueueDepth cfg"
    and "run_state (serve_all (memory_server h cfg) h js rs) w = (resps, w')"
  shows "mq_ok (w_queue w') \<and> int (length (mq_pending (w_queue w'))) \<le> cfg_MaxQueueDepth cfg \<and>
    length (mq_pending (w_queue w')) =
      length (mq_pending (w_queue w)) + length (filter (\<lambda>r. hr_code r = 202) resps)"
  using assms
proof (induction rs arbitrary: w resps)
  case (Cons r rs)
  obtain resp w1 where 1: "run_state (handleSubmissions (memory_server h cfg) h js r new_response) w = (resp, w1)"
    by force
  obtain rest where 2: "run_state (serve_all (memory_server h cfg) h js rs) w1 = (rest, w')" "resps = resp # rest"
    using Cons.prems(3) 1 by (auto split: prod.splits)
  note h = handle_depth [OF Cons.prems(1) 1]
  then have "int (length (mq_pending (w_queue w1))) \<le> cfg_MaxQueueDepth cfg"
    using Cons.prems(2) by (auto split: if_splits)
  from Cons.IH [OF _ this 2(1)] h 2(2) show ?case by (auto split: if_splits)
qed simp

section \<open>Links\<close>

text \<open>The last element of a path whose first elements are fixed.\<close>

definition api_path :: "string list \<Rightarrow> string" where
  "api_path ps = abs_path ([''api'', ''v1'', ''submissions''] @ ps)"

lemma api_path_detail: "''/api/v1/submissions/'' @ sid = api_path [sid]"
  by (simp add: api_path_def abs_path_def)

lemma api_path_ws: "ws_url sid = api_path [sid, ''ws'']"
  by (simp add: ws_url_def api_path_def abs_path_def)

lemma api_path_clean:
  assumes "list_all simple_name ps"
  shows "cleanPath (api_path ps) = api_path ps"
proof -
  have "list_all simple_name [''api'', ''v1'', ''submissions'']" by code_simp
  with assms show ?thesis unfolding api_path_def by (intro cleanPath_abs_path) auto
qed

lemma mux_match_detail: "mux_match (''/api/v1/submissions/'' @ p) = Some EpDetail"
  by (simp add: mux_match_def HasPrefix_def)

lemma Trim_abs_path:
  assumes "list_all simple_name ps" and "ps \<noteq> []"
  shows "Trim (abs_path ps) ''/'' = join_with ''/'' ps"
proof -
  obtain c cs where j: "join_with ''/'' ps = c # cs" "c \<noteq> CHR ''/''"
    using assms by (cases ps rule: remdups_adj.cases) (auto simp: simple_name_def neq_Nil_conv)
  have "rev (dropWhile (\<lambda>c. c \<in> set ''/'') (rev (join_with ''/'' ps))) = join_with ''/'' ps"
    using join_last [OF assms] by (cases "join_with ''/'' ps" rule: rev_cases) auto
  with j show ?thesis by (simp add: Trim_def TrimRight_def abs_path_def)
qed

lemma ws_submission_api_path:
  assumes "simple_name sid"
  shows "ws_submission (ws_url sid) = Some sid"
proof -
  let ?ps = "[''api'', ''v1'', ''submissions'', sid, ''ws'']"
  have n: "list_all simple_name [''api'', ''v1'', ''submissions'', ''ws'']" by code_simp
  then have ps: "list_all simple_name ?ps" using assms by simp
  then have "Split (join_with ''/'' ?ps) (CHR ''/'') = ?ps"
    by (intro Split_join_with) (auto simp: simple_name_def list_all_iff)
  with Trim_abs_path [OF ps] show ?thesis
    unfolding ws_submission_def api_path_ws api_path_def by (simp add: Let_def)
qed

text \<open>
  The identifiers the gateway makes.  The text of a UUID has hexadecimal digits and dashes only, so
  an identifier is a plain file name without white space around it.
\<close>

definition uuid_text :: "string \<Rightarrow> bool" where
  "uuid_text u \<longleftrightarrow> list_all (\<lambda>c. c \<in> set ''0123456789abcdef-'') u"

definition id_chars :: string where
  "id_chars = ''0123456789abcdefsu-''"

lemma set_append_take:
  "set p \<subseteq> A \<Longrightarrow> B \<subseteq> A \<Longrightarrow> list_all (\<lambda>c. c \<in> B) u \<Longrightarrow> set (p @ take n u) \<subseteq> A"
  using set_take_subset [of n u] by (auto simp: list_all_iff)

lemma id_chars_of:
  assumes "uuid_text u"
  shows "set (''sub-'' @ take n u) \<subseteq> set id_chars"
proof (rule set_append_take)
  show "set ''sub-'' \<subseteq> set id_chars" "set ''0123456789abcdef-'' \<subseteq> set id_chars" by code_simp+
  show "list_all (\<lambda>c. c \<in> set ''0123456789abcdef-'') u" using assms unfolding uuid_text_def .
qed

lemma no_rune_in:
  assumes "list_all (\<lambda>r. r = [] \<or> hd r \<notin> A) rs" and "set x \<subseteq> A"
  shows "first_match rs x = None"
proof -
  have "\<not> (r \<noteq> [] \<and> prefix r x)" if "r \<in> set rs" for r
  proof
    assume "r \<noteq> [] \<and> prefix r x"
    then have "hd r \<in> set x" "r \<noteq> []" using set_mono_prefix [of r x] hd_in_set [of r] by auto
    with that assms show False by (auto simp: list_all_iff)
  qed
  then show ?thesis unfolding first_match_def find_None_iff by blast
qed

lemma id_trimmed:
  assumes "set x \<subseteq> set id_chars"
  shows "TrimSpace x = x"
proof -
  have "list_all (\<lambda>r. r = [] \<or> hd r \<notin> set id_chars) space_runes"
      "list_all (\<lambda>r. r = [] \<or> hd r \<notin> set id_chars) (map rev space_runes)"
    by code_simp+
  from this [THEN no_rune_in] assms have "trimmed x" unfolding trimmed_def by simp
  then show ?thesis by simp
qed

lemma id_simple:
  assumes "uuid_text u"
  shows "simple_name (''sub-'' @ take n u)"
proof -
  have "CHR ''/'' \<notin> set id_chars" by code_simp
  with id_chars_of [OF assms] show ?thesis unfolding simple_name_def by auto
qed

lemma last_element:
  assumes "p @ c # a = q @ (c::char) # b" and "c \<notin> set a" and "c \<notin> set b"
  shows "a = b"
proof -
  have "rev a @ c # rev p = rev b @ c # rev q"
    using arg_cong [OF assms(1), of rev] by simp
  then have "Split (rev a @ c # rev p) c = Split (rev b @ c # rev q) c" by simp
  then show ?thesis using assms(2,3) by (simp add: Split_append_sep)
qed

lemma detail_not_ws:
  assumes "CHR ''/'' \<notin> set sid" and "sid \<noteq> ''ws''"
  shows "\<not> HasSuffix (''/api/v1/submissions/'' @ sid) ''/ws''"
proof
  assume "HasSuffix (''/api/v1/submissions/'' @ sid) ''/ws''"
  then obtain pre where "''/api/v1/submissions'' @ CHR ''/'' # sid = pre @ CHR ''/'' # ''ws''"
    by (auto simp: HasSuffix_def suffix_def)
  from last_element [OF this assms(1)] assms(2) show False by simp
qed

section \<open>A sample request\<close>

definition sample_submit :: SubmitRequest where
  "sample_submit =
     \<lparr>sr_Language = ''python3'', sr_Code = ''print(1)'', sr_TimeLimitMs = 0, sr_MemoryLimitMB = 0, sr_CpuQuota = Fin 0,
      sr_PidsLimit = 0, sr_MaxOutputBytes = 0, sr_SandboxType = ''dev'', sr_TestCases = [sample_test]\<rparr>"

definition sample_js :: api_json where
  "sample_js =
     \<lparr>aj_decode = (\<lambda>_. Inr sample_submit), aj_state = one_codec sample_state ''S'', aj_event = sample_codec\<rparr>"

section \<open>Properties\<close>

text \<open>
  C36.  What the gateway does with a submission on the in-memory services.  A request that is refused
  (bad method, bad JSON, empty code, unknown language or a full queue) changes neither the queue
  nor the store.  An accepted request is a valid one that found the queue below the limit: its job,
  completed by the defaults, is appended to the queue, its state is stored as queued, and the
  response carries the identifier of both.  Otherwise queueing failed: the answer is 500 and names no
  submission, yet the queued state stays in the store without a job.
\<close>

theorem gateway_submits:
  assumes "mq_ok (w_queue w)"
    and "run_state (handleSubmissions (memory_server h cfg) h js r new_response) w = (resp, w')"
  shows "(hr_Status resp \<in> {Some 400, Some 405, Some 429} \<and>
      mq_pending (w_queue w') = mq_pending (w_queue w) \<and> ms_lookup w' = ms_lookup w) \<or>
    (\<exists>req tr now t. let sid = ''sub-'' @ take 12 (h_uuid h tr) in
       rq_Method r = ''POST'' \<and> aj_decode js (rq_Body r) = Inr req \<and> TrimSpace (sr_Code req) \<noteq> [] \<and>
       (\<exists>lang. Get h (init_registry h) (sr_Language req) = Inr lang) \<and>
       int (length (mq_pending (w_queue w))) < cfg_MaxQueueDepth cfg \<and>
       (resp = accepted_response h sid now new_response \<and>
        ms_lookup w' = (ms_lookup w)(sid \<mapsto> (queued_state sid req now)\<lparr>ss_UpdatedAt := t\<rparr>) \<and>
        (\<exists>t. mq_pending (w_queue w') = mq_pending (w_queue w) @ [job_defaults (submitted_job sid req now) t]) \<or>
        hr_Status resp = Some 500 \<and> mq_pending (w_queue w') = mq_pending (w_queue w) \<and>
        ms_lookup w' = (ms_lookup w)(sid \<mapsto> (queued_state sid req now)\<lparr>ss_UpdatedAt := t\<rparr>)))"
proof -
  have depth: "fst (run_state (jq_QueueDepth (sv_queue (memory_server h cfg))) w) = Inr (int (length (mq_pending (w_queue w))))"
    by (simp add: MemoryQueue_ops_def mq_QueueDepth_def mq_pending_def)
  have saved: "\<not> gw.unsaved h cfg v v'" for v v' :: "'a mem_world_scheme"
    by (auto simp: gw.unsaved_def MemoryStore_ops_def ms_SaveState_run)
  from gw.handle_outcome [OF assms(1) TrueI _ assms(2)] depth show ?thesis
    unfolding gw.keeps_def gw.queued_def gw.orphaned_def Let_def by (simp add: saved, metis)
qed

theorem gateway_submits_witness:
  "let w = sample_world; cfg = \<lparr>cfg_Addr = [], cfg_MaxQueueDepth = 500\<rparr>;
       r = \<lparr>rq_Method = ''POST'', rq_Path = ''/api/v1/submissions'', rq_Body = []\<rparr>;
       (resp, w') = run_state (handleSubmissions (memory_server sample_host cfg) sample_host sample_js r new_response) w
   in (hr_Status resp \<in> {Some 400, Some 405, Some 429} \<and>
      mq_pending (w_queue w') = mq_pending (w_queue w) \<and> ms_lookup w' = ms_lookup w) \<or>
    (\<exists>req tr now t. let sid = ''sub-'' @ take 12 (h_uuid sample_host tr) in
       rq_Method r = ''POST'' \<and> aj_decode sample_js (rq_Body r) = Inr req \<and> TrimSpace (sr_Code req) \<noteq> [] \<and>
       (\<exists>lang. Get sample_host (init_registry sample_host) (sr_Language req) = Inr lang) \<and>
       int (length (mq_pending (w_queue w))) < cfg_MaxQueueDepth cfg \<and>
       (resp = accepted_response sample_host sid now new_response \<and>
        ms_lookup w' = (ms_lookup w)(sid \<mapsto> (queued_state sid req now)\<lparr>ss_UpdatedAt := t\<rparr>) \<and>
        (\<exists>t. mq_pending (w_queue w') = mq_pending (w_queue w) @ [job_defaults (submitted_job sid req now) t]) \<or>
        hr_Status resp = Some 500 \<and> mq_pending (w_queue w') = mq_pending (w_queue w) \<and>
        ms_lookup w' = (ms_lookup w)(sid \<mapsto> (queued_state sid req now)\<lparr>ss_UpdatedAt := t\<rparr>)))"
proof -
  have ok: "mq_ok (w_queue sample_world)" by (simp add: sample_world_def)
  obtain resp w' where 1: "run_state (handleSubmissions (memory_server sample_host
      \<lparr>cfg_Addr = [], cfg_MaxQueueDepth = 500\<rparr>) sample_host sample_js
      \<lparr>rq_Method = ''POST'', rq_Path = ''/api/v1/submissions'', rq_Body = []\<rparr> new_response) sample_world = (resp, w')"
    by (metis prod.exhaust)
  show ?thesis unfolding Let_def 1 prod.case by (rule gateway_submits [OF ok 1, unfolded Let_def])
qed

text \<open>
  C37.  Backpressure.  On the in-memory queue, submissions that are served one after the other leave
  at most as many jobs pending as the configured depth allows, if it was so before, and the queue
  grows by exactly the number of requests answered with 202.
\<close>

theorem gateway_backpressure:
  assumes "mq_ok (w_queue w)" and "int (length (mq_pending (w_queue w))) \<le> cfg_MaxQueueDepth cfg"
    and "run_state (serve_all (memory_server h cfg) h js rs) w = (resps, w')"
  shows "int (length (mq_pending (w_queue w'))) \<le> cfg_MaxQueueDepth cfg \<and>
    length (mq_pending (w_queue w')) =
      length (mq_pending (w_queue w)) + length (filter (\<lambda>r. hr_code r = 202) resps)"
  using serve_all_depth [OF assms] by blast

theorem gateway_backpressure_witness:
  "let cfg = \<lparr>cfg_Addr = [], cfg_MaxQueueDepth = 1\<rparr>;
       r = \<lparr>rq_Method = ''POST'', rq_Path = ''/api/v1/submissions'', rq_Body = []\<rparr>;
       (resps, w') = run_state (serve_all (memory_server sample_host cfg) sample_host sample_js [r, r]) sample_world
   in int (length (mq_pending (w_queue w'))) \<le> 1 \<and>
     length (mq_pending (w_queue w')) = length (filter (\<lambda>r. hr_code r = 202) resps)"
proof -
  let ?cfg = "\<lparr>cfg_Addr = [], cfg_MaxQueueDepth = 1\<rparr>"
  let ?r = "\<lparr>rq_Method = ''POST'', rq_Path = ''/api/v1/submissions'', rq_Body = []\<rparr>"
  obtain resps w' where 1: "run_state (serve_all (memory_server sample_host ?cfg) sample_host sample_js [?r, ?r])
      sample_world = (resps, w')" by force
  have "mq_ok (w_queue sample_world)" "int (length (mq_pending (w_queue sample_world))) \<le> cfg_MaxQueueDepth ?cfg"
    by (simp_all add: sample_world_def)
  from gateway_backpressure [OF this 1] show ?thesis
    unfolding Let_def 1 prod.case by (simp add: sample_world_def)
qed

text \<open>
  C38.  The gateway's links lead back.  For an identifier the gateway made, a request for the link in
  the response is routed to the WebSocket handler for that very identifier, and a request for the
  submission's own path answers with that submission's state, whatever else is stored.
\<close>

theorem gateway_links:
  assumes "uuid_text (h_uuid h tr)"
  defines "sid \<equiv> ''sub-'' @ take 12 (h_uuid h tr)"
  shows "ServeHTTP n s h js metrics \<lparr>rq_Method = ''GET'', rq_Path = ''/api/v1/submissions/'' @ sid, rq_Body = b\<rparr> =
      do { g \<leftarrow> st_GetState (sv_stateStore s) sid;
           ret (Responded (detail_response js g (cors_headers new_response))) } \<and>
    ServeHTTP n s h js metrics \<lparr>rq_Method = ''GET'', rq_Path = ws_url sid, rq_Body = b\<rparr> =
      do { res \<leftarrow> HandleWebSocket n s h (aj_event js)
             \<lparr>rq_Method = ''GET'', rq_Path = ws_url sid, rq_Body = b\<rparr> (cors_headers new_response);
           ret (Streamed res) } \<and>
    ws_submission (ws_url sid) = Some sid"
proof -
  have sid: "simple_name sid" "TrimSpace sid = sid" "sid \<noteq> []" "sid \<noteq> ''ws''"
    unfolding sid_def using id_simple [OF assms(1)] id_trimmed [OF id_chars_of [OF assms(1)]] by simp_all
  have "simple_name ''ws''" by code_simp
  then have clean: "cleanPath (''/api/v1/submissions/'' @ sid) = ''/api/v1/submissions/'' @ sid"
      "cleanPath (ws_url sid) = ws_url sid"
    unfolding api_path_detail api_path_ws using sid(1) by (intro api_path_clean, simp)+
  have match: "mux_match (''/api/v1/submissions/'' @ sid) = Some EpDetail" "mux_match (ws_url sid) = Some EpDetail"
    unfolding ws_url_def by (rule mux_match_detail)+
  have ws: "HasSuffix (ws_url sid) ''/ws''" by (simp add: ws_url_def HasSuffix_def suffix_def)
  have det: "\<not> HasSuffix (''/api/v1/submissions/'' @ sid) ''/ws''"
    using sid by (intro detail_not_ws) (auto simp: simple_name_def)
  have id: "TrimPrefix (''/api/v1/submissions/'' @ sid) ''/api/v1/submissions/'' = sid"
    by (simp add: TrimPrefix_def HasPrefix_def)
  have m: "''GET'' \<noteq> ''OPTIONS''" by simp
  show ?thesis
  proof (intro conjI)
    show "ws_submission (ws_url sid) = Some sid" by (rule ws_submission_api_path [OF sid(1)])
    show "ServeHTTP n s h js metrics \<lparr>rq_Method = ''GET'', rq_Path = ws_url sid, rq_Body = b\<rparr> =
      do { res \<leftarrow> HandleWebSocket n s h (aj_event js)
             \<lparr>rq_Method = ''GET'', rq_Path = ws_url sid, rq_Body = b\<rparr> (cors_headers new_response);
           ret (Streamed res) }"
      unfolding ServeHTTP_def corsMiddleware_def mux_def handleSubmissionDetailOrWS_def
      using m clean(2) match(2) ws by (simp del: append.simps)
    show "ServeHTTP n s h js metrics \<lparr>rq_Method = ''GET'', rq_Path = ''/api/v1/submissions/'' @ sid, rq_Body = b\<rparr> =
      do { g \<leftarrow> st_GetState (sv_stateStore s) sid;
           ret (Responded (detail_response js g (cors_headers new_response))) }"
      unfolding ServeHTTP_def corsMiddleware_def mux_def handleSubmissionDetailOrWS_def submission_detail_def respond_def
      using m clean(1) match(1) det id sid(2,3) by (simp del: append.simps add: Let_def)
  qed
qed

theorem gateway_links_witness:
  "ws_submission (ws_url (''sub-'' @ take 12 (h_uuid sample_host []))) = Some ''sub-01234567-89a'' \<and>
   ServeHTTP 1 (memory_server sample_host \<lparr>cfg_Addr = [], cfg_MaxQueueDepth = 1\<rparr> :: mem_world Server) sample_host
      sample_js (\<lambda>_ w. w)
      \<lparr>rq_Method = ''GET'', rq_Path = ''/api/v1/submissions/'' @ ''sub-'' @ take 12 (h_uuid sample_host []), rq_Body = []\<rparr> =
     do { g \<leftarrow> st_GetState (sv_stateStore (memory_server sample_host \<lparr>cfg_Addr = [], cfg_MaxQueueDepth = 1\<rparr>))
            (''sub-'' @ take 12 (h_uuid sample_host []));
          ret (Responded (detail_response sample_js g (cors_headers new_response))) }"
proof -
  have u: "uuid_text ''01234567-89ab-4cde-8f01-23456789abcd''" by code_simp
  have h: "h_uuid sample_host [] = ''01234567-89ab-4cde-8f01-23456789abcd''" by (simp add: sample_host_def)
  have t: "''sub-'' @ take 12 ''01234567-89ab-4cde-8f01-23456789abcd'' = ''sub-01234567-89a''" by code_simp
  from gateway_links [of sample_host "[]" 1 "memory_server sample_host \<lparr>cfg_Addr = [], cfg_MaxQueueDepth = 1\<rparr>"
      sample_js "\<lambda>_ w. w" "[]"] show ?thesis
    unfolding h t using u by blast
qed

end
