(* ===== verification/Pipeline.thy ===== *)
theory Pipeline
  imports Pool Api_Correct
begin

text \<open>
  The parts together, on the in-memory services: the gateway accepts a submission, a worker of the
  pool takes it from the queue and processes it, and the store has its result.
\<close>

section \<open>The gateway and the bus\<close>

lemma handle_bus:
  fixes w :: "'z mem_world_scheme"
  assumes "mb_ok (w_bus w)"
    and "run_state (handleSubmissions (memory_server h cfg) h js r resp) w = (resp', w')"
  shows "mb_ok (w_bus w')"
proof -
  have sub: "mb_ok (w_bus v')" if "mb_ok (w_bus v)"
    "run_state (submit_as (memory_server h cfg) h req sid now resp) v = (resp', v')" for v v' :: "'z mem_world_scheme" and req sid now
  proof -
    obtain e v1 where 1: "run_state (ms_SaveState h (Some (queued_state sid req now))) v = (e, v1)" by force
    obtain e' v2 where 2: "run_state (mq_Enqueue h (submitted_job sid req now)) v1 = (e', v2)" by force
    have v2: "e = None" "mb_ok (w_bus v1)" "mb_ok (w_bus v2)"
      using 1 that(1) mq_Enqueue_frame [OF 2] by (auto simp: ms_SaveState_run)
    obtain e'' v3 where 3: "run_state (mb_Publish h sid (Some (event_of sid StatusQueued now))) v2 = (e'', v3)" by force
    from that(2) 1 2 3 v2 mb_Publish_queue [OF 3 v2(3)] show ?thesis
      by (cases e') (auto simp: submit_as_def MemoryStore_ops_def MemoryQueue_ops_def MemoryEventBus_ops_def)
  qed
  show ?thesis
    using assms unfolding handleSubmissions_def submit_def
    by (auto split: if_splits sum.splits dest!: sub [rotated])
qed

section \<open>Draining the queue\<close>

text \<open>A host on which no context ends and no timer fires before a job that is there is received.\<close>

definition undisturbed :: "host \<Rightarrow> bool" where
  "undisturbed h \<longleftrightarrow> (\<forall>tr. h_ctxErr h tr = None \<and> h_select h tr \<noteq> 1)"

definition finished :: "(string \<Rightarrow> SubmissionState option) \<Rightarrow> string \<Rightarrow> bool" where
  "finished m sid \<longleftrightarrow> (\<exists>s. m sid = Some s \<and> is_final (ss_Status s) \<and> ss_CompletedAt s \<noteq> None)"

lemma mq_Dequeue_next:
  fixes w :: "'z mem_world_scheme"
  assumes "undisturbed h" and "mq_pending (w_queue w) = j # js" and "mq_ok (w_queue w)"
  obtains w1 where "run_state (mq_Dequeue h timeout) w = (Inr j, w1)" and "mq_pending (w_queue w1) = js"
    and "mq_ok (w_queue w1)" and "w_bus w1 = w_bus w" and "ms_lookup w1 = ms_lookup w"
proof -
  let ?c = "(mq_ch (w_queue w))\<lparr>ch_buf := js\<rparr>"
  have "dequeue_select (h_select h tr) None (w_queue w) = (Inr j, (w_queue w)\<lparr>mq_ch := ?c\<rparr>)" for tr
    using assms by (auto simp: undisturbed_def dequeue_select_def chan_recv_def mq_pending_def)
  then show thesis
    using assms
    by (intro that [of "w\<lparr>w_trace := w_trace w @ [CtxErr, SelectCase], w_queue := (w_queue w)\<lparr>mq_ch := ?c\<rparr>\<rparr>"])
      (auto simp: mq_Dequeue_def undisturbed_def mq_pending_def ms_lookup_def mq_ok_def chan_ok_def)
qed

lemma worker_turn_next:
  fixes w :: "'z mem_world_scheme"
  assumes h: "undisturbed h" and j: "mq_pending (w_queue w) = j # js" "job_SubmissionID j \<noteq> []"
    and w: "mq_ok (w_queue w)" "mb_ok (w_bus w)"
  obtains p' w' s where
    "run_state (worker_turn (MemoryQueue_ops h) (MemoryEventBus_ops h) (MemoryStore_ops h) h p) w = ((True, p'), w')"
    and "wp_stopped p' = wp_stopped p" and "mq_pending (w_queue w') = js" and "mq_ok (w_queue w')"
    and "mb_ok (w_bus w')" and "ms_lookup w' = (ms_lookup w)(job_SubmissionID j \<mapsto> s)"
    and "is_final (ss_Status s)" and "ss_CompletedAt s \<noteq> None"
proof -
  obtain w1 where 1: "run_state (mq_Dequeue h (pc_PollTimeout (wp_cfg p))) w = (Inr j, w1)" "mq_pending (w_queue w1) = js"
      "mq_ok (w_queue w1)" "w_bus w1 = w_bus w" "ms_lookup w1 = ms_lookup w"
    by (rule mq_Dequeue_next [OF h j(1) w(1)])
  let ?w2 = "w1\<lparr>w_trace := w_trace w1 @ [Now]\<rparr>"
  obtain r w3 where 3: "run_state (ProcessJob (MemoryEventBus_ops h) (MemoryStore_ops h) h (Some j)) ?w2 = (r, w3)"
    by force
  have "mb_ok (w_bus ?w2)" using w(2) 1(4) by simp
  then obtain s where s2: "r = None" "mb_ok (w_bus w3)" "w_queue w3 = w_queue ?w2"
      "ms_lookup w3 = (ms_lookup ?w2)(job_SubmissionID j \<mapsto> s)" "terminal (ss_Status s)" "ss_CompletedAt s \<noteq> None"
    by (rule memory_process [OF _ j(2) 3])
  have s: "r = None" "mb_ok (w_bus w3)" "w_queue w3 = w_queue w1"
      "ms_lookup w3 = (ms_lookup w)(job_SubmissionID j \<mapsto> s)" "is_final (ss_Status s)" "ss_CompletedAt s \<noteq> None"
    using s2 1(5) by (simp_all add: ms_lookup_def is_final_def terminal_def)
  have "\<exists>p'. run_state (worker_turn (MemoryQueue_ops h) (MemoryEventBus_ops h) (MemoryStore_ops h) h p) w =
      ((True, p'), w3\<lparr>w_trace := w_trace w3 @ [Now]\<rparr>) \<and> wp_stopped p' = wp_stopped p"
    using 1(1) 3 s(1) by (simp add: worker_turn_def MemoryQueue_ops_def Let_def)
  then show thesis
    using that 1 s by (auto simp: ms_lookup_def)
qed

lemma workerLoop_drains:
  fixes w :: "'z mem_world_scheme"
  assumes h: "undisturbed h"
  shows "mq_pending (w_queue w) = js \<Longrightarrow> list_all (\<lambda>j. job_SubmissionID j \<noteq> []) js \<Longrightarrow>
    mq_ok (w_queue w) \<Longrightarrow> mb_ok (w_bus w) \<Longrightarrow> \<not> wp_stopped p \<Longrightarrow>
    run_state (workerLoop (length js) (MemoryQueue_ops h) (MemoryEventBus_ops h) (MemoryStore_ops h) h p) w =
      ((go, p'), w') \<Longrightarrow>
    go \<and> mq_pending (w_queue w') = [] \<and> (\<forall>j \<in> set js. finished (ms_lookup w') (job_SubmissionID j)) \<and>
    (\<forall>k. k \<notin> job_SubmissionID ` set js \<longrightarrow> ms_lookup w' k = ms_lookup w k)"
proof (induction js arbitrary: w p)
  case (Cons j js)
  let ?w1 = "w\<lparr>w_trace := w_trace w @ [CtxErr]\<rparr>"
  have 1: "mq_pending (w_queue ?w1) = j # js" "job_SubmissionID j \<noteq> []" "mq_ok (w_queue ?w1)" "mb_ok (w_bus ?w1)"
    using Cons.prems by simp_all
  obtain p2 w2 s where 2: "run_state (worker_turn (MemoryQueue_ops h) (MemoryEventBus_ops h) (MemoryStore_ops h) h p) ?w1 =
      ((True, p2), w2)" "wp_stopped p2 = wp_stopped p" "mq_pending (w_queue w2) = js" "mq_ok (w_queue w2)"
      "mb_ok (w_bus w2)" "ms_lookup w2 = (ms_lookup ?w1)(job_SubmissionID j \<mapsto> s)"
      "is_final (ss_Status s)" "ss_CompletedAt s \<noteq> None"
    by (rule worker_turn_next [OF h 1])
  have "h_ctxErr h (w_trace w) = None" using h by (simp add: undisturbed_def)
  with Cons.prems(5,6) 2(1,2) have
    "run_state (workerLoop (length js) (MemoryQueue_ops h) (MemoryEventBus_ops h) (MemoryStore_ops h) h p2) w2 = ((go, p'), w')"
    by simp
  note IH = Cons.IH [OF 2(3) _ 2(4,5) _ this]
  have fin: "finished (ms_lookup w2) (job_SubmissionID j)" using 2(6-8) by (simp add: finished_def)
  have "ms_lookup ?w1 = ms_lookup w" by (simp add: ms_lookup_def)
  with IH fin 2(2,6) Cons.prems(2,5) show ?case
    by (cases "job_SubmissionID j \<in> job_SubmissionID ` set js") (auto simp: finished_def)
qed simp

section \<open>Accepting\<close>

lemma mq_Enqueue_room:
  assumes "undisturbed h" and "mq_ok (w_queue w)" and "\<not> mq_closed (w_queue w)"
    and "length (mq_pending (w_queue w)) < ch_cap (mq_ch (w_queue w))"
  shows "\<exists>w'. run_state (mq_Enqueue h j) w = (None, w')"
proof -
  obtain t ops where n: "run_state (job_Normalize h j) w = (job_defaults j t, w\<lparr>w_trace := w_trace w @ ops\<rparr>)"
    using job_Normalize_run by blast
  show ?thesis
    using assms by (auto simp: mq_Enqueue_def n undisturbed_def enqueue_select_def chan_send_def mq_ok_def mq_pending_def)
qed

text \<open>A valid submission is accepted when there is room.\<close>

lemma handle_accepts:
  fixes w :: "'z mem_world_scheme"
  assumes h: "undisturbed h" and w: "mq_ok (w_queue w)" "\<not> mq_closed (w_queue w)"
    "length (mq_pending (w_queue w)) < ch_cap (mq_ch (w_queue w))"
    "int (length (mq_pending (w_queue w))) < cfg_MaxQueueDepth cfg"
    and ok: "rq_Method r = ''POST''" "aj_decode js (rq_Body r) = Inr req" "TrimSpace (sr_Code req) \<noteq> []"
      "Get h (init_registry h) (sr_Language req) = Inr lang"
    and run: "run_state (handleSubmissions (memory_server h cfg) h js r new_response) w = (resp, w')"
  shows "hr_code resp = 202"
proof -
  have d: "run_state (jq_QueueDepth (sv_queue (memory_server h cfg))) w = (Inr (int (length (mq_pending (w_queue w)))), w)"
    by simp
  have "run_state (submit (memory_server h cfg) h req new_response) w = (resp, w')"
    using gw.depth_outcome [OF ok d run] w(4) by simp
  then obtain sid now v where sub: "run_state (submit_as (memory_server h cfg) h req sid now new_response) v = (resp, w')"
    and v: "w_queue v = w_queue w" by (auto simp: submit_def)
  obtain e v1 where 1: "run_state (ms_SaveState h (Some (queued_state sid req now))) v = (e, v1)" by force
  then have v1: "e = None" "w_queue v1 = w_queue w" by (auto simp: ms_SaveState_run v)
  obtain v2 where 2: "run_state (mq_Enqueue h (submitted_job sid req now)) v1 = (None, v2)"
    using mq_Enqueue_room [OF h, of v1] w(1-3) v1(2) by auto
  obtain e3 v3 where 3: "run_state (mb_Publish h sid (Some (event_of sid StatusQueued now))) v2 = (e3, v3)" by force
  from sub 1 2 3 v1 show ?thesis
    by (auto simp: submit_as_def MemoryStore_ops_def MemoryQueue_ops_def MemoryEventBus_ops_def hr_code_def)
qed

section \<open>Properties\<close>

text \<open>
  C39.  From submission to result.  The gateway has accepted a submission on the in-memory services;
  a worker that nobody disturbs then goes once round its loop for every job pending.  The queue is
  empty, the worker is still listening, and the submission the response names is finished in the
  store, so its path answers with a result and not with the queued state.
\<close>

theorem submission_completes:
  assumes "undisturbed h" and "mq_ok (w_queue w)" and "mb_ok (w_bus w)"
    and "list_all (\<lambda>j. job_SubmissionID j \<noteq> []) (mq_pending (w_queue w))"
    and "run_state (handleSubmissions (memory_server h cfg) h js r new_response) w = (resp, w1)"
    and "hr_code resp = 202" and "\<not> wp_stopped p"
    and "run_state (workerLoop (length (mq_pending (w_queue w)) + 1) (MemoryQueue_ops h) (MemoryEventBus_ops h)
           (MemoryStore_ops h) h p) w1 = ((go, p'), w2)"
  shows "go \<and> mq_pending (w_queue w2) = [] \<and>
    (\<exists>sid now. resp = accepted_response h sid now new_response \<and> finished (ms_lookup w2) sid)"
proof -
  note o = gw.handle_outcome [OF assms(2) TrueI _ assms(5)]
  have bus: "mb_ok (w_bus w1)" by (rule handle_bus [OF assms(3,5)])
  from o assms(6) obtain sid req now t where acc: "resp = accepted_response h sid now new_response"
      "mq_ok (w_queue w1)" "mq_pending (w_queue w1) = mq_pending (w_queue w) @ [job_defaults (submitted_job sid req now) t]"
      "sid \<noteq> []"
    unfolding gw.keeps_def gw.unsaved_def gw.orphaned_def gw.queued_def Let_def hr_code_def
    by (auto simp: append_eq_append_conv2)
  let ?js = "mq_pending (w_queue w) @ [job_defaults (submitted_job sid req now) t]"
  have ids: "list_all (\<lambda>j. job_SubmissionID j \<noteq> []) ?js" using assms(4) acc(4) by simp
  have run: "run_state (workerLoop (length ?js) (MemoryQueue_ops h) (MemoryEventBus_ops h) (MemoryStore_ops h) h p) w1 =
      ((go, p'), w2)" using assms(8) by simp
  from workerLoop_drains [OF assms(1) acc(3) ids acc(2) bus assms(7) run] acc(1) show ?thesis by auto
qed

theorem submission_completes_witness:
  "let m = memory_server eager_host \<lparr>cfg_Addr = [], cfg_MaxQueueDepth = 500\<rparr>;
       (resp, w1) = run_state (handleSubmissions m eager_host sample_js
         \<lparr>rq_Method = ''POST'', rq_Path = ''/api/v1/submissions'', rq_Body = []\<rparr> new_response) sample_world;
       ((go, p'), w2) = run_state (workerLoop 1 (MemoryQueue_ops eager_host) (MemoryEventBus_ops eager_host)
         (MemoryStore_ops eager_host) eager_host (NewWorkerPool one_worker)) w1
   in go \<and> mq_pending (w_queue w2) = [] \<and>
     (\<exists>sid now. resp = accepted_response eager_host sid now new_response \<and> finished (ms_lookup w2) sid)"
proof -
  let ?m = "memory_server eager_host \<lparr>cfg_Addr = [], cfg_MaxQueueDepth = 500\<rparr> :: mem_world Server"
  let ?r = "\<lparr>rq_Method = ''POST'', rq_Path = ''/api/v1/submissions'', rq_Body = []\<rparr>"
  obtain resp w1 where 1: "run_state (handleSubmissions ?m eager_host sample_js ?r new_response) sample_world = (resp, w1)"
    by (metis prod.exhaust)
  obtain go p' w2 where 2: "run_state (workerLoop 1 (MemoryQueue_ops eager_host) (MemoryEventBus_ops eager_host)
      (MemoryStore_ops eager_host) eager_host (NewWorkerPool one_worker)) w1 = ((go, p'), w2)"
    by (metis prod.exhaust)
  have h: "undisturbed eager_host" by (simp add: undisturbed_def)
  have w: "mq_ok (w_queue sample_world)" "mb_ok (w_bus sample_world)" "mq_pending (w_queue sample_world) = []"
    using mb_subscribedD(1) [OF sample_subscribed] by (simp_all add: sample_world_def)
  have code: "TrimSpace (sr_Code sample_submit) \<noteq> []" unfolding sample_submit_def SubmitRequest.simps by code_simp
  have "normalize_language eager_host ''python3'' = ''python3''" by code_simp
  then have lang: "Get eager_host (init_registry eager_host) (sr_Language sample_submit) = Inr PythonHandler"
    by (simp add: Get_Inr_iff sample_submit_def)
  have js: "aj_decode sample_js [] = Inr sample_submit" by (simp add: sample_js_def)
  have room: "\<not> mq_closed (w_queue sample_world)" "0 < ch_cap (mq_ch (w_queue sample_world))"
    by (simp_all add: sample_world_def NewMemoryQueue_def make_chan_def)
  have "hr_code resp = 202"
    by (rule handle_accepts [OF h w(1) room(1) _ _ _ _ code lang 1]) (simp_all add: w(3) room(2) js)
  moreover have "list_all (\<lambda>j. job_SubmissionID j \<noteq> []) (mq_pending (w_queue sample_world))"
    "\<not> wp_stopped (NewWorkerPool one_worker)" by (simp_all add: w(3) NewWorkerPool_def)
  moreover have "length (mq_pending (w_queue sample_world)) + 1 = 1" by (simp add: w(3))
  ultimately have "go \<and> mq_pending (w_queue w2) = [] \<and>
     (\<exists>sid now. resp = accepted_response eager_host sid now new_response \<and> finished (ms_lookup w2) sid)"
    using submission_completes [OF h w(1,2) _ 1, of "NewWorkerPool one_worker" go p' w2] 2 by metis
  then show ?thesis unfolding Let_def 1 prod.case 2 .
qed

end
