(* ===== verification/Commands.thy ===== *)
theory Commands
  imports Engine Pool Api_Server Redis_Queue Redis_Bus Sample_Host
begin

text \<open>
  The three programs under \<^verbatim>\<open>cmd\<close>.  \<open>engine_main\<close> runs one program from the command line and
  prints the result; \<open>api_setup\<close> and \<open>worker_setup\<close> are the first parts of the two daemons, up to
  the point where goroutines are started; what they do from there is in \<^verbatim>\<open>Daemons\<close>.  Flags are the
  values the \<^verbatim>\<open>flag\<close> package hands over.
\<close>

section \<open>The command line engine\<close>








section \<open>The report\<close>











section \<open>Connecting the services\<close>

record 'w services =
  svc_queue :: "'w JobQueue"
  svc_bus :: "'w EventBus"
  svc_store :: "'w StateStore"
  svc_recv :: "nat \<Rightarrow> ('w, ExecutionEvent option option) state"

text \<open>
  The JSON codecs of the Redis services and the receive operation of a Redis subscription's channel,
  which its reader goroutine fills.
\<close>

record 'w redis_parts =
  rp_job :: "SubmissionJob codec"
  rp_event :: "ExecutionEvent codec"
  rp_state :: "SubmissionState codec"
  rp_recv :: "nat \<Rightarrow> ('w, ExecutionEvent option option) state"

definition redis_services :: "host \<Rightarrow> ('z world_scheme) redis_parts \<Rightarrow> ('z world_scheme) services" where
  "redis_services h rp =
     \<lparr>svc_queue = RedisQueue_ops h (NewRedisQueue (rp_job rp) DefaultRedisQueueKey),
      svc_bus = RedisEventBus_ops h (rp_event rp),
      svc_store = RedisStore_ops h (NewRedisStore (rp_state rp) (24 * Hour)),
      svc_recv = rp_recv rp\<rparr>"

definition memory_services :: "host \<Rightarrow> ('z mem_world_scheme) services" where
  "memory_services h =
     \<lparr>svc_queue = MemoryQueue_ops h, svc_bus = MemoryEventBus_ops h, svc_store = MemoryStore_ops h,
      svc_recv = mb_recv\<rparr>"

text \<open>The fresh in-memory services.\<close>

definition make_memory :: "('z mem_world_scheme, unit) state" where
  "make_memory = State (\<lambda>w. ((), w\<lparr>w_queue := NewMemoryQueue 1000, w_bus := NewMemoryEventBus, w_store := NewMemoryStore\<rparr>))"

text \<open>What both programs do first; a left value is the message \<^verbatim>\<open>log.Fatalf\<close> ends the program with.\<close>

definition open_services ::
  "host \<Rightarrow> ('z mem_world_scheme) redis_parts \<Rightarrow> string \<Rightarrow>
   ('z mem_world_scheme, string + ('z mem_world_scheme) services) state" where
  "open_services h rp redisURL =
     (if redisURL \<noteq> [] then do {
        e \<leftarrow> io_err h (RedisParseURL redisURL);
        (case e of
           Some err \<Rightarrow> ret (Inl (''Invalid Redis URL: '' @ err_Error err))
         | None \<Rightarrow> do {
             e \<leftarrow> io_err h (RedisPing (3 * Second));
             ret (case e of
                    Some err \<Rightarrow> Inl (''Failed to connect to Redis at '' @ redisURL @ '': '' @ err_Error err)
                  | None \<Rightarrow> Inr (redis_services h rp))
           })
      }
      else do { make_memory; ret (Inr (memory_services h)) })"

definition log_fatal :: "string \<Rightarrow> ('z world_scheme, int) state" where
  "log_fatal msg = do { io_do (WriteStderr (msg @ [CHR 0x0A])); io_do (Exit 1); ret 1 }"

section \<open>The gateway program\<close>

record api_flags =
  af_port :: int
  af_redis :: string
  af_max_queue_depth :: int
  af_workers :: int

definition api_flag_defaults :: api_flags where
  "api_flag_defaults = \<lparr>af_port = 8080, af_redis = [], af_max_queue_depth = 500, af_workers = 4\<rparr>"

text \<open>The embedded pool, which only the in-memory mode has, and only with at least one worker.\<close>

definition embedded_config :: "api_flags \<Rightarrow> PoolConfig" where
  "embedded_config f =
     \<lparr>pc_Concurrency = af_workers f, pc_PollTimeout = 0, pc_WorkerID = ''embedded-worker-pool''\<rparr>"

definition embeds_pool :: "api_flags \<Rightarrow> bool" where
  "embeds_pool f \<longleftrightarrow> af_redis f = [] \<and> 0 < af_workers f"

definition api_server :: "api_flags \<Rightarrow> 'w services \<Rightarrow> 'w Server" where
  "api_server f svc =
     NewServer \<lparr>cfg_Addr = '':'' @ FormatInt (af_port f), cfg_MaxQueueDepth = af_max_queue_depth f\<rparr>
       (svc_queue svc) (svc_bus svc) (svc_store svc) (svc_recv svc)"

section \<open>The worker program\<close>

record worker_flags =
  wf_redis :: string
  wf_concurrency :: int
  wf_worker_id :: string

definition worker_id :: "host \<Rightarrow> worker_flags \<Rightarrow> ('z world_scheme, string) state" where
  "worker_id h f =
     (if wf_worker_id f = [] then do {
        r \<leftarrow> perform Hostname (h_hostname h);
        u \<leftarrow> perform UuidNew (h_uuid h);
        ret ((case r of Inr host \<Rightarrow> host | Inl _ \<Rightarrow> []) @ ''-'' @ take 8 u)
      }
      else ret (wf_worker_id f))"

definition worker_flag_defaults :: worker_flags where
  "worker_flag_defaults = \<lparr>wf_redis = [], wf_concurrency = 4, wf_worker_id = []\<rparr>"

definition worker_config :: "worker_flags \<Rightarrow> string \<Rightarrow> PoolConfig" where
  "worker_config f wid = \<lparr>pc_Concurrency = wf_concurrency f, pc_PollTimeout = 2 * Second, pc_WorkerID = wid\<rparr>"

text \<open>
  What either program does before it starts anything: the worker's identifier, then the services.
  A left value is the exit code of a program that ended there.
\<close>

definition worker_setup ::
  "host \<Rightarrow> ('z mem_world_scheme) redis_parts \<Rightarrow> worker_flags \<Rightarrow>
   ('z mem_world_scheme, int + PoolConfig \<times> ('z mem_world_scheme) services) state" where
  "worker_setup h rp f = do {
     wid \<leftarrow> worker_id h f;
     s \<leftarrow> open_services h rp (wf_redis f);
     (case s of
        Inl msg \<Rightarrow> do { c \<leftarrow> log_fatal msg; ret (Inl c) }
      | Inr svc \<Rightarrow> ret (Inr (worker_config f wid, svc)))
   }"

definition api_setup ::
  "host \<Rightarrow> ('z mem_world_scheme) redis_parts \<Rightarrow> api_flags \<Rightarrow>
   ('z mem_world_scheme, int + ('z mem_world_scheme) Server \<times> ('z mem_world_scheme) services) state" where
  "api_setup h rp f = do {
     s \<leftarrow> open_services h rp (af_redis f);
     (case s of
        Inl msg \<Rightarrow> do { c \<leftarrow> log_fatal msg; ret (Inl c) }
      | Inr svc \<Rightarrow> ret (Inr (api_server f svc, svc)))
   }"

section \<open>Lemmas\<close>

text \<open>A Redis URL is never answered with the in-memory services: it is used, or the program ends.\<close>

lemma open_services_redis:
  assumes "redisURL \<noteq> []"
  shows "case fst (run_state (open_services h rp redisURL) w) of
      Inr svc \<Rightarrow> svc = redis_services h rp \<and> snd (run_state (open_services h rp redisURL) w) =
        w\<lparr>w_trace := w_trace w @ [RedisParseURL redisURL, RedisPing (3 * Second)]\<rparr>
    | Inl msg \<Rightarrow> True"
  using assms by (auto simp: open_services_def split: option.splits)

lemma open_services_memory:
  "run_state (open_services h rp []) w =
     (Inr (memory_services h), w\<lparr>w_queue := NewMemoryQueue 1000, w_bus := NewMemoryEventBus, w_store := NewMemoryStore\<rparr>)"
  by (simp add: open_services_def make_memory_def)





















section \<open>Properties\<close>






end
