(* ===== verification/Daemons.thy ===== *)
theory Daemons
  imports Commands Pool
begin

text \<open>
  The goroutines of \<^verbatim>\<open>cmd/worker/main.go\<close> and \<^verbatim>\<open>cmd/api/main.go\<close>, over a queue in memory or on
  Redis, from the start of the worker pool to the end of the program: the main goroutine with its
  calls of \<open>Start\<close>, \<open>Stop\<close> and \<open>Close\<close>, the workers, the listener and the request handlers, interleaved.
  The worker program stops its pool before it closes the services; the gateway closes them first
  and stops its pool in a deferred call.
\<close>

section \<open>State\<close>

text \<open>
  Where the main goroutine is: before and in \<open>Start\<close>, waiting for the signal, cancelling the
  context, shutting the server down, closing the three services, before and in \<open>Stop\<close>, at the end.
\<close>

datatype main_pc =
    BeforeStart
  | InStart
  | Awaiting
  | Cancelling
  | ShuttingDown
  | ClosingQueue
  | ClosingBus
  | ClosingStore
  | BeforeStop
  | InStop
  | Returned

datatype listener_pc = NoListener | Listening | ListenerFailed | ListenerDone

text \<open>\<open>d_closed_queue\<close> and \<open>d_closed_bus\<close> say that the program has closed the service.\<close>

record 'q daemon =
  d_pool :: "'q psys"
  d_main :: main_pc
  d_listener :: listener_pc
  d_closed_queue :: bool
  d_closed_bus :: bool
  d_exit :: "int option"

definition daemon_init :: "'q queue_sys \<Rightarrow> PoolConfig \<Rightarrow> 'q daemon" where
  "daemon_init Q cfg =
     \<lparr>d_pool = psys_init Q cfg, d_main = BeforeStart, d_listener = NoListener, d_closed_queue = False,
      d_closed_bus = False, d_exit = None\<rparr>"

abbreviation d_queue :: "'q daemon \<Rightarrow> 'q" where
  "d_queue s \<equiv> ps_queue (d_pool s)"

abbreviation set_queue :: "'q \<Rightarrow> 'q daemon \<Rightarrow> 'q daemon" where
  "set_queue q s \<equiv> s\<lparr>d_pool := (d_pool s)\<lparr>ps_queue := q\<rparr>\<rparr>"

definition close_queue :: "'q queue_sys \<Rightarrow> 'q daemon \<Rightarrow> 'q daemon" where
  "close_queue Q s = (set_queue (qy_close Q (d_queue s)) s)\<lparr>d_closed_queue := True\<rparr>"

section \<open>The worker program\<close>

inductive wm_step :: "'q queue_sys \<Rightarrow> 'q daemon \<Rightarrow> 'q daemon \<Rightarrow> bool" for Q where
  WmStart: "d_main s = BeforeStart \<Longrightarrow> start_step (d_pool s) p \<Longrightarrow>
    wm_step Q s (s\<lparr>d_pool := p, d_main := InStart\<rparr>)"
| WmStarting: "d_main s = InStart \<Longrightarrow> ps_owner (d_pool s) \<noteq> Outside \<Longrightarrow> start_step (d_pool s) p \<Longrightarrow>
    wm_step Q s (s\<lparr>d_pool := p\<rparr>)"
| WmStarted: "d_main s = InStart \<Longrightarrow> ps_owner (d_pool s) = Outside \<Longrightarrow> wm_step Q s (s\<lparr>d_main := Awaiting\<rparr>)"
| WmSignal: "d_main s = Awaiting \<Longrightarrow> wm_step Q s (s\<lparr>d_main := Cancelling\<rparr>)"
| WmCancel: "d_main s = Cancelling \<Longrightarrow> wm_step Q s (s\<lparr>d_pool := cancel_ctx (d_pool s), d_main := BeforeStop\<rparr>)"
| WmStop: "d_main s = BeforeStop \<Longrightarrow> stop_step (d_pool s) p \<Longrightarrow>
    wm_step Q s (s\<lparr>d_pool := p, d_main := InStop\<rparr>)"
| WmStopping: "d_main s = InStop \<Longrightarrow> ps_owner (d_pool s) = Waiting \<Longrightarrow> stop_step (d_pool s) p \<Longrightarrow>
    wm_step Q s (s\<lparr>d_pool := p\<rparr>)"
| WmStopPanics: "d_main s = InStop \<Longrightarrow> ps_owner (d_pool s) = Crashed \<Longrightarrow> wm_step Q s (s\<lparr>d_exit := Some 2\<rparr>)"
| WmStopped: "d_main s = InStop \<Longrightarrow> ps_owner (d_pool s) = Outside \<Longrightarrow> wm_step Q s (s\<lparr>d_main := ClosingQueue\<rparr>)"
| WmCloseQueue: "d_main s = ClosingQueue \<Longrightarrow>
    wm_step Q s ((close_queue Q s)\<lparr>d_main := ClosingBus\<rparr>)"
| WmCloseBus: "d_main s = ClosingBus \<Longrightarrow> wm_step Q s (s\<lparr>d_closed_bus := True, d_main := ClosingStore\<rparr>)"
| WmCloseStore: "d_main s = ClosingStore \<Longrightarrow> wm_step Q s (s\<lparr>d_main := Returned\<rparr>)"
| WmReturn: "d_main s = Returned \<Longrightarrow> wm_step Q s (s\<lparr>d_exit := Some 0\<rparr>)"

text \<open>The whole program, and the other programs that use the same queue.\<close>

inductive wd_step :: "'q queue_sys \<Rightarrow> 'q daemon \<Rightarrow> 'q daemon \<Rightarrow> bool" for Q where
  WdWorker: "d_exit s = None \<Longrightarrow> w_step Q (d_pool s) p \<Longrightarrow> wd_step Q s (s\<lparr>d_pool := p\<rparr>)"
| WdMain: "d_exit s = None \<Longrightarrow> wm_step Q s s' \<Longrightarrow> wd_step Q s s'"
| WdOthers: "d_exit s = None \<Longrightarrow> qy_others Q (d_queue s) q \<Longrightarrow> wd_step Q s (set_queue q s)"

inductive wd_reach :: "'q queue_sys \<Rightarrow> PoolConfig \<Rightarrow> 'q daemon \<Rightarrow> bool" for Q cfg where
  wd_start: "wd_reach Q cfg (daemon_init Q cfg)"
| wd_next: "wd_reach Q cfg s \<Longrightarrow> wd_step Q s s' \<Longrightarrow> wd_reach Q cfg s'"

section \<open>The gateway program\<close>

text \<open>
  \<open>embedded\<close> says whether the gateway has a pool.  \<open>Shutdown\<close> makes the listener return; it may end
  before the handlers do, so they move at any time.
\<close>

inductive am_step :: "'q queue_sys \<Rightarrow> bool \<Rightarrow> 'q daemon \<Rightarrow> 'q daemon \<Rightarrow> bool" for Q embedded where
  AmStart: "d_main s = BeforeStart \<Longrightarrow> embedded \<Longrightarrow> start_step (d_pool s) p \<Longrightarrow>
    am_step Q embedded s (s\<lparr>d_pool := p, d_main := InStart\<rparr>)"
| AmStarting: "d_main s = InStart \<Longrightarrow> ps_owner (d_pool s) \<noteq> Outside \<Longrightarrow> start_step (d_pool s) p \<Longrightarrow>
    am_step Q embedded s (s\<lparr>d_pool := p\<rparr>)"
| AmListen: "(d_main s = BeforeStart \<and> \<not> embedded) \<or> (d_main s = InStart \<and> ps_owner (d_pool s) = Outside) \<Longrightarrow>
    am_step Q embedded s (s\<lparr>d_listener := Listening, d_main := Awaiting\<rparr>)"
| AmSignal: "d_main s = Awaiting \<Longrightarrow> am_step Q embedded s (s\<lparr>d_main := ShuttingDown\<rparr>)"
| AmShutdown: "d_main s = ShuttingDown \<Longrightarrow> am_step Q embedded s (s\<lparr>d_main := ClosingQueue\<rparr>)"
| AmCloseQueue: "d_main s = ClosingQueue \<Longrightarrow>
    am_step Q embedded s ((close_queue Q s)\<lparr>d_main := ClosingBus\<rparr>)"
| AmCloseBus: "d_main s = ClosingBus \<Longrightarrow>
    am_step Q embedded s (s\<lparr>d_closed_bus := True, d_main := ClosingStore\<rparr>)"
| AmCloseStore: "d_main s = ClosingStore \<Longrightarrow>
    am_step Q embedded s (s\<lparr>d_main := (if embedded then BeforeStop else Cancelling)\<rparr>)"
| AmStop: "d_main s = BeforeStop \<Longrightarrow> stop_step (d_pool s) p \<Longrightarrow>
    am_step Q embedded s (s\<lparr>d_pool := p, d_main := InStop\<rparr>)"
| AmStopping: "d_main s = InStop \<Longrightarrow> ps_owner (d_pool s) = Waiting \<Longrightarrow> stop_step (d_pool s) p \<Longrightarrow>
    am_step Q embedded s (s\<lparr>d_pool := p\<rparr>)"
| AmStopPanics: "d_main s = InStop \<Longrightarrow> ps_owner (d_pool s) = Crashed \<Longrightarrow>
    am_step Q embedded s (s\<lparr>d_exit := Some 2\<rparr>)"
| AmStopped: "d_main s = InStop \<Longrightarrow> ps_owner (d_pool s) = Outside \<Longrightarrow> am_step Q embedded s (s\<lparr>d_main := Cancelling\<rparr>)"
| AmCancel: "d_main s = Cancelling \<Longrightarrow>
    am_step Q embedded s (s\<lparr>d_pool := cancel_ctx (d_pool s), d_main := Returned\<rparr>)"
| AmReturn: "d_main s = Returned \<Longrightarrow> am_step Q embedded s (s\<lparr>d_exit := Some 0\<rparr>)"

text \<open>
  The goroutine of the listener: \<^verbatim>\<open>srv.Start\<close> returns an error and ends the program, or returns
  without one once \<open>Shutdown\<close> was called.
\<close>

inductive listener_step :: "'q daemon \<Rightarrow> 'q daemon \<Rightarrow> bool" where
  ListenerFails: "d_listener s = Listening \<Longrightarrow> listener_step s (s\<lparr>d_listener := ListenerFailed, d_exit := Some 1\<rparr>)"
| ListenerCloses: "d_listener s = Listening \<Longrightarrow> d_main s \<notin> {BeforeStart, InStart, Awaiting} \<Longrightarrow>
    listener_step s (s\<lparr>d_listener := ListenerDone\<rparr>)"

text \<open>
  The whole program with its handlers, and other programs on the same queue.  On Redis each subscription
  of a WebSocket handler has a reader goroutine that nothing recovers; it may send on the channel that
  the handler's cleanup has closed (C24), which ends the program like any panic.
\<close>

inductive ad_step :: "'q queue_sys \<Rightarrow> bool \<Rightarrow> 'q daemon \<Rightarrow> 'q daemon \<Rightarrow> bool" for Q embedded where
  AdWorker: "d_exit s = None \<Longrightarrow> w_step Q (d_pool s) p \<Longrightarrow> ad_step Q embedded s (s\<lparr>d_pool := p\<rparr>)"
| AdMain: "d_exit s = None \<Longrightarrow> am_step Q embedded s s' \<Longrightarrow> ad_step Q embedded s s'"
| AdListener: "d_exit s = None \<Longrightarrow> listener_step s s' \<Longrightarrow> ad_step Q embedded s s'"
| AdHandler: "d_exit s = None \<Longrightarrow> d_listener s \<noteq> NoListener \<Longrightarrow> qy_handler Q (d_queue s) q \<Longrightarrow>
    ad_step Q embedded s (set_queue q s)"
| AdReader: "d_exit s = None \<Longrightarrow> d_listener s \<noteq> NoListener \<Longrightarrow> qy_readers Q \<Longrightarrow>
    ad_step Q embedded s (s\<lparr>d_exit := Some 2\<rparr>)"
| AdOthers: "d_exit s = None \<Longrightarrow> qy_others Q (d_queue s) q \<Longrightarrow> ad_step Q embedded s (set_queue q s)"

inductive ad_reach :: "'q queue_sys \<Rightarrow> api_flags \<Rightarrow> 'q daemon \<Rightarrow> bool" for Q f where
  ad_start: "ad_reach Q f (daemon_init Q (embedded_config f))"
| ad_next: "ad_reach Q f s \<Longrightarrow> ad_step Q (embeds_pool f) s s' \<Longrightarrow> ad_reach Q f s'"

section \<open>The phases of the pool\<close>

definition pool_new :: "'q psys \<Rightarrow> bool" where
  "pool_new p \<longleftrightarrow> ps_owner p = Outside \<and> \<not> wp_running (ps_pool p) \<and> \<not> wp_stopped (ps_pool p) \<and> wp_wg (ps_pool p) = 0"

definition pool_starting :: "'q psys \<Rightarrow> bool" where
  "pool_starting p \<longleftrightarrow>
     (ps_owner p = Outside \<or> (\<exists>i. ps_owner p = Spawning i)) \<and> wp_running (ps_pool p) \<and> \<not> wp_stopped (ps_pool p)"

definition pool_up :: "'q psys \<Rightarrow> bool" where
  "pool_up p \<longleftrightarrow> ps_owner p = Outside \<and> wp_running (ps_pool p) \<and> \<not> wp_stopped (ps_pool p)"

definition pool_down :: "'q psys \<Rightarrow> bool" where
  "pool_down p \<longleftrightarrow> ps_owner p = Outside \<and> \<not> wp_running (ps_pool p) \<and> wp_wg (ps_pool p) = 0"

definition pool_stopping :: "'q psys \<Rightarrow> bool" where
  "pool_stopping p \<longleftrightarrow> \<not> wp_running (ps_pool p) \<and> (ps_owner p = Waiting \<or> ps_owner p = Outside \<and> wp_wg (ps_pool p) = 0)"

lemmas phase_defs = pool_new_def pool_starting_def pool_up_def pool_down_def pool_stopping_def

definition w_phase :: "main_pc \<Rightarrow> 'q psys \<Rightarrow> bool" where
  "w_phase m =
     (case m of BeforeStart \<Rightarrow> pool_new | InStart \<Rightarrow> pool_starting | Awaiting \<Rightarrow> pool_up | Cancelling \<Rightarrow> pool_up
      | BeforeStop \<Rightarrow> pool_up | InStop \<Rightarrow> pool_stopping | ShuttingDown \<Rightarrow> (\<lambda>_. False) | _ \<Rightarrow> pool_down)"

definition a_phase :: "bool \<Rightarrow> main_pc \<Rightarrow> 'q psys \<Rightarrow> bool" where
  "a_phase embedded m =
     (case m of BeforeStart \<Rightarrow> pool_new | InStart \<Rightarrow> (\<lambda>p. embedded \<and> pool_starting p) | InStop \<Rightarrow> pool_stopping
      | Cancelling \<Rightarrow> pool_down | Returned \<Rightarrow> pool_down | _ \<Rightarrow> if embedded then pool_up else pool_down)"

text \<open>Nothing but the owner moves a pool from one phase to another.\<close>

definition owner_view :: "'q psys \<Rightarrow> owner_pc \<times> bool \<times> bool \<times> int" where
  "owner_view p = (ps_owner p, wp_running (ps_pool p), wp_stopped (ps_pool p), wp_wg (ps_pool p))"

lemma phase_view:
  assumes "owner_view p' = owner_view p"
  shows "pool_new p' = pool_new p" "pool_starting p' = pool_starting p" "pool_up p' = pool_up p"
    "pool_down p' = pool_down p" "pool_stopping p' = pool_stopping p"
  using assms by (simp_all add: phase_defs owner_view_def)

lemma w_step_frame:
  assumes "w_step Q p p'"
  shows "ps_owner p' = ps_owner p" "wp_running (ps_pool p') = wp_running (ps_pool p)"
    "wp_stopped (ps_pool p') = wp_stopped (ps_pool p)"
  using assms by (induction rule: w_step.induct) simp_all

lemma w_step_alive:
  assumes "w_step Q p p'" and "psys_inv p"
  shows "wp_wg (ps_pool p) \<noteq> 0"
proof -
  have "\<not> set (ps_workers p) \<subseteq> {Gone}"
    using assms(1) by (induction rule: w_step.induct) (auto dest: nth_mem)
  with assms(2) alive_none [of "ps_workers p"] show ?thesis by (simp add: psys_inv_def)
qed

lemma w_step_phase:
  assumes "w_step Q p p'" and "psys_inv p"
  shows "pool_new p \<Longrightarrow> pool_new p'" "pool_starting p \<Longrightarrow> pool_starting p'" "pool_up p \<Longrightarrow> pool_up p'"
    "pool_down p \<Longrightarrow> pool_down p'" "pool_stopping p \<Longrightarrow> pool_stopping p'"
  using w_step_alive [OF assms] w_step_frame [OF assms(1)] by (auto simp: phase_defs)

lemma w_step_phases:
  assumes "w_step Q p p'" and "psys_inv p"
  shows "w_phase m p \<Longrightarrow> w_phase m p'" "a_phase e m p \<Longrightarrow> a_phase e m p'"
  using w_step_phase [OF assms] by (auto simp: w_phase_def a_phase_def split: main_pc.splits if_splits)

lemma start_step_phase:
  assumes "start_step p p'"
  shows "pool_new p \<Longrightarrow> pool_starting p'" "pool_starting p \<Longrightarrow> pool_starting p'"
  using assms by (induction rule: start_step.induct) (auto simp: phase_defs)

lemma stop_step_phase:
  assumes "stop_step p p'"
  shows "pool_up p \<Longrightarrow> pool_stopping p'" "pool_down p \<Longrightarrow> pool_stopping p'" "pool_stopping p \<Longrightarrow> pool_stopping p'"
  using assms by (induction rule: stop_step.induct) (auto simp: phase_defs)

lemma view_cancel [simp]: "owner_view (cancel_ctx p) = owner_view p"
  by (simp add: owner_view_def cancel_ctx_def)

lemma view_queue [simp]: "owner_view (p\<lparr>ps_queue := q\<rparr>) = owner_view p"
  by (simp add: owner_view_def)

lemma phases_view:
  assumes "owner_view p' = owner_view p"
  shows "w_phase m p' = w_phase m p" "a_phase e m p' = a_phase e m p"
  using phase_view [OF assms] by (simp_all add: w_phase_def a_phase_def split: main_pc.splits)

section \<open>Invariants\<close>

text \<open>Every move of a daemon is one of its pool, or leaves the pool alone.\<close>

lemma close_moves: "p_step Q (d_pool s) (d_pool (close_queue Q s))"
  by (simp add: close_queue_def QueueMoves qy_moves_def)

lemma close_queue_simps [simp]:
  "d_main (close_queue Q s) = d_main s" "d_exit (close_queue Q s) = d_exit s"
  "d_closed_queue (close_queue Q s)" "d_closed_bus (close_queue Q s) = d_closed_bus s"
  "d_listener (close_queue Q s) = d_listener s" "ps_workers (d_pool (close_queue Q s)) = ps_workers (d_pool s)"
  "owner_view (d_pool (close_queue Q s)) = owner_view (d_pool s)"
  by (simp_all add: close_queue_def)

lemma wm_step_pool: "wm_step Q s s' \<Longrightarrow> d_pool s' = d_pool s \<or> p_step Q (d_pool s) (d_pool s')"
proof (induction rule: wm_step.induct)
  case (WmCloseQueue s)
  then show ?case using close_moves [of Q s] by simp
qed (auto intro: OwnerMoves o_step.intros)



lemma wd_step_pool: "wd_step Q s s' \<Longrightarrow> d_pool s' = d_pool s \<or> p_step Q (d_pool s) (d_pool s')"
  by (induction rule: wd_step.induct)
    (auto simp: qy_moves_def intro: WorkerMoves QueueMoves dest: wm_step_pool)


lemma wd_reach_pool: "wd_reach Q cfg s \<Longrightarrow> p_reach Q cfg (d_pool s)"
proof (induction rule: wd_reach.induct)
  case wd_start
  show ?case by (simp add: daemon_init_def p_start)
next
  case (wd_next s s')
  with wd_step_pool [OF wd_next.hyps(2)] show ?case by (metis p_next)
qed


definition wd_inv :: "'q daemon \<Rightarrow> bool" where
  "wd_inv s \<longleftrightarrow>
     w_phase (d_main s) (d_pool s) \<and>
     (d_closed_queue s \<longrightarrow> d_main s \<in> {ClosingBus, ClosingStore, Returned}) \<and>
     (d_closed_bus s \<longrightarrow> d_main s \<in> {ClosingStore, Returned}) \<and>
     (d_exit s \<noteq> None \<longrightarrow> d_exit s = Some 0 \<and> d_main s = Returned)"

lemma wm_step_inv: "wm_step Q s s' \<Longrightarrow> d_exit s = None \<Longrightarrow> wd_inv s \<Longrightarrow> wd_inv s'"
proof (induction rule: wm_step.induct)
  case (WmStart s p)
  with start_step_phase [of "d_pool s" p] show ?case by (simp add: wd_inv_def w_phase_def)
next
  case (WmStarting s p)
  with start_step_phase [of "d_pool s" p] show ?case by (simp add: wd_inv_def w_phase_def)
next
  case (WmStop s p)
  with stop_step_phase [of "d_pool s" p] show ?case by (simp add: wd_inv_def w_phase_def)
next
  case (WmStopping s p)
  with stop_step_phase [of "d_pool s" p] show ?case by (simp add: wd_inv_def w_phase_def)
next
  case (WmCloseQueue s)
  with phase_view(4) [of "d_pool (close_queue Q s)" "d_pool s"] show ?case by (simp add: wd_inv_def w_phase_def)
qed (simp_all add: wd_inv_def w_phase_def phase_defs cancel_ctx_def)

lemma wd_reach_inv: "wd_reach Q cfg s \<Longrightarrow> wd_inv s"
proof (induction rule: wd_reach.induct)
  case wd_start
  show ?case
    by (simp add: wd_inv_def daemon_init_def w_phase_def phase_defs psys_init_def NewWorkerPool_def)
next
  case (wd_next s s')
  from wd_next.hyps(2) show ?case
  proof (cases rule: wd_step.cases)
    case (WdWorker p)
    with wd_next.IH w_step_phases(1) [OF _ p_reach_inv [OF wd_reach_pool [OF wd_next.hyps(1)]]] show ?thesis
      by (simp add: wd_inv_def)
  next
    case WdMain
    with wd_next.IH show ?thesis by (blast intro: wm_step_inv)
  next
    case (WdOthers q)
    with wd_next.IH show ?thesis by (simp add: wd_inv_def phases_view(1) [OF view_queue])
  qed
qed













section \<open>Reaching the end\<close>

definition can_exit :: "('q daemon \<Rightarrow> 'q daemon \<Rightarrow> bool) \<Rightarrow> 'q daemon \<Rightarrow> bool" where
  "can_exit R s \<longleftrightarrow> (\<exists>s'. R\<^sup>*\<^sup>* s s' \<and> d_exit s' = Some 0)"

lemma can_exit_now: "R s s' \<Longrightarrow> d_exit s' = Some 0 \<Longrightarrow> can_exit R s"
  by (auto simp: can_exit_def)

lemma can_exit_step: "R s s' \<Longrightarrow> can_exit R s' \<Longrightarrow> can_exit R s"
  by (auto simp: can_exit_def intro: converse_rtranclp_into_rtranclp)

lemma can_exit_steps: "R\<^sup>*\<^sup>* s s' \<Longrightarrow> can_exit R s' \<Longrightarrow> can_exit R s"
  by (induction rule: converse_rtranclp_induct) (auto intro: can_exit_step)

text \<open>A relation on pools that a daemon can follow.\<close>

lemma follow:
  assumes "T\<^sup>*\<^sup>* p p'" and "d_pool s = p"
    and "\<And>s p'. d_main s = m \<Longrightarrow> d_exit s = None \<Longrightarrow> T (d_pool s) p' \<Longrightarrow> R s (s\<lparr>d_pool := p'\<rparr>)"
    and "d_main s = m" "d_exit s = None"
  shows "R\<^sup>*\<^sup>* s (s\<lparr>d_pool := p'\<rparr>)"
  using assms(1)
proof (induction rule: rtranclp_induct)
  case base
  show ?case unfolding assms(2) [symmetric] by simp
next
  case (step y z)
  have "R (s\<lparr>d_pool := y\<rparr>) (s\<lparr>d_pool := y\<rparr>\<lparr>d_pool := z\<rparr>)"
    by (rule assms(3)) (use assms(4,5) step.hyps(2) in simp_all)
  with step.IH show ?case by simp
qed

definition starting_step :: "'q psys \<Rightarrow> 'q psys \<Rightarrow> bool" where
  "starting_step p p' \<longleftrightarrow> ps_owner p \<noteq> Outside \<and> start_step p p'"

lemma start_finishes:
  assumes "pool_starting p"
  shows "\<exists>p'. starting_step\<^sup>*\<^sup>* p p' \<and> pool_up p'"
proof (cases "ps_owner p = Outside")
  case True
  then show ?thesis using assms by (auto simp: phase_defs)
next
  case False
  then obtain i where "ps_owner p = Spawning i" using assms by (auto simp: phase_defs)
  then show ?thesis using assms
  proof (induction "nat (pc_Concurrency (wp_cfg (ps_pool p)) - i)" arbitrary: p i rule: less_induct)
    case less
    show ?case
    proof (cases "i < pc_Concurrency (wp_cfg (ps_pool p))")
      case True
      note sp = Spawn [OF less.prems(1) True]
      let ?p = "p\<lparr>ps_pool := (ps_pool p)\<lparr>wp_wg := wp_wg (ps_pool p) + 1\<rparr>, ps_owner := Spawning (i + 1),
        ps_workers := ps_workers p @ [Selecting]\<rparr>"
      have "\<exists>p'. starting_step\<^sup>*\<^sup>* ?p p' \<and> pool_up p'"
        by (rule less.hyps [of _ "i + 1"]) (use True less.prems start_step_phase(2) [OF sp] in simp_all)
      moreover have "starting_step p ?p" using sp less.prems(1) by (simp add: starting_step_def)
      ultimately show ?thesis by (meson converse_rtranclp_into_rtranclp)
    next
      case False
      let ?p = "p\<lparr>ps_owner := Outside\<rparr>"
      have "starting_step p ?p"
        using StartReturns [OF less.prems(1) False] less.prems(1) by (simp add: starting_step_def)
      moreover have "pool_up ?p" using less.prems(2) by (simp add: phase_defs)
      ultimately show ?thesis by blast
    qed
  qed
qed

definition stopping_step :: "'q queue_sys \<Rightarrow> 'q psys \<Rightarrow> 'q psys \<Rightarrow> bool" where
  "stopping_step Q p p' \<longleftrightarrow> w_step Q p p' \<or> ps_owner p = Waiting \<and> stop_step p p'"

lemma w_steps_stopping: "(w_step Q)\<^sup>*\<^sup>* p p' \<Longrightarrow> (stopping_step Q)\<^sup>*\<^sup>* p p'"
  by (rule mono_rtranclp [rule_format]) (simp_all add: stopping_step_def)

lemma stop_finishes:
  assumes "pool_stopping p" and "p_reach Q cfg p" and ret: "polls_return Q"
  shows "\<exists>p'. (stopping_step Q)\<^sup>*\<^sup>* p p' \<and> pool_down p'"
proof (cases "ps_owner p = Outside")
  case True
  then show ?thesis using assms(1) by (auto simp: phase_defs)
next
  case False
  then have wait: "ps_owner p = Waiting" using assms(1) by (simp add: phase_defs)
  have "wp_stopped (ps_pool p)" using p_reach_inv [OF assms(2)] wait by (simp add: psys_inv_def)
  from w_steps_to_exit [OF ret this] obtain p1 where p1: "(w_step Q)\<^sup>*\<^sup>* p p1" "set (ps_workers p1) \<subseteq> {Gone}" by blast
  have wg: "wp_wg (ps_pool p1) = 0"
    using p_reach_inv [OF w_steps_reach [OF p1(1) assms(2)]] alive_none [of "ps_workers p1"] p1(2)
    by (simp add: psys_inv_def)
  have own: "ps_owner p1 = Waiting" using w_steps_owner [OF p1(1)] wait by simp
  have run: "wp_running (ps_pool p1) = wp_running (ps_pool p)"
    using p1(1) by (induction rule: rtranclp_induct) (simp_all add: w_step_frame)
  let ?p = "p1\<lparr>ps_owner := Outside\<rparr>"
  have "stopping_step Q p1 ?p" using StopReturns [OF own wg] own by (simp add: stopping_step_def)
  moreover have "pool_down ?p" using wg run assms(1) by (simp add: phase_defs)
  ultimately show ?thesis using w_steps_stopping [OF p1(1)] by (meson rtranclp.rtrancl_into_rtrancl)
qed

lemma start_begins:
  assumes "pool_new p" and "p_reach Q cfg p"
  obtains p' where "start_step p p'" "pool_starting p'" "p_reach Q cfg p'"
proof -
  from assms(1) have st: "start_step p (p\<lparr>ps_pool := (ps_pool p)\<lparr>wp_running := True\<rparr>, ps_owner := Spawning 0\<rparr>)"
    by (intro StartPool) (simp_all add: phase_defs)
  from that [OF st start_step_phase(1) [OF st assms(1)] p_next [OF assms(2) OwnerMoves [OF StartMoves [OF st]]]]
  show thesis .
qed

lemma stop_begins:
  assumes "pool_up p" and "p_reach Q cfg p"
  obtains p' where "stop_step p p'" "pool_stopping p'" "p_reach Q cfg p'"
proof -
  from assms(1) have st: "stop_step p (p\<lparr>ps_pool := (ps_pool p)\<lparr>wp_running := False, wp_stopped := True\<rparr>, ps_owner := Waiting\<rparr>)"
    by (intro StopPool) (simp_all add: phase_defs)
  from that [OF st stop_step_phase(1) [OF st assms(1)] p_next [OF assms(2) OwnerMoves [OF StopMoves [OF st]]]]
  show thesis .
qed

lemma starting_reach: "starting_step\<^sup>*\<^sup>* p p' \<Longrightarrow> p_reach Q cfg p \<Longrightarrow> p_reach Q cfg p'"
  by (induction rule: rtranclp_induct) (auto simp: starting_step_def intro: p_next OwnerMoves StartMoves)

lemmas wd_main = can_exit_step [where R = "wd_step Q", OF WdMain] for Q
lemmas wd_follow = follow [where R = "wd_step Q"] for Q

text \<open>The worker program, from its last action back to its first.\<close>

lemma wd_closes:
  assumes "d_exit s = None" and "d_main s \<in> {ClosingQueue, ClosingBus, ClosingStore, Returned}"
  shows "can_exit (wd_step Q) s"
proof -
  have 1: "can_exit (wd_step Q) s" if "d_main s = Returned" "d_exit s = None" for s
    by (rule can_exit_now [where R = "wd_step Q", OF WdMain [OF that(2) WmReturn [OF that(1)]]]) simp
  have 2: "can_exit (wd_step Q) s" if "d_main s = ClosingStore" "d_exit s = None" for s
    by (rule wd_main [OF that(2) WmCloseStore [OF that(1)]], rule 1) (simp_all add: that)
  have 3: "can_exit (wd_step Q) s" if "d_main s = ClosingBus" "d_exit s = None" for s
    by (rule wd_main [OF that(2) WmCloseBus [OF that(1)]], rule 2) (simp_all add: that)
  have 4: "can_exit (wd_step Q) s" if "d_main s = ClosingQueue" "d_exit s = None" for s
    by (rule wd_main [OF that(2) WmCloseQueue [OF that(1)]], rule 3) (simp_all add: that)
  show ?thesis using assms 1 2 3 4 by blast
qed

lemma wd_stops:
  assumes "d_exit s = None" and "d_main s = InStop" and "pool_stopping (d_pool s)" and "p_reach Q cfg (d_pool s)" and ret: "polls_return Q"
  shows "can_exit (wd_step Q) s"
proof -
  obtain p where p: "(stopping_step Q)\<^sup>*\<^sup>* (d_pool s) p" "pool_down p" using stop_finishes [OF assms(3,4) ret] by blast
  have "wd_step Q t (t\<lparr>d_pool := q\<rparr>)" if "d_main t = InStop" "d_exit t = None" "stopping_step Q (d_pool t) q" for t q
    using that by (auto simp: stopping_step_def intro: WdWorker WdMain WmStopping)
  note steps = wd_follow [where T = "stopping_step Q" and m = InStop, OF p(1) refl this assms(2,1)]
  have 1: "d_main (s\<lparr>d_pool := p\<rparr>) = InStop" "ps_owner (d_pool (s\<lparr>d_pool := p\<rparr>)) = Outside" "d_exit (s\<lparr>d_pool := p\<rparr>) = None"
    using assms p(2) by (simp_all add: phase_defs)
  have "can_exit (wd_step Q) (s\<lparr>d_pool := p\<rparr>)"
    by (rule wd_main [OF 1(3) WmStopped [OF 1(1,2)]], rule wd_closes) (use 1 in simp_all)
  with steps show ?thesis by (rule can_exit_steps)
qed

lemma wd_winds_down:
  assumes "d_exit s = None" and "d_main s \<in> {Awaiting, Cancelling, BeforeStop}" and "pool_up (d_pool s)"
    and "p_reach Q cfg (d_pool s)" and ret: "polls_return Q"
  shows "can_exit (wd_step Q) s"
proof -
  have 1: "can_exit (wd_step Q) s"
    if s: "d_main s = BeforeStop" "d_exit s = None" "pool_up (d_pool s)" "p_reach Q cfg (d_pool s)" for s
  proof -
    obtain p where p: "stop_step (d_pool s) p" "pool_stopping p" "p_reach Q cfg p" by (rule stop_begins [OF s(3,4)])
    from s p show ?thesis by (intro wd_main [OF s(2) WmStop [OF s(1) p(1)]] wd_stops [OF _ _ _ _ ret]) simp_all
  qed
  have 2: "can_exit (wd_step Q) s"
    if s: "d_main s = Cancelling" "d_exit s = None" "pool_up (d_pool s)" "p_reach Q cfg (d_pool s)" for s
    by (rule wd_main [OF s(2) WmCancel [OF s(1)]], rule 1)
      (use s phase_view(3) [OF view_cancel] in \<open>auto intro: p_next OwnerMoves CancelContext\<close>)
  have 3: "can_exit (wd_step Q) s"
    if s: "d_main s = Awaiting" "d_exit s = None" "pool_up (d_pool s)" "p_reach Q cfg (d_pool s)" for s
    by (rule wd_main [OF s(2) WmSignal [OF s(1)]], rule 2) (use s in simp_all)
  show ?thesis using assms 1 2 3 by blast
qed

lemma wd_can_exit:
  assumes "wd_reach Q cfg s" and "d_exit s = None" and ret: "polls_return Q"
  shows "can_exit (wd_step Q) s"
proof -
  have starts: "can_exit (wd_step Q) s"
    if s: "d_main s = InStart" "d_exit s = None" "pool_starting (d_pool s)" "p_reach Q cfg (d_pool s)" for s
  proof -
    obtain p where p: "starting_step\<^sup>*\<^sup>* (d_pool s) p" "pool_up p" using start_finishes [OF s(3)] by blast
    have "wd_step Q t (t\<lparr>d_pool := q\<rparr>)" if "d_main t = InStart" "d_exit t = None" "starting_step (d_pool t) q" for t q
      using that by (auto simp: starting_step_def intro: WdMain WmStarting)
    note steps = wd_follow [where T = starting_step and m = InStart, OF p(1) refl this s(1,2)]
    have 1: "d_main (s\<lparr>d_pool := p\<rparr>) = InStart" "ps_owner (d_pool (s\<lparr>d_pool := p\<rparr>)) = Outside" "d_exit (s\<lparr>d_pool := p\<rparr>) = None"
      using s p(2) by (simp_all add: phase_defs)
    have "can_exit (wd_step Q) (s\<lparr>d_pool := p\<rparr>)"
      by (rule wd_main [OF 1(3) WmStarted [OF 1(1,2)]], rule wd_winds_down [OF _ _ _ _ ret])
        (use s p starting_reach [OF p(1)] in simp_all)
    with steps show ?thesis by (rule can_exit_steps)
  qed
  have r: "p_reach Q cfg (d_pool s)" by (rule wd_reach_pool [OF assms(1)])
  have ph: "w_phase (d_main s) (d_pool s)" using wd_reach_inv [OF assms(1)] by (simp add: wd_inv_def)
  show ?thesis
  proof (cases "d_main s")
    case BeforeStart
    then obtain p where p: "start_step (d_pool s) p" "pool_starting p" "p_reach Q cfg p"
      using start_begins [OF _ r] ph by (auto simp: w_phase_def)
    with assms(2) show ?thesis by (intro wd_main [OF assms(2) WmStart [OF BeforeStart p(1)]] starts) simp_all
  qed (use assms(2) ph r starts wd_closes [of s Q] wd_stops [OF _ _ _ r ret] wd_winds_down [OF _ _ _ r ret] in
      \<open>simp_all add: w_phase_def\<close>)
qed








section \<open>Closing too early\<close>

text \<open>
  The gateway closes the bus while its workers run: with one worker and the in-memory queue, a state
  is reachable in which the bus is closed and the worker is inside of a job.  What that job
  publishes from there on reaches nobody.
\<close>

definition one_embedded :: api_flags where
  "one_embedded = api_flag_defaults\<lparr>af_workers := 1\<rparr>"

lemma one_embedded_pool: "embeds_pool one_embedded"
  by (simp add: embeds_pool_def one_embedded_def api_flag_defaults_def)


lemma wd_reach_steps: "(wd_step Q)\<^sup>*\<^sup>* s s' \<Longrightarrow> wd_reach Q cfg s \<Longrightarrow> wd_reach Q cfg s'"
  by (induction rule: rtranclp_induct) (blast intro: wd_next)+

lemma ad_main_reach:
  "ad_reach Q one_embedded s \<Longrightarrow> am_step Q True s s' \<Longrightarrow> d_exit s = None \<Longrightarrow> ad_reach Q one_embedded s'"
  using ad_next [of Q one_embedded s s'] AdMain [of s Q True s'] one_embedded_pool by simp

lemma embedded_started:
  obtains s where "ad_reach Q one_embedded s" "d_main s = Awaiting" "d_exit s = None" "d_listener s = Listening"
    "ps_workers (d_pool s) = [Selecting]" "\<not> wp_stopped (ps_pool (d_pool s))" "\<not> ps_cancelled (d_pool s)"
    "d_queue s = qy_init Q"
proof -
  let ?f = one_embedded
  define p0 where "p0 = psys_init Q (embedded_config ?f)"
  define p1 where "p1 = p0\<lparr>ps_pool := (ps_pool p0)\<lparr>wp_running := True\<rparr>, ps_owner := Spawning 0\<rparr>"
  define p2 where "p2 = p1\<lparr>ps_pool := (ps_pool p1)\<lparr>wp_wg := wp_wg (ps_pool p1) + 1\<rparr>, ps_owner := Spawning (0 + 1),
      ps_workers := ps_workers p1 @ [Selecting]\<rparr>"
  define p3 where "p3 = p2\<lparr>ps_owner := Outside\<rparr>"
  note conf = psys_init_def NewWorkerPool_def pool_config_def embedded_config_def one_embedded_def api_flag_defaults_def
  have 1: "start_step p0 p1" unfolding p1_def by (rule StartPool) (simp_all add: p0_def conf)
  have 2: "start_step p1 p2" unfolding p2_def by (rule Spawn) (simp_all add: p1_def p0_def conf)
  have 3: "start_step p2 p3"
    unfolding p3_def by (rule StartReturns [of _ "0 + 1"]) (simp_all add: p2_def p1_def p0_def conf)
  have own: "ps_owner p1 = Spawning 0" "ps_owner p2 = Spawning 1" "ps_owner p3 = Outside"
    by (simp_all add: p1_def p2_def p3_def)
  let ?s0 = "daemon_init Q (embedded_config ?f)"
  have s0: "d_pool ?s0 = p0" "d_main ?s0 = BeforeStart" "d_exit ?s0 = None" by (simp_all add: daemon_init_def p0_def)
  let ?s1 = "?s0\<lparr>d_pool := p1, d_main := InStart\<rparr>"
  let ?s3 = "?s1\<lparr>d_pool := p2\<rparr>\<lparr>d_pool := p3\<rparr>"
  let ?s4 = "?s3\<lparr>d_listener := Listening, d_main := Awaiting\<rparr>"
  have a: "am_step Q True ?s0 ?s1" by (rule AmStart) (simp_all add: s0 1)
  have b: "am_step Q True ?s1 (?s1\<lparr>d_pool := p2\<rparr>)" by (rule AmStarting) (simp_all add: s0 own 2)
  have c: "am_step Q True (?s1\<lparr>d_pool := p2\<rparr>) ?s3" by (rule AmStarting) (simp_all add: s0 own 3)
  have d: "am_step Q True ?s3 ?s4" by (rule AmListen) (simp_all add: s0 own)
  have "ad_reach Q ?f ?s4"
    by (rule ad_main_reach [OF ad_main_reach [OF ad_main_reach [OF ad_main_reach [OF ad_start a] b] c] d])
      (simp_all add: s0)
  then show thesis by (rule that) (simp_all add: daemon_init_def p3_def p2_def p1_def p0_def conf)
qed

lemma embedded_working:
  obtains s where "ad_reach (memory_sys 1000) one_embedded s" "d_main s = Awaiting" "d_exit s = None"
    "ps_workers (d_pool s) = [Working blank_job]"
proof -
  let ?Q = "memory_sys 1000"
  obtain s where s: "ad_reach ?Q one_embedded s" "d_main s = Awaiting" "d_exit s = None" "d_listener s = Listening"
    "ps_workers (d_pool s) = [Selecting]" "\<not> wp_stopped (ps_pool (d_pool s))" "\<not> ps_cancelled (d_pool s)"
    "d_queue s = qy_init ?Q"
    by (rule embedded_started)
  then have "d_queue s = qsys_init 1000" by (simp add: memory_sys_def)
  from s(5-7) this obtain q1 q2 p3 p4 where p: "mem_produce (d_queue s) q1" "mem_produce q1 q2"
    "w_step ?Q ((d_pool s)\<lparr>ps_queue := q2\<rparr>) p3" "w_step ?Q p3 p4" "ps_workers p4 = [Took blank_job]"
    by (rule job_taken) simp_all
  obtain p5 where p5: "w_step ?Q p4 p5" "ps_workers p5 = [Counted blank_job]"
    by (rule that [OF CountActive [where k = 0 and j = blank_job]]) (simp_all add: p(5))
  obtain p6 where p6: "w_step ?Q p5 p6" "ps_workers p6 = [Working blank_job]"
    by (rule that [OF CountTotal [where k = 0 and j = blank_job]]) (simp_all add: p5(2))
  have handle: "ad_reach ?Q one_embedded (set_queue b t)"
    if "ad_reach ?Q one_embedded t" "mem_produce (d_queue t) b" "d_exit t = None" "d_listener t = Listening" for b t
    by (rule ad_next [OF that(1) AdHandler]) (use that in \<open>simp_all add: memory_sys_def\<close>)
  have work: "ad_reach ?Q one_embedded (s\<lparr>d_pool := b\<rparr>)"
    if "ad_reach ?Q one_embedded (s\<lparr>d_pool := a\<rparr>)" "w_step ?Q a b" for a b
    using ad_next [OF that(1) AdWorker, of b] that(2) s by simp
  have "ad_reach ?Q one_embedded (set_queue q2 (set_queue q1 s))"
    by (rule handle [OF handle [OF s(1)]]) (use p s in simp_all)
  then have "ad_reach ?Q one_embedded (s\<lparr>d_pool := (d_pool s)\<lparr>ps_queue := q2\<rparr>\<rparr>)" by simp
  from work [OF work [OF work [OF work [OF this p(3)] p(4)] p5(1)] p6(1)]
  have "ad_reach ?Q one_embedded (s\<lparr>d_pool := p6\<rparr>)" .
  then show thesis by (rule that) (simp_all add: s p6)
qed

lemma api_closes_early:
  "\<exists>s. ad_reach (memory_sys 1000) one_embedded s \<and> d_exit s = None \<and>
     ps_workers (d_pool s) = [Working blank_job] \<and> d_closed_bus s"
proof -
  let ?Q = "memory_sys 1000"
  obtain s where s: "ad_reach ?Q one_embedded s" "d_main s = Awaiting" "d_exit s = None"
    "ps_workers (d_pool s) = [Working blank_job]" by (rule embedded_working)
  let ?s1 = "s\<lparr>d_main := ShuttingDown\<rparr>\<lparr>d_main := ClosingQueue\<rparr>"
  let ?s2 = "(close_queue ?Q ?s1)\<lparr>d_main := ClosingBus\<rparr>"
  let ?s3 = "?s2\<lparr>d_closed_bus := True, d_main := ClosingStore\<rparr>"
  have 1: "ad_reach ?Q one_embedded ?s1"
    by (rule ad_main_reach [OF ad_main_reach [OF s(1) AmSignal [OF s(2)] s(3)] AmShutdown]) (simp_all add: s)
  have "ad_reach ?Q one_embedded ?s3"
    by (rule ad_main_reach [OF ad_main_reach [OF 1 AmCloseQueue] AmCloseBus]) (simp_all add: s)
  then show ?thesis using s by (intro exI [of _ ?s3]) simp
qed

lemma closed_bus_drops: "mb_closed m \<Longrightarrow> publish_step sid ev m = (None, m)"
  by (simp add: publish_step_def)

section \<open>Properties\<close>

text \<open>
  C32.  The worker program shuts down in order, with the queue in memory or on Redis.  Whatever its
  goroutines and other programs do, when it has closed the queue or the bus or has ended, no worker
  is left and every job taken from the queue was processed to its end, so no event of a job meets a
  closed bus; it ends with no other exit code than 0, and from every state of a run that has not
  ended, an end is within reach.
\<close>

theorem worker_daemon_orderly:
  assumes "polls_return Q" and "wd_reach Q cfg s"
  shows "(d_closed_queue s \<or> d_closed_bus s \<or> d_exit s \<noteq> None \<longrightarrow> pool_idle (d_pool s)) \<and>
    d_exit s \<in> {None, Some 0} \<and>
    (d_exit s = None \<longrightarrow> (\<exists>s'. (wd_step Q)\<^sup>*\<^sup>* s s' \<and> d_exit s' = Some 0))"
proof -
  note i = wd_reach_inv [OF assms(2), unfolded wd_inv_def]
  have "pool_idle (d_pool s)" if "d_closed_queue s \<or> d_closed_bus s \<or> d_exit s \<noteq> None"
  proof -
    have "d_main s \<in> {ClosingBus, ClosingStore, Returned}" using that i by blast
    then have "pool_down (d_pool s)" using i by (auto simp: w_phase_def)
    then show ?thesis
      using psys_inv_idle [OF p_reach_inv [OF wd_reach_pool [OF assms(2)]]] by (simp add: phase_defs)
  qed
  with i wd_can_exit [OF assms(2) _ assms(1)] show ?thesis by (auto simp: can_exit_def)
qed

theorem worker_daemon_orderly_witness:
  "\<exists>s. wd_reach (memory_sys 1000) one_worker s \<and> d_exit s = Some 0 \<and> pool_idle (d_pool s)"
proof -
  let ?Q = "memory_sys 1000"
  have "d_exit (daemon_init ?Q one_worker) = None" by (simp add: daemon_init_def)
  then obtain s where s: "(wd_step ?Q)\<^sup>*\<^sup>* (daemon_init ?Q one_worker) s" "d_exit s = Some 0"
    using worker_daemon_orderly [OF polls_return_memory wd_start [of ?Q one_worker]] by blast
  have r: "wd_reach ?Q one_worker s" by (rule wd_reach_steps [OF s(1) wd_start])
  from worker_daemon_orderly [OF polls_return_memory r] s r show ?thesis by auto
qed



end
