(* ===== verification/Websocket_Session.thy ===== *)
theory Websocket_Session
  imports Websocket_Stream
begin

text \<open>
  A whole run of the WebSocket handler, from the request to the closed connection, interleaved with
  everything else that happens on the in-memory services: events are published for any submission,
  other clients subscribe and leave, and workers save states, between any two moves of the handler.
  The moves are the calls of \<open>HandleWebSocket\<close>, which is the run in which nobody else moves.
\<close>

section \<open>Moves of the handler\<close>

text \<open>
  Where the handler is: at its beginning, after the upgrade, before its subscription, in its loop, in the
  deferred \<^verbatim>\<open>unsubscribe\<close>, in the deferred \<^verbatim>\<open>conn.Close\<close>, at its end.
\<close>

datatype ws_pc =
    Routing
  | Upgraded string
  | Subscribing string
  | Looping string nat
  | Unsubscribing string nat
  | Closing ws_result
  | Finished ws_result

inductive hs_step ::
  "('z world_scheme) Server \<Rightarrow> host \<Rightarrow> ExecutionEvent codec \<Rightarrow> http_request \<Rightarrow> http_response \<Rightarrow>
   ws_pc \<times> 'z world_scheme \<Rightarrow> ws_pc \<times> 'z world_scheme \<Rightarrow> bool"
  for s h json r resp where
  HsRefuse: "ws_submission (rq_Path r) = None \<Longrightarrow>
    hs_step s h json r resp (Routing, w) (Finished (WsRefused (http_Error ''invalid websocket route'' 400 resp)), w)"
| HsUpgrade: "ws_submission (rq_Path r) = Some sid \<Longrightarrow> run_state (io_err h WsUpgrade) w = (e, w') \<Longrightarrow>
    hs_step s h json r resp (Routing, w) (if e \<noteq> None then Finished WsNotUpgraded else Upgraded sid, w')"
| HsReport: "run_state (st_GetState (sv_stateStore s) sid) w = (Inr state, w1) \<Longrightarrow> is_final (ss_Status state) \<Longrightarrow>
    run_state (State_Monad.bind (io_now h) (\<lambda>t. ws_WriteJSON (case cd_Marshal json (final_event state t) of
       Inl err \<Rightarrow> Inl err | Inr data \<Rightarrow> Inr (data @ [CHR 0x0A])))) w1 = (u, w') \<Longrightarrow>
    hs_step s h json r resp (Upgraded sid, w) (Closing WsEnded, w')"
| HsFollow: "run_state (st_GetState (sv_stateStore s) sid) w = (g, w') \<Longrightarrow>
    (\<forall>state. g = Inr state \<longrightarrow> \<not> is_final (ss_Status state)) \<Longrightarrow>
    hs_step s h json r resp (Upgraded sid, w) (Subscribing sid, w')"
| HsSubscribe: "run_state (eb_Subscribe (sv_eventBus s) sid) w = (Inr c, w') \<Longrightarrow>
    hs_step s h json r resp (Subscribing sid, w) (Looping sid c, w')"
| HsNotSubscribed: "run_state (eb_Subscribe (sv_eventBus s) sid) w = (Inl err, w1) \<Longrightarrow>
    run_state (ws_WriteJSON (Inr (json_compact (JObject [(''error'', JString ''failed to subscribe to event bus'')]) @
      [CHR 0x0A]))) w1 = (u, w') \<Longrightarrow>
    hs_step s h json r resp (Subscribing sid, w) (Closing WsEnded, w')"
| HsTurn: "run_state (ws_turn s h json c) w = (go, w') \<Longrightarrow>
    hs_step s h json r resp (Looping sid c, w) (if go then Looping sid c else Unsubscribing sid c, w')"
| HsUnsubscribe: "run_state (eb_Cancel (sv_eventBus s) sid c) w = (e, w') \<Longrightarrow>
    hs_step s h json r resp (Unsubscribing sid c, w)
      (Closing (case e of Some err \<Rightarrow> WsPanicked err | None \<Rightarrow> WsEnded), w')"
| HsClose: "hs_step s h json r resp (Closing res, w) (Finished res, w\<lparr>w_trace := w_trace w @ [WsClose]\<rparr>)"

inductive_cases hs_routing: "hs_step s h json r resp (Routing, w) (pc', w')"
inductive_cases hs_upgraded: "hs_step s h json r resp (Upgraded sid, w) (pc', w')"
inductive_cases hs_subscribing: "hs_step s h json r resp (Subscribing sid, w) (pc', w')"
inductive_cases hs_looping: "hs_step s h json r resp (Looping sid c, w) (pc', w')"
inductive_cases hs_unsubscribing: "hs_step s h json r resp (Unsubscribing sid c, w) (pc', w')"
inductive_cases hs_closing: "hs_step s h json r resp (Closing res, w) (pc', w')"
inductive_cases hs_finished: "hs_step s h json r resp (Finished res, w) (pc', w')"

section \<open>The handler alone\<close>

lemma loop_moves:
  "run_state (ws_loop n s h json c) w = (False, w') \<Longrightarrow>
    (hs_step s h json r resp)\<^sup>*\<^sup>* (Looping sid c, w) (Unsubscribing sid c, w')"
proof (induction n arbitrary: w)
  case (Suc n)
  obtain go w1 where 1: "run_state (ws_turn s h json c) w = (go, w1)" by force
  from HsTurn [OF 1] have "hs_step s h json r resp (Looping sid c, w)
      (if go then Looping sid c else Unsubscribing sid c, w1)" .
  moreover have "go \<Longrightarrow> run_state (ws_loop n s h json c) w1 = (False, w')" "\<not> go \<Longrightarrow> w1 = w'"
    using Suc.prems 1 by simp_all
  ultimately show ?case
    using Suc.IH [of w1] by (cases go) (auto intro: converse_rtranclp_into_rtranclp)
qed simp

lemma stream_moves:
  assumes "run_state (ws_stream n s h json sid) w = (res, w')" and "\<And>c. res \<noteq> WsStreaming c"
  shows "(hs_step s h json r resp)\<^sup>*\<^sup>* (Subscribing sid, w) (Finished res, w')"
proof -
  let ?R = "hs_step s h json r resp"
  obtain sub w1 where 1: "run_state (eb_Subscribe (sv_eventBus s) sid) w = (sub, w1)" by force
  show ?thesis
  proof (cases sub)
    case (Inl err)
    let ?msg = "ws_WriteJSON (Inr (json_compact (JObject [(''error'', JString ''failed to subscribe to event bus'')]) @
      [CHR 0x0A])) :: ('a world_scheme, unit) state"
    obtain u w2 where 2: "run_state ?msg w1 = (u, w2)" by (metis prod.exhaust)
    have "res = WsEnded" "w' = w2\<lparr>w_trace := w_trace w2 @ [WsClose]\<rparr>"
      using assms(1) 1 2 Inl by (auto simp: ws_stream_def)
    then have "?R (Subscribing sid, w) (Closing WsEnded, w2)" "?R (Closing WsEnded, w2) (Finished res, w')"
      using HsNotSubscribed [of s sid w err w1 u w2] 1 2 Inl HsClose [of s h json r resp WsEnded w2] by simp_all
    then show ?thesis by (meson r_into_rtranclp rtranclp.rtrancl_into_rtrancl)
  next
    case (Inr c)
    obtain go w2 where 2: "run_state (ws_loop n s h json c) w1 = (go, w2)" by force
    obtain e w3 where 3: "run_state (eb_Cancel (sv_eventBus s) sid c) w2 = (e, w3)" by force
    have r: "\<not> go" "res = (case e of Some err \<Rightarrow> WsPanicked err | None \<Rightarrow> WsEnded)"
        "w' = w3\<lparr>w_trace := w_trace w3 @ [WsClose]\<rparr>"
      using assms 1 2 3 Inr by (auto simp: ws_stream_def split: if_splits)
    have "?R (Subscribing sid, w) (Looping sid c, w1)" using HsSubscribe 1 Inr by blast
    moreover have "?R\<^sup>*\<^sup>* (Looping sid c, w1) (Unsubscribing sid c, w2)" using 2 r(1) by (intro loop_moves) simp
    moreover have "?R (Unsubscribing sid c, w2) (Closing res, w3)" using HsUnsubscribe [OF 3] r(2) by simp
    moreover have "?R (Closing res, w3) (Finished res, w')" using HsClose r(3) by simp
    ultimately show ?thesis
      by (meson converse_rtranclp_into_rtranclp rtranclp.rtrancl_into_rtrancl)
  qed
qed

lemma handler_moves:
  assumes "run_state (HandleWebSocket n s h json r resp) w = (res, w')" and "\<And>c. res \<noteq> WsStreaming c"
  shows "(hs_step s h json r resp)\<^sup>*\<^sup>* (Routing, w) (Finished res, w')"
proof -
  let ?R = "hs_step s h json r resp"
  show ?thesis
  proof (cases "ws_submission (rq_Path r)")
    case None
    with assms(1) HsRefuse [OF None, of s h json resp w] show ?thesis by (simp add: HandleWebSocket_def)
  next
    case (Some sid)
    obtain e w1 where 1: "run_state (io_err h WsUpgrade) w = (e, w1)" by force
    note up = HsUpgrade [OF Some 1, of s json resp]
    show ?thesis
    proof (cases "e = None")
      case False
      with assms(1) Some 1 up show ?thesis by (auto simp: HandleWebSocket_def)
    next
      case True
      obtain g w2 where 2: "run_state (st_GetState (sv_stateStore s) sid) w1 = (g, w2)" by force
      have "?R\<^sup>*\<^sup>* (Upgraded sid, w1) (Finished res, w')"
      proof (cases "\<exists>state. g = Inr state \<and> is_final (ss_Status state)")
        case True
        then obtain state where g: "g = Inr state" "is_final (ss_Status state)" by blast
        let ?m = "State_Monad.bind (io_now h) (\<lambda>t. ws_WriteJSON (case cd_Marshal json (final_event state t) of
          Inl err \<Rightarrow> Inl err | Inr data \<Rightarrow> Inr (data @ [CHR 0x0A]))) :: ('a world_scheme, unit) state"
        obtain u w3 where 3: "run_state ?m w2 = (u, w3)" by (metis prod.exhaust)
        have "res = WsEnded" "w' = w3\<lparr>w_trace := w_trace w3 @ [WsClose]\<rparr>"
          using assms(1) Some 1 \<open>e = None\<close> 2 g 3 by (auto simp: HandleWebSocket_def split: prod.splits)
        then have "?R (Upgraded sid, w1) (Closing WsEnded, w3)" "?R (Closing WsEnded, w3) (Finished res, w')"
          using HsReport [OF 2 [unfolded g(1)] g(2) 3] HsClose [of s h json r resp WsEnded w3] by simp_all
        then show ?thesis by (meson r_into_rtranclp rtranclp.rtrancl_into_rtrancl)
      next
        case False
        then have "run_state (ws_stream n s h json sid) w2 = (res, w')"
          using assms(1) Some 1 \<open>e = None\<close> 2 by (auto simp: HandleWebSocket_def split: sum.splits if_splits)
        from stream_moves [OF this assms(2)] HsFollow [OF 2] False show ?thesis
          by (meson converse_rtranclp_into_rtranclp)
      qed
      with up True show ?thesis by (auto intro: converse_rtranclp_into_rtranclp)
    qed
  qed
qed

section \<open>The handler among others\<close>

text \<open>
  \<open>oth k\<close> are the channels that others have subscribed to submission \<open>k\<close>: those registered at the
  beginning, and what the others' calls make of them.
\<close>

inductive ws_session ::
  "('z mem_world_scheme) Server \<Rightarrow> host \<Rightarrow> ExecutionEvent codec \<Rightarrow> http_request \<Rightarrow> http_response \<Rightarrow>
   'z mem_world_scheme \<Rightarrow> ws_pc \<Rightarrow> 'z mem_world_scheme \<Rightarrow> (string \<Rightarrow> nat list) \<Rightarrow> bool"
  for s h json r resp w0 where
  SessStart: "ws_session s h json r resp w0 Routing w0 (\<lambda>k. subs_of k (w_bus w0))"
| SessHandler: "ws_session s h json r resp w0 pc w oth \<Longrightarrow> hs_step s h json r resp (pc, w) (pc', w') \<Longrightarrow>
    ws_session s h json r resp w0 pc' w' oth"
| SessPublish: "ws_session s h json r resp w0 pc w oth \<Longrightarrow>
    ws_session s h json r resp w0 pc (w\<lparr>w_bus := snd (publish_step k ev (w_bus w))\<rparr>) oth"
| SessSubscribe: "ws_session s h json r resp w0 pc w oth \<Longrightarrow>
    ws_session s h json r resp w0 pc (w\<lparr>w_bus := snd (subscribe_step k (w_bus w))\<rparr>)
      (oth(k := oth k @ [mb_next (w_bus w)]))"
| SessLeave: "ws_session s h json r resp w0 pc w oth \<Longrightarrow> d \<in> set (oth k) \<Longrightarrow>
    ws_session s h json r resp w0 pc (w\<lparr>w_bus := snd (cleanup_step k d (w_bus w))\<rparr>)
      (oth(k := filter (\<lambda>e. e \<noteq> d) (oth k)))"
| SessSave: "ws_session s h json r resp w0 pc w oth \<Longrightarrow> ws_session s h json r resp w0 pc (w\<lparr>w_store := st\<rparr>) oth"

section \<open>Invariant\<close>

text \<open>The bus with the handler's own channel taken out is what the others have made of it.\<close>

definition own_chan :: "ws_pc \<Rightarrow> (string \<times> nat) option" where
  "own_chan pc = (case pc of Looping sid c \<Rightarrow> Some (sid, c) | Unsubscribing sid c \<Rightarrow> Some (sid, c) | _ \<Rightarrow> None)"

definition without :: "(string \<times> nat) option \<Rightarrow> nat list \<Rightarrow> nat list" where
  "without own xs = filter (\<lambda>d. \<forall>sid. own \<noteq> Some (sid, d)) xs"

lemma without_simps [simp]:
  "without None xs = xs" "without (Some (sid, c)) xs = filter (\<lambda>d. d \<noteq> c) xs"
  "without own (xs @ ys) = without own xs @ without own ys" "set (without own xs) \<subseteq> set xs"
  by (auto simp: without_def intro: filter_cong)

lemma without_filter: "without own (filter P xs) = filter P (without own xs)"
  by (simp add: without_def conj_commute)

definition bus_shared :: "(string \<times> nat) option \<Rightarrow> MemoryEventBus \<Rightarrow> (string \<Rightarrow> nat list) \<Rightarrow> bool" where
  "bus_shared own m oth \<longleftrightarrow> mb_ok m \<and> \<not> mb_closed m \<and>
     (\<forall>sid c. own = Some (sid, c) \<longrightarrow> c \<in> set (subs_of sid m)) \<and> (\<forall>k. without own (subs_of k m) = oth k)"

lemma bus_sharedD:
  assumes "bus_shared own m oth"
  shows "mb_ok m" "\<not> mb_closed m" "own = Some (sid, c) \<Longrightarrow> c \<in> set (subs_of sid m)"
    "oth k = without own (subs_of k m)" "d \<in> set (oth k) \<Longrightarrow> d \<in> set (subs_of k m)"
    "d \<in> set (oth k) \<Longrightarrow> own \<noteq> Some (sid, d)"
proof -
  have o: "oth k = without own (subs_of k m)" for k using assms by (simp add: bus_shared_def)
  show "mb_ok m" "\<not> mb_closed m" "own = Some (sid, c) \<Longrightarrow> c \<in> set (subs_of sid m)"
    using assms by (simp_all add: bus_shared_def)
  show "oth k = without own (subs_of k m)" "d \<in> set (oth k) \<Longrightarrow> d \<in> set (subs_of k m)"
    "d \<in> set (oth k) \<Longrightarrow> own \<noteq> Some (sid, d)"
    unfolding o by (auto simp: without_def)
qed

lemma bus_shared_heap:
  assumes "bus_shared own m oth" and "mb_ok m'" and "\<And>k. subs_of k m' = subs_of k m" and "mb_closed m' = mb_closed m"
  shows "bus_shared own m' oth"
  using assms by (simp add: bus_shared_def)

lemma bus_shared_publish:
  assumes "bus_shared own m oth" shows "bus_shared own (snd (publish_step k ev m)) oth"
  using assms mb_ok_publish [OF bus_sharedD(1) [OF assms]]
  by (rule bus_shared_heap) (simp_all add: publish_step_ok [OF bus_sharedD(1) [OF assms]] bus_sharedD(2) [OF assms])

lemma bus_shared_subscribe:
  assumes "bus_shared own m oth"
  shows "bus_shared own (snd (subscribe_step k m)) (oth(k := oth k @ [mb_next m]))"
proof -
  note b = bus_sharedD [OF assms]
  have fresh: "mb_next m \<notin> set (subs_of j m)" for j
    using mb_okD(3) [OF b(1)] by (auto simp: live_chan_def)
  then have "without own [mb_next m] = [mb_next m]" using b(3) by (auto simp: without_def)
  then have "without own (subs_of j (snd (subscribe_step k m))) = (oth(k := oth k @ [mb_next m])) j" for j
    by (simp add: b(4))
  moreover have "c \<in> set (subs_of sid (snd (subscribe_step k m)))" if "own = Some (sid, c)" for sid c
    using b(3) [OF that] by auto
  ultimately show ?thesis
    using mb_ok_subscribe [OF b(1), of k] b(2) unfolding bus_shared_def by simp
qed

lemma cleanup_registered:
  assumes "mb_ok m" and "d \<in> set (subs_of k m)"
  shows "fst (cleanup_step k d m) = None" and "mb_ok (snd (cleanup_step k d m))"
    and "subs_of j (snd (cleanup_step k d m)) = filter (\<lambda>e. e \<noteq> d) (subs_of j m)"
    and "mb_closed (snd (cleanup_step k d m)) = mb_closed m"
proof -
  have live: "d \<notin> set (mb_once m)" "\<not> ch_closed (mb_heap m d)" "d < mb_next m"
    using mb_okD(3) [OF assms] by (simp_all add: live_chan_def)
  have other: "d \<notin> set (subs_of j m)" if "j \<noteq> k" for j using mb_okD(4) [OF assms(1,2), of j] that by blast
  then have "owns k d m" using live(3) by (simp add: owns_def)
  then show "mb_ok (snd (cleanup_step k d m))" by (rule mb_ok_cleanup [OF assms(1)])
  show "fst (cleanup_step k d m) = None" "mb_closed (snd (cleanup_step k d m)) = mb_closed m"
    using cleanup_step_cases(5,6) [OF live(1)] live(2) by simp_all
  have "filter (\<lambda>e. e \<noteq> d) (subs_of j m) = subs_of j m" if "j \<noteq> k"
    using other [OF that] by (auto simp: filter_id_conv)
  then show "subs_of j (snd (cleanup_step k d m)) = filter (\<lambda>e. e \<noteq> d) (subs_of j m)"
    using cleanup_step_cases(1) [OF live(1), of j k] by simp
qed

lemma filter_other: "d \<notin> set xs \<Longrightarrow> filter (\<lambda>e. e \<noteq> d) xs = xs"
  by (auto simp: filter_id_conv)

lemma bus_shared_leave:
  assumes "bus_shared own m oth" and "d \<in> set (oth k)"
  shows "bus_shared own (snd (cleanup_step k d m)) (oth(k := filter (\<lambda>e. e \<noteq> d) (oth k)))"
proof -
  note b = bus_sharedD [OF assms(1)]
  have d: "d \<in> set (subs_of k m)" "\<And>sid. own \<noteq> Some (sid, d)" using b(5,6) assms(2) by blast+
  note c = cleanup_registered [OF b(1) d(1)]
  have "d \<notin> set (oth j)" if "j \<noteq> k" for j using mb_okD(4) [OF b(1) d(1), of j] that b(5) by blast
  then have "without own (filter (\<lambda>e. e \<noteq> d) (subs_of j m)) = (oth(k := filter (\<lambda>e. e \<noteq> d) (oth k))) j" for j
    by (simp add: without_filter b(4) [symmetric] filter_other)
  with b(2,3) c d(2) show ?thesis unfolding bus_shared_def by auto
qed

definition session_inv :: "ws_pc \<Rightarrow> 'z mem_world_scheme \<Rightarrow> (string \<Rightarrow> nat list) \<Rightarrow> bool" where
  "session_inv pc w oth \<longleftrightarrow> bus_shared (own_chan pc) (w_bus w) oth \<and>
     (\<forall>res. pc = Closing res \<longrightarrow> res = WsEnded) \<and>
     (\<forall>res. pc = Finished res \<longrightarrow> (\<forall>e. res \<noteq> WsPanicked e) \<and> (res = WsEnded \<longrightarrow> last (w_trace w) = WsClose))"

lemma session_inv_keep:
  assumes "session_inv pc w oth" and "bus_shared (own_chan pc) (w_bus w') oth'" and "w_trace w' = w_trace w"
  shows "session_inv pc w' oth'"
  using assms by (simp add: session_inv_def)

lemma ws_turn_shared:
  assumes "sv_recv s = mb_recv" and "bus_shared (Some (sid, c)) (w_bus w) oth"
    and "run_state (ws_turn s h json c) w = (go, w')"
  shows "bus_shared (Some (sid, c)) (w_bus w') oth"
proof -
  have sub: "mb_subscribed sid c (w_bus w)"
    using bus_sharedD(1-3) [OF assms(2)] by (simp add: mb_subscribed_def)
  from assms(1) sub assms(3) show ?thesis
  proof (cases rule: ws_turn_run)
    case (quiet ops)
    with assms(2) show ?thesis by simp
  next
    case (event ev rest ops)
    with mb_subscribedD(1) [OF mb_subscribed_drain [OF sub, of ev rest]] assms(2)
    show ?thesis by (auto simp: mb_seen_def intro: bus_shared_heap)
  qed
qed

lemma handler_keeps:
  assumes i: "session_inv pc w oth" and st: "hs_step (memory_server h cfg) h json r resp (pc, w) (pc', w')"
  shows "session_inv pc' w' oth"
proof -
  have b: "bus_shared (own_chan pc) (w_bus w) oth" using i by (simp add: session_inv_def)
  show ?thesis
  proof (cases pc)
    case Routing
    with st b show ?thesis by (auto elim!: hs_routing simp: session_inv_def own_chan_def split: if_splits)
  next
    case (Upgraded sid)
    with st b show ?thesis
      by (auto elim!: hs_upgraded simp: session_inv_def own_chan_def MemoryStore_ops_def ms_GetState_def ws_WriteJSON_def
          split: option.splits sum.splits)
  next
    case (Subscribing sid)
    let ?m = "snd (subscribe_step sid (w_bus w))"
    have "bus_shared (Some (sid, mb_next (w_bus w))) ?m oth"
    proof -
      note d = bus_sharedD [OF b]
      have "mb_next (w_bus w) \<notin> set (subs_of k (w_bus w))" for k
        using mb_okD(3) [OF d(1)] by (auto simp: live_chan_def)
      then show ?thesis
        using mb_ok_subscribe [OF d(1), of sid] d(2,4) Subscribing
        by (auto simp: bus_shared_def own_chan_def filter_other)
    qed
    with st Subscribing show ?thesis
      by (auto elim!: hs_subscribing simp: session_inv_def own_chan_def MemoryEventBus_ops_def mb_Subscribe_def
          subscribe_step_def Let_def)
  next
    case (Looping sid c)
    with st b ws_turn_shared [of "memory_server h cfg" sid c w oth h json] show ?thesis
      by (auto elim!: hs_looping simp: session_inv_def own_chan_def split: if_splits)
  next
    case (Unsubscribing sid c)
    then have "bus_shared (Some (sid, c)) (w_bus w) oth" using b by (simp add: own_chan_def)
    note b' = bus_sharedD [OF this]
    have d: "mb_ok (w_bus w)" "c \<in> set (subs_of sid (w_bus w))" "\<not> mb_closed (w_bus w)"
        "\<And>k. oth k = filter (\<lambda>d. d \<noteq> c) (subs_of k (w_bus w))"
      using b'(1-3) by (simp_all add: b'(4))
    note c = cleanup_registered [OF d(1,2)]
    have "bus_shared None (snd (cleanup_step sid c (w_bus w))) oth" using c d by (simp add: bus_shared_def)
    with st Unsubscribing c(1) show ?thesis
      by (auto elim!: hs_unsubscribing simp: session_inv_def own_chan_def MemoryEventBus_ops_def mb_cleanup_def)
  next
    case (Closing res)
    with st i show ?thesis by (auto elim!: hs_closing simp: session_inv_def own_chan_def)
  next
    case (Finished res)
    with st show ?thesis by (auto elim: hs_finished)
  qed
qed

lemma session_reach_inv:
  assumes "ws_session (memory_server h cfg) h json r resp w0 pc w oth"
    and "mb_ok (w_bus w0)" and "\<not> mb_closed (w_bus w0)"
  shows "session_inv pc w oth"
  using assms(1)
proof (induction rule: ws_session.induct)
  case SessStart
  show ?case using assms(2,3) by (simp add: session_inv_def own_chan_def bus_shared_def)
next
  case (SessHandler pc w oth pc' w')
  then show ?case by (blast intro: handler_keeps)
next
  case (SessPublish pc w oth k ev)
  then show ?case
    by (intro session_inv_keep [OF SessPublish.IH]) (simp_all add: session_inv_def bus_shared_publish)
next
  case (SessSubscribe pc w oth k)
  then show ?case
    using bus_shared_subscribe [of "own_chan pc" "w_bus w" oth k]
    by (intro session_inv_keep [OF SessSubscribe.IH]) (simp_all add: session_inv_def fun_upd_def)
next
  case (SessLeave pc w oth d k)
  then show ?case
    using bus_shared_leave [of "own_chan pc" "w_bus w" oth d k]
    by (intro session_inv_keep [OF SessLeave.IH]) (simp_all add: session_inv_def fun_upd_def)
next
  case (SessSave pc w oth st)
  then show ?case by (intro session_inv_keep [OF SessSave.IH]) (simp_all add: session_inv_def)
qed

section \<open>The way out\<close>

lemma unsubscribing_ends:
  assumes "session_inv (Unsubscribing sid c) w oth"
  shows "\<exists>w'. (hs_step (memory_server h cfg) h json r resp)\<^sup>*\<^sup>* (Unsubscribing sid c, w) (Finished WsEnded, w')"
proof -
  let ?R = "hs_step (memory_server h cfg) h json r resp"
  obtain e w1 where 1: "run_state (eb_Cancel (sv_eventBus (memory_server h cfg)) sid c) w = (e, w1)" by force
  note st = HsUnsubscribe [OF 1, of h json r resp]
  from handler_keeps [OF assms st] have "(case e of Some err \<Rightarrow> WsPanicked err | None \<Rightarrow> WsEnded) = WsEnded"
    by (simp add: session_inv_def)
  with st HsClose [of "memory_server h cfg" h json r resp WsEnded w1]
  have "?R (Unsubscribing sid c, w) (Closing WsEnded, w1)"
    "?R (Closing WsEnded, w1) (Finished WsEnded, w1\<lparr>w_trace := w_trace w1 @ [WsClose]\<rparr>)" by simp_all
  then show ?thesis by (meson r_into_rtranclp rtranclp.rtrancl_into_rtrancl)
qed

text \<open>A pass that receives an event the client has to see as the last one ends the loop.\<close>

lemma final_event_ends:
  assumes i: "session_inv (Looping sid c) w oth" and ev: "mb_seen c w = ev # rest" "ends_stream json ev"
    and pick: "h_select h (w_trace w @ [CtxErr]) \<notin> {0, 1, 2}"
  shows "\<exists>w'. (hs_step (memory_server h cfg) h json r resp)\<^sup>*\<^sup>* (Looping sid c, w) (Finished WsEnded, w')"
proof -
  let ?s = "memory_server h cfg :: 'a mem_world_scheme Server"
  have sub: "mb_subscribed sid c (w_bus w)"
    using i bus_sharedD(1-3) [of "Some (sid, c)" "w_bus w" oth] by (simp add: session_inv_def own_chan_def mb_subscribed_def)
  obtain go w1 where 1: "run_state (ws_turn ?s h json c) w = (go, w1)" by force
  have "\<not> go"
    using 1 pick ev
    by (auto simp: ws_turn_def mb_recv_def recv_step_subscribed [OF sub] mb_seen_def ws_forward_def ends_stream_def
        split: sum.splits if_splits)
  with HsTurn [OF 1, of r resp sid] have st: "hs_step ?s h json r resp (Looping sid c, w) (Unsubscribing sid c, w1)" by simp
  from unsubscribing_ends [OF handler_keeps [OF i st]] st show ?thesis
    by (meson converse_rtranclp_into_rtranclp)
qed

lemma finished_reported:
  assumes "ms_lookup w sid = Some state" and "is_final (ss_Status state)"
    and "cd_Marshal json (final_event state (h_now h (w_trace w))) = Inr data"
  shows "(hs_step (memory_server h cfg) h json r resp)\<^sup>*\<^sup>* (Upgraded sid, w)
    (Finished WsEnded, w\<lparr>w_trace := w_trace w @ [Now, WsWriteJSON (data @ [CHR 0x0A]), WsClose]\<rparr>)"
proof -
  let ?s = "memory_server h cfg :: 'a mem_world_scheme Server" and ?R = "hs_step (memory_server h cfg) h json r resp"
  let ?w1 = "w\<lparr>w_trace := w_trace w @ [Now, WsWriteJSON (data @ [CHR 0x0A])]\<rparr>"
  have "run_state (st_GetState (sv_stateStore ?s) sid) w = (Inr state, w)"
    using assms(1) by (simp add: MemoryStore_ops_def ms_GetState_def ms_lookup_def)
  from HsReport [OF this assms(2), of h json "()" ?w1 r resp] assms(3)
  have "?R (Upgraded sid, w) (Closing WsEnded, ?w1)" by (simp add: ws_WriteJSON_def)
  moreover have "?R (Closing WsEnded, ?w1) (Finished WsEnded, w\<lparr>w_trace := w_trace w @ [Now, WsWriteJSON (data @ [CHR 0x0A]), WsClose]\<rparr>)"
    using HsClose [of ?s h json r resp WsEnded ?w1] by simp
  ultimately show ?thesis by (meson r_into_rtranclp rtranclp.rtrancl_into_rtrancl)
qed

section \<open>A session that streams\<close>

text \<open>A client of another submission, whose final event is published while its handler streams.\<close>

definition final_codec :: "ExecutionEvent codec" where
  "final_codec = one_codec (event_of ''sub-2'' StatusCompleted 1) ''F''"

definition ws_request :: http_request where
  "ws_request = \<lparr>rq_Method = ''GET'', rq_Path = ''/api/v1/submissions/sub-2/ws'', rq_Body = []\<rparr>"

lemma session_moves:
  assumes "ws_session s h json r resp w0 pc w oth" and "(hs_step s h json r resp)\<^sup>*\<^sup>* (pc, w) (pc', w')"
  shows "ws_session s h json r resp w0 pc' w' oth"
  using assms(2) by (induction rule: rtranclp_induct2) (auto intro: assms(1) SessHandler)

lemma session_streams:
  obtains w oth where "ws_session (memory_server eager_host \<lparr>cfg_Addr = [], cfg_MaxQueueDepth = 0\<rparr>) eager_host
      final_codec ws_request new_response sample_world (Looping ''sub-2'' 1) w oth"
    and "mb_seen 1 w = [event_of ''sub-2'' StatusCompleted 1]"
proof -
  let ?s = "memory_server eager_host \<lparr>cfg_Addr = [], cfg_MaxQueueDepth = 0\<rparr> :: mem_world Server"
  let ?R = "hs_step ?s eager_host final_codec ws_request new_response"
  let ?w1 = "sample_world\<lparr>w_trace := w_trace sample_world @ [WsUpgrade]\<rparr>"
  let ?w2 = "?w1\<lparr>w_bus := snd (subscribe_step ''sub-2'' (w_bus ?w1))\<rparr>"
  let ?ev = "event_of ''sub-2'' StatusCompleted 1"
  have path: "ws_submission (rq_Path ws_request) = Some ''sub-2''" unfolding ws_request_def by code_simp
  have 1: "?R (Routing, sample_world) (Upgraded ''sub-2'', ?w1)"
    using HsUpgrade [OF path, of eager_host sample_world None ?w1 ?s final_codec new_response] by simp
  have "run_state (st_GetState (sv_stateStore ?s) ''sub-2'') ?w1 = (Inl ErrNotFound, ?w1)"
    by (simp add: MemoryStore_ops_def ms_GetState_def sample_world_def NewMemoryStore_def)
  then have 2: "?R (Upgraded ''sub-2'', ?w1) (Subscribing ''sub-2'', ?w1)" by (rule HsFollow) simp
  have "mb_next (w_bus ?w1) = 1" by (simp add: sample_world_def sample_bus_def subscribe_step_def NewMemoryEventBus_def)
  then have "run_state (eb_Subscribe (sv_eventBus ?s) ''sub-2'') ?w1 = (Inr 1, ?w2)"
    by (simp add: MemoryEventBus_ops_def mb_Subscribe_def) (simp add: subscribe_step_def Let_def)
  then have 3: "?R (Subscribing ''sub-2'', ?w1) (Looping ''sub-2'' 1, ?w2)" by (rule HsSubscribe)
  note s3 = SessHandler [OF SessHandler [OF SessHandler [OF SessStart 1] 2] 3]
  have sub: "mb_subscribed ''sub-2'' 1 (w_bus ?w2)"
    using mb_ok_subscribe [OF mb_subscribedD(1) [OF sample_subscribed], of "''sub-2''"] mb_subscribedD(3) [OF sample_subscribed]
      \<open>mb_next (w_bus ?w1) = 1\<close> by (simp add: mb_subscribed_def)
  have "mb_seen 1 ?w2 = []"
    using \<open>mb_next (w_bus ?w1) = 1\<close> by (simp add: mb_seen_def subscribe_step_def Let_def make_chan_def)
  with publish_step_subscribed(2) [OF sub, of ?ev]
  have "mb_seen 1 (?w2\<lparr>w_bus := snd (publish_step ''sub-2'' ?ev (w_bus ?w2))\<rparr>) = [?ev]" by (simp add: mb_seen_def)
  with that [OF SessPublish [OF s3]] show thesis by blast
qed

section \<open>Property\<close>

text \<open>
  C35.  A WebSocket handler cleans up, whatever others do on the open in-memory services in the
  meantime: publish events, subscribe, leave, save states.  It never panics.  While it streams,
  its channel is the only one registered beyond those of the others; when it has ended, the registered
  channels are exactly those of the others, in their order, and a connection that was upgraded has
  been closed by its last call.  It can always end: after its loop is left two moves remain, and a pass
  that receives a final event of its submission leaves the loop.  A submission found finished in the
  store is reported in one message, without a subscription.  \<open>HandleWebSocket\<close> is the case in which
  nobody else moves.
\<close>

theorem ws_cleans_up:
  assumes "ws_session (memory_server h cfg) h json r resp w0 pc w oth"
    and "mb_ok (w_bus w0)" and "\<not> mb_closed (w_bus w0)"
  shows "(\<forall>e. pc \<noteq> Closing (WsPanicked e) \<and> pc \<noteq> Finished (WsPanicked e)) \<and>
    (\<forall>sid c. pc \<in> {Looping sid c, Unsubscribing sid c} \<longrightarrow>
       c \<in> set (subs_of sid (w_bus w)) \<and> (\<forall>k. filter (\<lambda>d. d \<noteq> c) (subs_of k (w_bus w)) = oth k)) \<and>
    (\<forall>res. pc \<in> {Closing res, Finished res} \<longrightarrow> (\<forall>k. subs_of k (w_bus w) = oth k)) \<and>
    (pc = Finished WsEnded \<longrightarrow> last (w_trace w) = WsClose) \<and>
    (\<forall>sid c. pc = Unsubscribing sid c \<or>
       (\<exists>ev rest. pc = Looping sid c \<and> mb_seen c w = ev # rest \<and> ends_stream json ev \<and>
          h_select h (w_trace w @ [CtxErr]) \<notin> {0, 1, 2}) \<longrightarrow>
       (\<exists>w'. (hs_step (memory_server h cfg) h json r resp)\<^sup>*\<^sup>* (pc, w) (Finished WsEnded, w'))) \<and>
    (\<forall>sid state data. pc = Upgraded sid \<and> ms_lookup w sid = Some state \<and> is_final (ss_Status state) \<and>
       cd_Marshal json (final_event state (h_now h (w_trace w))) = Inr data \<longrightarrow>
       (hs_step (memory_server h cfg) h json r resp)\<^sup>*\<^sup>* (pc, w)
         (Finished WsEnded, w\<lparr>w_trace := w_trace w @ [Now, WsWriteJSON (data @ [CHR 0x0A]), WsClose]\<rparr>)) \<and>
    (\<forall>n res v v'. run_state (HandleWebSocket n (memory_server h cfg) h json r resp) v = (res, v') \<longrightarrow>
       (\<forall>c. res \<noteq> WsStreaming c) \<longrightarrow>
       (hs_step (memory_server h cfg :: 'a mem_world_scheme Server) h json r resp)\<^sup>*\<^sup>* (Routing, v) (Finished res, v'))"
proof -
  have i: "session_inv pc w oth" by (rule session_reach_inv [OF assms])
  have b: "bus_shared (own_chan pc) (w_bus w) oth" using i by (simp add: session_inv_def)
  have own: "c \<in> set (subs_of sid (w_bus w)) \<and> (\<forall>k. filter (\<lambda>d. d \<noteq> c) (subs_of k (w_bus w)) = oth k)"
    if "pc \<in> {Looping sid c, Unsubscribing sid c}" for sid c
    using that bus_sharedD(3,4) [OF b] by (auto simp: own_chan_def)
  have gone: "subs_of k (w_bus w) = oth k" if "pc \<in> {Closing res, Finished res}" for res k
    using that bus_sharedD(4) [OF b] by (auto simp: own_chan_def)
  have out: "\<exists>w'. (hs_step (memory_server h cfg) h json r resp)\<^sup>*\<^sup>* (pc, w) (Finished WsEnded, w')"
    if "pc = Unsubscribing sid c \<or> (\<exists>ev rest. pc = Looping sid c \<and> mb_seen c w = ev # rest \<and> ends_stream json ev \<and>
          h_select h (w_trace w @ [CtxErr]) \<notin> {0, 1, 2})" for sid c
    using that
  proof (elim disjE exE conjE)
    assume "pc = Unsubscribing sid c"
    with i show ?thesis using unsubscribing_ends by fast
  next
    fix ev rest
    assume "pc = Looping sid c" "mb_seen c w = ev # rest" "ends_stream json ev" "h_select h (w_trace w @ [CtxErr]) \<notin> {0, 1, 2}"
    with i show ?thesis using final_event_ends [of sid c w oth ev rest json h cfg r resp] by blast
  qed
  have safe: "pc \<noteq> Closing (WsPanicked e) \<and> pc \<noteq> Finished (WsPanicked e)" for e
    using i by (auto simp: session_inv_def)
  have closed: "pc = Finished WsEnded \<Longrightarrow> last (w_trace w) = WsClose" using i by (simp add: session_inv_def)
  have known: "(hs_step (memory_server h cfg) h json r resp)\<^sup>*\<^sup>* (pc, w)
      (Finished WsEnded, w\<lparr>w_trace := w_trace w @ [Now, WsWriteJSON (data @ [CHR 0x0A]), WsClose]\<rparr>)"
    if "pc = Upgraded sid \<and> ms_lookup w sid = Some state \<and> is_final (ss_Status state) \<and>
       cd_Marshal json (final_event state (h_now h (w_trace w))) = Inr data" for sid state data
    using that finished_reported [of w sid state json h data cfg r resp] by simp
  show ?thesis
  proof (intro conjI, goal_cases)
    case 1
    show ?case using safe by blast
  next
    case 2
    show ?case using own by blast
  next
    case 3
    show ?case using gone by blast
  next
    case 4
    show ?case using closed by blast
  next
    case 5
    show ?case by (intro allI impI) (rule out)
  next
    case 6
    show ?case by (intro allI impI) (rule known)
  next
    case 7
    show ?case by (intro allI impI handler_moves) blast+
  qed
qed

theorem ws_cleans_up_witness:
  "\<exists>w oth ev w'. let s = memory_server eager_host \<lparr>cfg_Addr = [], cfg_MaxQueueDepth = 0\<rparr> in
      ws_session s eager_host final_codec ws_request new_response sample_world (Looping ''sub-2'' 1) w oth \<and>
      mb_seen 1 w = [ev] \<and> ev_Status ev = StatusCompleted \<and>
      ws_session s eager_host final_codec ws_request new_response sample_world (Finished WsEnded) w' oth \<and>
      last (w_trace w') = WsClose \<and> (\<forall>k. subs_of k (w_bus w') = oth k)"
proof -
  let ?s = "memory_server eager_host \<lparr>cfg_Addr = [], cfg_MaxQueueDepth = 0\<rparr> :: mem_world Server"
  have m: "mb_ok (w_bus sample_world)" "\<not> mb_closed (w_bus sample_world)"
    using mb_subscribedD [OF sample_subscribed] by blast+
  obtain w oth where w: "ws_session ?s eager_host final_codec ws_request new_response sample_world (Looping ''sub-2'' 1) w oth"
      "mb_seen 1 w = [event_of ''sub-2'' StatusCompleted 1]"
    by (rule session_streams)
  have e: "ends_stream final_codec (event_of ''sub-2'' StatusCompleted 1)"
    by (simp add: ends_stream_def final_codec_def one_codec_def is_final_def event_of_def)
  have "\<exists>w'. (hs_step ?s eager_host final_codec ws_request new_response)\<^sup>*\<^sup>* (Looping ''sub-2'' 1, w) (Finished WsEnded, w')"
    using ws_cleans_up [OF w(1) m] w(2) e by (simp del: One_nat_def) blast
  then obtain w' where w': "ws_session ?s eager_host final_codec ws_request new_response sample_world (Finished WsEnded) w' oth"
    using session_moves [OF w(1)] by blast
  have "last (w_trace w') = WsClose" "\<forall>k. subs_of k (w_bus w') = oth k"
    using ws_cleans_up [OF w' m] by blast+
  moreover have "ev_Status (event_of ''sub-2'' StatusCompleted 1) = StatusCompleted" by (simp add: event_of_def)
  ultimately show ?thesis unfolding Let_def using w w' by blast
qed

end
