(* ===== verification/Spec2Isabelle.thy ===== *)
theory Spec2Isabelle
  imports Sample_Host Metrics Pipeline Daemons Websocket_Session
begin

text \<open>
  Remote Runtime Engine: a service that compiles and runs untrusted programs against test cases.  A
  gateway accepts submissions over HTTP, stores their state and queues them as jobs; workers take
  jobs from the queue, run each test in a sandbox through the execution engine, publish progress
  on an event bus and store the result; clients follow a submission over a WebSocket.  Queue, bus
  and store each come in memory and on Redis; the sandbox is a native cgroup backend, a container
  or a plain process; the same engine also runs from the command line.

  \<^bold>\<open>How the code is modelled.\<close>  Stateful code is a state monad over a world record, one definition per
  function or per block of a long function.  A call that leaves the program (file system, processes,
  clock, random numbers, Redis, Prometheus, sockets) is a value of \<^verbatim>\<open>io_op\<close>: the world records
  the calls made so far, and a host record answers each call as a function of that record, so a
  theorem over every host is one over every behaviour of the surroundings.  Errors and panics are
  values of \<^verbatim>\<open>goerror\<close>; 64-bit integers wrap by \<^verbatim>\<open>wrap64\<close>, masks are words, floats are exact rationals
  rounded to 53 bits; maps are association lists.  Goroutines are step relations with one transition
  per atomic action, and channels live where their aliasing shows (a heap in the in-memory bus).

  \<^bold>\<open>Foundations.\<close>
  \<^item> \<^verbatim>\<open>Go_Prelude\<close> strings, paths, numbers, UTF-8 and error values of Go's library, and the shared
    lemmas; \<^verbatim>\<open>Float64\<close> IEEE doubles; \<^verbatim>\<open>Go_IO\<close> host, world and calls; \<^verbatim>\<open>Go_Channel\<close> buffered channels;
    \<^verbatim>\<open>Go_Json\<close> the encoder of \<^verbatim>\<open>encoding/json\<close>; \<^verbatim>\<open>Go_Http\<close> the parts of \<^verbatim>\<open>net/http\<close> that are used.

  \<^bold>\<open>Components\<close>, by the files under \<^verbatim>\<open>src\<close>.
  \<^item> \<^verbatim>\<open>Models\<close> is \<^verbatim>\<open>pkg/models\<close>: verdicts, requests with \<open>Normalize\<close>, results.
  \<^item> \<^verbatim>\<open>Languages\<close> is \<^verbatim>\<open>pkg/languages\<close>: registry and handlers; locale \<^verbatim>\<open>language_handler\<close>.
  \<^item> \<^verbatim>\<open>Watchdog\<close>, \<^verbatim>\<open>Affinity\<close>, \<^verbatim>\<open>Sandbox\<close>, \<^verbatim>\<open>Dev_Process\<close>, \<^verbatim>\<open>Docker\<close>, \<^verbatim>\<open>Native_Cgroup\<close> and
    \<^verbatim>\<open>Sandbox_Select\<close> are \<^verbatim>\<open>pkg/sandbox\<close>: the bounded buffer, core pinning, the interface (locale
    \<^verbatim>\<open>sandbox_backend\<close>, interpreted on every backend), the backends, the selection.
  \<^item> \<^verbatim>\<open>Engine\<close> is \<^verbatim>\<open>pkg/engine\<close>: \<open>Run\<close> over the selected backend.
  \<^item> \<^verbatim>\<open>Queue\<close>, \<^verbatim>\<open>Memory_Queue\<close> and \<^verbatim>\<open>Redis_Queue\<close> are \<^verbatim>\<open>pkg/queue\<close>; locale \<^verbatim>\<open>job_queue\<close> holds the first-in,
    first-out contract, interpreted on the in-memory queue; the Redis queue, which several programs
    share, is shown against a history of the server's effects (\<open>redis_server\<close>).
  \<^item> \<^verbatim>\<open>Events\<close>, \<^verbatim>\<open>Memory_Bus\<close> and \<^verbatim>\<open>Redis_Bus\<close> are \<^verbatim>\<open>pkg/events\<close>; locales \<^verbatim>\<open>event_bus\<close> and
    \<^verbatim>\<open>reliable_bus\<close>.
  \<^item> \<^verbatim>\<open>Store\<close> is \<^verbatim>\<open>pkg/store\<close>; locales \<^verbatim>\<open>state_store\<close> and \<^verbatim>\<open>durable_store\<close>.
  \<^item> \<^verbatim>\<open>Security\<close> is \<^verbatim>\<open>pkg/security\<close> and the recording functions of \<^verbatim>\<open>pkg/metrics\<close>; \<^verbatim>\<open>Metrics\<close> has the
    registered collectors, which every recording is shown to fit.
  \<^item> \<^verbatim>\<open>Worker\<close> and \<^verbatim>\<open>Worker_Correct\<close> are \<^verbatim>\<open>pkg/worker/worker.go\<close>: \<open>ProcessJob\<close>, and its behaviour over any
    bus and store that meet locale \<^verbatim>\<open>worker_env\<close>.
  \<^item> \<^verbatim>\<open>Pool\<close> is \<^verbatim>\<open>pkg/worker/pool.go\<close>: one worker's loop over any services, and the interleaving of all
    workers, their owner and whoever else uses the queue, in memory (\<open>memory_sys\<close>) or on Redis
    (\<open>redis_sys\<close>).
  \<^item> \<^verbatim>\<open>Websocket\<close>, \<^verbatim>\<open>Websocket_Stream\<close> and \<^verbatim>\<open>Websocket_Session\<close> are \<^verbatim>\<open>pkg/api/websocket.go\<close>: the handler, its
    loop interleaved with publishers, and the whole handler, call by call, interleaved with
    publishers, other clients and the store.
  \<^item> \<^verbatim>\<open>Api_Server\<close> and \<^verbatim>\<open>Api_Correct\<close> are \<^verbatim>\<open>pkg/api/server.go\<close>: handlers, router and middleware, and
    what they do to queue and store; locale \<^verbatim>\<open>gateway\<close> joins a queue and a store that do not disturb
    each other, and is interpreted on the in-memory services.
  \<^item> \<^verbatim>\<open>Pipeline\<close> composes gateway, queue, worker loop, engine and store.
  \<^item> \<^verbatim>\<open>Commands\<close> and \<^verbatim>\<open>Daemons\<close> are \<^verbatim>\<open>cmd\<close>: the command line engine, the setup of the two daemons, and
    their goroutines from the start of the pool to the end of the program.
  \<^item> \<^verbatim>\<open>Sample_Host\<close> has the concrete hosts, jobs and worlds of the witnesses.

  \<^bold>\<open>What is shown.\<close>
  \<^item> Submissions (C1 to C3): every job is reported with exactly one terminal event and one finished
    state that agree; the verdict is the first failing one, and an accepted test met the job's own
    limit and its expected output; a hidden test that failed keeps its output.
  \<^item> Engine and sandboxes (C4 to C12): every request is judged soundly; workspaces are removed; a
    native preparation that succeeds has written every limit, the started process is attached or
    killed, and killed with its group when its time is over; verdicts and isolation options.
  \<^item> Building blocks (C13 to C16): the output buffer, normalization, the registry, core allocation.
  \<^item> Services (C17 to C26): the in-memory queue as a sequential contract and under interleaving, the Redis
    queue shared with other programs, buses, stores, with the races in which the code panics.
  \<^item> Security (C27, C28): the lists of the seccomp profile and the audit record.
  \<^item> Pool and daemons (C29 to C33): no job is lost or held twice, counters, termination of \<open>Stop\<close>, and
    how the two daemons end, with which exit code for which reason.
  \<^item> Gateway (C34 to C38): the stream of events, its cleanup, submission, backpressure, links.
  \<^item> Composition (C39, C40): an accepted submission is finished by a worker; what the command line
    engine runs for its flags and prints.

  \<^bold>\<open>Bounds and fuel.\<close>  The two endless loops, \<open>workerLoop\<close> and \<open>ws_loop\<close>, take the number of passes and say
  whether they were still running; C39 shows that one pass per pending job is enough to empty the
  queue, C35 follows the handler through its moves without fuel, and C31 bounds the moves of stopping workers with no fuel;
  it and C32 and C33 assume that a poll of the queue returns (\<open>polls_return\<close>), which holds for both.
  All other recursion is structural or has a measure.

  \<^bold>\<open>Parameters.\<close>  The Redis client, \<^verbatim>\<open>encoding/json\<close> on decoding (and on encoding records with floats), the
  UUID, WebSocket and Prometheus libraries and the kernel are outside: they appear as host answers or
  codecs, with named hypotheses such as \<open>redis_server\<close>, \<open>redis_strings\<close>, \<open>redis_messages\<close> and
  \<open>codec_faithful\<close> where a property relies on what they document.

  \<^bold>\<open>Not modelled.\<close>  Log output, which nothing reads; the parsing of flags, which is the library's; timeouts of
  the HTTP server; the body of a redirect; tests, scripts, container and Kubernetes files, which hold
  no logic of the program.
\<close>

section \<open>Submissions\<close>

text \<open>
  C1.  Processing a job in the in-memory configuration.  Whatever the host does, the worker
  returns without an error; a subscriber of the submission finds in its channel what it had before
  followed by the events of the job, up to the 64 the channel holds; among those events exactly
  one is terminal and it is the last; the store ends with a finished state of that submission whose
  status and verdict are those of that last event; and no other submission's entry changes.
\<close>

theorem worker_reports_once:
  assumes "mb_subscribed (job_SubmissionID job) c (w_bus w)" and "job_SubmissionID job \<noteq> []"
    and "run_state (ProcessJob (MemoryEventBus_ops h) (MemoryStore_ops h) h (Some job)) w = (r, w')"
  shows "r = None \<and>
    (\<exists>evs s. mb_seen c w' = take 64 (mb_seen c w @ evs) \<and> ends_once evs \<and>
       ms_lookup w' = (ms_lookup w)(job_SubmissionID job \<mapsto> s) \<and>
       ss_Status s = ev_Status (last evs) \<and> ss_Verdict s = ev_Verdict (last evs) \<and>
       ss_CompletedAt s \<noteq> None)"
proof -
  obtain evs ss xs s where r: "r = None" and p: "processed h job evs ss"
    and xs: "mb_seen c w' = take 64 (mb_seen c w @ xs)" "map unstamped xs = evs"
    and s: "ms_lookup w' = (ms_lookup w)(job_SubmissionID job \<mapsto> s)"
      "ss_Status s = ev_Status (last evs)" "ss_Verdict s = ev_Verdict (last evs)" "ss_CompletedAt s \<noteq> None"
    by (rule memory_final_state [OF assms])
  have "ends_once xs" and "ev_Status (last xs) = ev_Status (last evs)"
      "ev_Verdict (last xs) = ev_Verdict (last evs)"
    using ends_once_unstamped [of xs] processed_ends_once [OF p] xs(2) last_unstamped [of xs]
    by (auto simp: ends_once_def)
  with r xs(1) s show ?thesis by (intro conjI exI [of _ xs] exI [of _ s]) simp_all
qed

theorem worker_reports_once_witness:
  "let (r, w') = run_state (ProcessJob (MemoryEventBus_ops sample_host) (MemoryStore_ops sample_host)
       sample_host (Some sample_job)) sample_world
   in r = None \<and>
    (\<exists>evs s. mb_seen 0 w' = take 64 (mb_seen 0 sample_world @ evs) \<and> ends_once evs \<and>
       ms_lookup w' = (ms_lookup sample_world)(''sub-1'' \<mapsto> s) \<and>
       ss_Status s = ev_Status (last evs) \<and> ss_Verdict s = ev_Verdict (last evs) \<and>
       ss_CompletedAt s \<noteq> None)"
  using worker_reports_once [of sample_job 0 sample_world sample_host] sample_subscribed
  by (simp add: sample_job_def split: prod.splits)

text \<open>
  C2.  What the stored result of a job means, in the in-memory configuration and for every host.  Either
  the job failed before its tests, with a system or compilation error and no results, or there is one
  result per test case, in order, each carrying the test's identifier and number: the overall
  verdict is the first verdict of these results that is not \<open>VerdictAccepted\<close>, or
  \<open>VerdictAccepted\<close> when there is none; the passed count is the number of accepted results; and each
  accepted result has exit code zero, a wall time within the job's own time limit (2000 ms when
  the job sets none, at most 10000 ms), no memory kill, and the expected output of its test.
\<close>

theorem worker_verdict_meaning:
  assumes "mb_ok (w_bus w)" and "job_SubmissionID job \<noteq> []"
    and "run_state (ProcessJob (MemoryEventBus_ops h) (MemoryStore_ops h) h (Some job)) w = (r, w')"
  shows "\<exists>s. ms_lookup w' (job_SubmissionID job) = Some s \<and>
    (ss_Status s = StatusFailed \<and> ss_Verdict s \<in> {VerdictSystemError, VerdictCompilationError} \<and>
       ss_Results s = [] \<or>
     ss_Status s = StatusCompleted \<and> ss_TotalTestCases s = int (length (job_tests job)) \<and>
     list_all2 (\<lambda>tc it. tr_TestCaseID it = tc_ID tc \<and>
         (tr_Verdict it = VerdictAccepted \<longrightarrow>
            tr_ExitCode it = 0 \<and> \<not> tr_OOMKilled it \<and>
            \<not> flt (float_of_int (if job_TimeLimitMs job \<le> 0 then 2000 else min 10000 (job_TimeLimitMs job)))
                (tr_WallTimeMs it) \<and>
            (tc_ExpectedOutput tc \<noteq> [] \<longrightarrow>
               TrimRight (tr_Stdout it) [CHR 0x0D, CHR 0x0A] =
               TrimRight (tc_ExpectedOutput tc) [CHR 0x0D, CHR 0x0A])))
       (job_tests job) (ss_Results s) \<and>
     map tr_Index (ss_Results s) = map (\<lambda>k. 1 + int k) [0..<length (job_tests job)] \<and>
     ss_Verdict s = first_failure (map tr_Verdict (ss_Results s)) \<and>
     ss_PassedTestCases s = passed (map tr_Verdict (ss_Results s)))"
proof -
  obtain s where s: "ms_lookup w' = (ms_lookup w)(job_SubmissionID job \<mapsto> s)" "reports job s"
    by (rule memory_process [OF assms])
  then show ?thesis
    by (auto simp: reports_def item_ok_def clamp_def elim: list_all2_mono)
qed

theorem worker_verdict_meaning_witness:
  "let (r, w') = run_state (ProcessJob (MemoryEventBus_ops sample_host) (MemoryStore_ops sample_host)
       sample_host (Some sample_job)) sample_world
   in \<exists>s. ms_lookup w' ''sub-1'' = Some s \<and>
    (ss_Status s = StatusFailed \<and> ss_Verdict s \<in> {VerdictSystemError, VerdictCompilationError} \<and>
       ss_Results s = [] \<or>
     ss_Status s = StatusCompleted \<and> ss_TotalTestCases s = 1 \<and>
     (\<exists>it. ss_Results s = [it] \<and> tr_TestCaseID it = ''t1'' \<and> tr_Index it = 1 \<and>
        (tr_Verdict it = VerdictAccepted \<longrightarrow>
           tr_ExitCode it = 0 \<and> \<not> tr_OOMKilled it \<and> \<not> flt (Fin 1000) (tr_WallTimeMs it) \<and>
           TrimRight (tr_Stdout it) [CHR 0x0D, CHR 0x0A] = TrimRight ''ok'' [CHR 0x0D, CHR 0x0A]) \<and>
        ss_Verdict s = first_failure [tr_Verdict it] \<and> ss_PassedTestCases s = passed [tr_Verdict it]))"
proof -
  obtain r w' where run: "run_state (ProcessJob (MemoryEventBus_ops sample_host) (MemoryStore_ops sample_host)
       sample_host (Some sample_job)) sample_world = (r, w')" by force
  have j: "job_SubmissionID sample_job = ''sub-1''" "job_tests sample_job = [sample_test]"
      "job_TimeLimitMs sample_job = 1000"
    by (simp_all add: sample_job_def job_tests_def)
  have t: "tc_ID sample_test = ''t1''" "tc_ExpectedOutput sample_test = ''ok''" by (simp_all add: sample_test_def)
  have "mb_ok (w_bus sample_world)" using sample_subscribed by (rule mb_subscribedD)
  from worker_verdict_meaning [OF this _ run] show ?thesis
    unfolding run Let_def prod.case j by (auto simp: list_all2_Cons1 t)
qed

text \<open>
  C3.  Output of hidden tests.  In the in-memory configuration, whatever the host does, a test case
  that is marked hidden and was not accepted never shows in the stored results what the program printed:
  both streams are the placeholder.
\<close>

theorem hidden_output_withheld:
  assumes "mb_ok (w_bus w)" and "job_SubmissionID job \<noteq> []"
    and "run_state (ProcessJob (MemoryEventBus_ops h) (MemoryStore_ops h) h (Some job)) w = (r, w')"
  shows "\<exists>s. ms_lookup w' (job_SubmissionID job) = Some s \<and>
    (\<forall>k < length (ss_Results s). tc_IsHidden (job_tests job ! k) \<longrightarrow>
       tr_Verdict (ss_Results s ! k) \<noteq> VerdictAccepted \<longrightarrow>
       tr_Stdout (ss_Results s ! k) = ''[Hidden Testcase]'' \<and>
       tr_Stderr (ss_Results s ! k) = ''[Hidden Testcase]'')"
proof -
  obtain s where s: "ms_lookup w' = (ms_lookup w)(job_SubmissionID job \<mapsto> s)" "reports job s"
    by (rule memory_process [OF assms])
  then show ?thesis
    by (auto simp: reports_def item_ok_def list_all2_conv_all_nth)
qed

theorem hidden_output_withheld_witness:
  "let (r, w') = run_state (ProcessJob (MemoryEventBus_ops leak_host) (MemoryStore_ops leak_host)
       leak_host (Some sample_job)) sample_world
   in tc_IsHidden sample_test \<and>
    (\<exists>s it. ms_lookup w' ''sub-1'' = Some s \<and> ss_Results s = [it] \<and> tr_Verdict it \<noteq> VerdictAccepted \<and>
       tr_Stdout it = ''[Hidden Testcase]'' \<and> tr_Stderr it = ''[Hidden Testcase]'')"
proof -
  obtain r w' where run: "run_state (ProcessJob (MemoryEventBus_ops leak_host) (MemoryStore_ops leak_host)
       leak_host (Some sample_job)) sample_world = (r, w')" by force
  have j: "job_SubmissionID sample_job = ''sub-1''" "job_tests sample_job = [sample_test]"
    by (simp_all add: sample_job_def job_tests_def)
  have t: "tc_IsHidden sample_test" by (simp add: sample_test_def)
  have "mb_ok (w_bus sample_world)" using sample_subscribed by (rule mb_subscribedD)
  from hidden_output_withheld [OF this _ run] t show ?thesis
    using leak_results [of sample_world] unfolding run Let_def prod.case j snd_conv by auto
qed

section \<open>The engine\<close>

text \<open>
  C4.  The engine answers every request.  For any host behaviour, \<^verbatim>\<open>Run\<close> on a request returns a result
  and never an error; the result carries the identifier of the normalized request, its verdict is
  one of the eight verdicts, output it reports is within the cap, and \<open>VerdictAccepted\<close> means
  exit code zero, within the time limit, no memory kill and matching output.
\<close>

theorem engine_always_judges:
  "\<exists>res. fst (run_state (Run h backend (Some r)) w) = Inr res \<and>
     judged (fst (run_state (Normalize h r) w)) res"
  by (rule Run_judged)

text \<open>
  C5.  No workspace is left behind.  When the development backend has prepared a workspace, the
  engine's last call to the host, on every path that follows, removes that workspace.
\<close>

theorem engine_removes_workspace:
  assumes "run_state (dev_Prepare h req lang) w = (Inr ctx, w1)"
    and "run_state (run_in_sandbox h (DevProcessSandbox h) req lang) w = (res, w')"
  shows "\<exists>ops. w_trace w' = w_trace w1 @ ops @ [RemoveAll (sc_WorkingDir ctx)]"
proof -
  have p: "run_state (sb_Prepare (DevProcessSandbox h) req lang) w = (Inr ctx, w1)"
    using assms(1) by (simp add: DevProcessSandbox_def)
  obtain w2 e where b: "run_state (engine_body h (DevProcessSandbox h) req lang ctx) w1 = (res, w2)"
    and c: "run_state (sb_Cleanup (DevProcessSandbox h) ctx) w2 = (e, w')"
    by (rule dev.run_in_sandbox_cleans [OF p assms(2)])
  obtain ops n where "w2 = w1\<lparr>w_trace := w_trace w1 @ ops, w_nextCore := n\<rparr>"
    by (rule io_only_run [OF dev.io_engine_body b])
  with c show ?thesis
    by (intro exI [of _ ops]) (auto simp: DevProcessSandbox_def dev_Cleanup_def)
qed

theorem engine_removes_workspace_witness:
  "let (p, w1) = run_state (dev_Prepare sample_host sample_request PythonHandler) world0;
       (res, w') = run_state (run_in_sandbox sample_host (DevProcessSandbox sample_host) sample_request
         PythonHandler) world0
   in \<exists>ctx ops. p = Inr ctx \<and> w_trace w' = w_trace w1 @ ops @ [RemoveAll (sc_WorkingDir ctx)]"
proof -
  obtain ctx w1 where p: "run_state (dev_Prepare sample_host sample_request PythonHandler) world0 = (Inr ctx, w1)"
    by (simp add: dev_Prepare_def WriteSourceFile_def sample_host_def Let_def)
  obtain res w' where q: "run_state (run_in_sandbox sample_host (DevProcessSandbox sample_host)
      sample_request PythonHandler) world0 = (res, w')" by force
  from engine_removes_workspace [OF p q] show ?thesis by (simp add: p q)
qed

text \<open>
  C6.  An explicit choice of backend is never replaced.  A preference that names the native, the
  container or the development backend yields a backend of that name or an error, never another
  backend; and the automatic choice, like the development backend, never fails.
\<close>

theorem preference_respected:
  "case fst (run_state (SelectSandbox h pref) w) of
     Inr sb \<Rightarrow>
       (pref \<in> set native_prefs \<longrightarrow> sb_Name sb = ''native_cgroupv2'') \<and>
       (pref \<in> set docker_prefs \<longrightarrow> sb_Name sb = ''docker'') \<and>
       (pref \<in> set dev_prefs \<longrightarrow> sb_Name sb = ''dev_process'')
   | Inl e \<Rightarrow> pref \<notin> set auto_prefs \<union> set dev_prefs"
  using prefs_disjoint [of pref] native_docker_disjoint [of pref]
  by (auto simp: SelectSandbox_def select_from_def split_def NewNativeCgroupV2Sandbox_def native_linux_def
      native_fallback_def NewDockerSandbox_def DockerSandbox_def DevProcessSandbox_def native_Name_def
      docker_Name_def dev_Name_def split: sum.splits if_splits)

theorem preference_respected_witness:
  "case fst (run_state (SelectSandbox sample_host ''docker'') world0) of
     Inr sb \<Rightarrow>
       (''docker'' \<in> set native_prefs \<longrightarrow> sb_Name sb = ''native_cgroupv2'') \<and>
       (''docker'' \<in> set docker_prefs \<longrightarrow> sb_Name sb = ''docker'') \<and>
       (''docker'' \<in> set dev_prefs \<longrightarrow> sb_Name sb = ''dev_process'')
   | Inl e \<Rightarrow> ''docker'' \<notin> set auto_prefs \<union> set dev_prefs"
  by (rule preference_respected)

section \<open>Backends\<close>

text \<open>
  C7.  What the native backend has told the kernel before a program starts.  A successful preparation
  has made exactly the calls listed here, in that order: workspace, source file, ownership, cgroup,
  and last the memory, CPU and process limits of the request's own cgroup.  The writes of the source
  and of the three limits, and the creation of both directories, have succeeded.  For a normalized
  request the number written to \<^verbatim>\<open>memory.max\<close> reads back as the memory limit in bytes and the one
  written to \<^verbatim>\<open>pids.max\<close> as the process limit.
\<close>

theorem native_limits_installed:
  assumes "run_state (native_Prepare h req lang) w = (Inr ctx, w')" and "normalized req"
    and "int64_ok (req_PidsLimit req)"
  shows "let wd = sc_WorkingDir ctx; cg = sc_CgroupPath ctx;
      ops = [Now, MkdirAll wd 493, WriteFile (Join [wd, lh_SourceFilename lang]) (req_Code req) 420,
          Chown wd DefaultSandboxUID DefaultSandboxGID, Chmod wd 493,
          MkdirAll CgroupBaseSlice 493,
          WriteFile (Join [CgroupV2Root, ''cgroup.subtree_control'']) (''+cpu +memory +pids'' @ nl) 420,
          WriteFile (Join [CgroupBaseSlice, ''cgroup.subtree_control'']) (''+cpu +memory +pids'' @ nl) 420,
          MkdirAll cg 493,
          WriteFile (Join [cg, ''memory.max'']) (FormatInt (req_MemoryLimitMB req * 1048576) @ nl) 420,
          WriteFile (Join [cg, ''cpu.max'']) (cpu_max_line h req) 420,
          WriteFile (Join [cg, ''pids.max'']) (FormatInt (req_PidsLimit req) @ nl) 420]
    in w_trace w' = w_trace w @ ops \<and>
       (\<forall>k \<in> {1, 2, 5, 8, 9, 10, 11}. h_err h (w_trace w @ take k ops) (ops ! k) = None) \<and>
       ParseInt (FormatInt (req_MemoryLimitMB req * 1048576)) = req_MemoryLimitMB req * 1048576 \<and>
       ParseInt (FormatInt (req_PidsLimit req)) = req_PidsLimit req"
proof -
  have bytes: "int64_ok (req_MemoryLimitMB req * 1048576)"
    using assms(2) by (simp add: normalized_def limit_defs int64_ok_def)
  show ?thesis
    unfolding Let_def prepare_ops_ctx [OF assms(1,2), symmetric]
  proof (intro conjI ballI)
    show "w_trace w' = w_trace w @ prepare_ops h req lang" by (rule native_Prepare_trace [OF assms(1)])
  next
    fix k :: nat
    assume "k \<in> {1, 2, 5, 8, 9, 10, 11}"
    then show "h_err h (w_trace w @ take k (prepare_ops h req lang)) (prepare_ops h req lang ! k) = None"
      by (rule native_Prepare_succeeded [OF assms(1)])
  qed (simp_all add: bytes assms(3))
qed

theorem native_limits_installed_witness:
  "let (p, w') = run_state (native_Prepare sample_host sample_request PythonHandler) world0
   in (\<exists>ctx. p = Inr ctx) \<and>
     (\<exists>pre post. w_trace w' = pre @ [WriteFile (Join [Join [CgroupBaseSlice, ''sub-1''], ''memory.max''])
        (FormatInt (64 * 1048576) @ nl) 420] @ post) \<and>
     ParseInt (FormatInt (64 * 1048576)) = 64 * 1048576 \<and> ParseInt (FormatInt 16) = 16"
proof -
  obtain ctx w' where p: "run_state (native_Prepare sample_host sample_request PythonHandler) world0 = (Inr ctx, w')"
    by (simp add: native_Prepare_def WriteSourceFile_def setupCgroupHierarchy_def sample_host_def Let_def)
  have n: "normalized sample_request" "req_PidsLimit sample_request = 16"
      "req_MemoryLimitMB sample_request = 64" "req_ID sample_request = ''sub-1''"
    by (simp_all add: sample_request_def exec_request_def sample_job_def normalized_def limit_defs fle_def)
  have "int64_ok (req_PidsLimit sample_request)" by (simp add: n int64_ok_def)
  note t = native_limits_installed [OF p n(1) this, unfolded Let_def n native_Prepare_paths [OF p]]
  have "w_trace world0 = []" by (simp add: world0_def)
  with t have "\<exists>pre post. w_trace w' = pre @ [WriteFile (Join [Join [CgroupBaseSlice, ''sub-1''], ''memory.max''])
        (FormatInt (64 * 1048576) @ nl) 420] @ post"
    by (intro exI [of _ "take 9 (w_trace w')"] exI [of _ "drop 10 (w_trace w')"]) simp
  with t p show ?thesis by simp
qed

text \<open>
  C8.  A program stays in its cgroup and within its time.  The native backend arms a watchdog with the
  request's time limit before it starts a process.  When the start fails, nothing follows.  Otherwise the
  next call attaches the very process that was started to its cgroup; when that fails, the next call
  kills this process and the run is an error.  Otherwise, after calls that only pin it to a core,
  the process is waited for; when the watchdog ends that wait, the process group and the process are
  killed, the child is waited for again, and the verdict is that of the time limit.
\<close>

theorem native_attach_or_kill:
  assumes "run_state (native_Execute h ctx) w = (r, w')"
  shows "let tr = w_trace w @ [WithTimeout (TimeoutDuration (sc_Request ctx)), Now]; cmd = native_run_cmd ctx
    in case h_start h tr cmd of
      Inl _ \<Rightarrow> (\<exists>e. r = Inl e) \<and> w_trace w' = tr @ [StartCmd cmd]
    | Inr pid \<Rightarrow>
       (let attach = WriteFile (Join [sc_CgroupPath ctx, ''cgroup.procs'']) (FormatInt pid @ nl) 420
        in if h_err h (tr @ [StartCmd cmd]) attach \<noteq> None
        then (\<exists>e. r = Inl e) \<and> w_trace w' = tr @ [StartCmd cmd, attach, KillProcess pid]
        else \<exists>res pin post. r = Inr res \<and> list_all (pin_op pid) pin \<and>
          (let tr' = tr @ [StartCmd cmd, attach] @ pin; fired = fst (h_wait h tr' pid)
           in w_trace w' = tr' @
                (if fired then [WaitCmd pid, KillGroup pid, KillProcess pid, WaitCmd pid] else [WaitCmd pid]) @ post \<and>
              (fired \<longrightarrow> er_Verdict res = VerdictTimeLimitExceeded)))"
  using native_Execute_trace [OF assms refl] unfolding attach_op_def Let_def .

theorem native_attach_or_kill_witness:
  "let ctx = \<lparr>sc_ID = ''sub-1'', sc_Request = sample_request, sc_Language = PythonHandler,
        sc_WorkingDir = ''/tmp/ws'', sc_SourcePath = ''/tmp/ws/main.py'', sc_BinaryPath = [],
        sc_CgroupPath = ''/sys/fs/cgroup/speedcode/sub-1'', sc_CreatedAt = 1\<rparr>;
       (r, w') = run_state (native_Execute (sample_host\<lparr>h_wait := \<lambda>_ _. (True, sample_proc)\<rparr>) ctx) world0
   in \<exists>res pin post. r = Inr res \<and> er_Verdict res = VerdictTimeLimitExceeded \<and>
        w_trace w' = [WithTimeout (TimeoutDuration sample_request), Now, StartCmd (native_run_cmd ctx),
          WriteFile (Join [''/sys/fs/cgroup/speedcode/sub-1'', ''cgroup.procs'']) (FormatInt 7 @ nl) 420] @ pin @
          [WaitCmd 7, KillGroup 7, KillProcess 7, WaitCmd 7] @ post"
proof -
  define h where "h = sample_host\<lparr>h_wait := \<lambda>_ _. (True, sample_proc)\<rparr>"
  define ctx where "ctx = \<lparr>sc_ID = ''sub-1'', sc_Request = sample_request, sc_Language = PythonHandler,
        sc_WorkingDir = ''/tmp/ws'', sc_SourcePath = ''/tmp/ws/main.py'', sc_BinaryPath = [],
        sc_CgroupPath = ''/sys/fs/cgroup/speedcode/sub-1'', sc_CreatedAt = 1\<rparr>"
  obtain r w' where r: "run_state (native_Execute h ctx) world0 = (r, w')" by (metis prod.exhaust)
  have h: "h_start h tr c = Inr 7" "h_err h tr op = None" "h_wait h tr pid = (True, sample_proc)" for tr c op pid
    by (simp_all add: h_def sample_host_def)
  have c: "sc_Request ctx = sample_request" "sc_CgroupPath ctx = ''/sys/fs/cgroup/speedcode/sub-1''"
      "w_trace world0 = []"
    by (simp_all add: ctx_def world0_def)
  from native_attach_or_kill [OF r, unfolded Let_def h c sum.case fst_conv if_True]
  show ?thesis unfolding h_def [symmetric] ctx_def [symmetric] Let_def r prod.case by auto
qed

text \<open>
  C9.  Workspaces of different submissions are separate.  For identifiers that are plain file
  names, which are the ones the gateway and the engine generate, a successful preparation of the native
  backend has its workspace and its cgroup directly below their roots, named by the identifier, and the
  preparations of two requests with different such identifiers have different workspaces and different
  cgroups.
\<close>

theorem native_workspace_confined:
  assumes "run_state (native_Prepare h req lang) w = (Inr ctx, w')"
    and "run_state (native_Prepare h2 req2 lang2) v = (Inr ctx2, v')"
    and "simple_name (req_ID req)" and "simple_name (req_ID req2)"
  shows "sc_WorkingDir ctx = abs_path [''tmp'', ''speedcode'', req_ID req] \<and>
    sc_CgroupPath ctx = abs_path [''sys'', ''fs'', ''cgroup'', ''speedcode'', req_ID req] \<and>
    (req_ID req \<noteq> req_ID req2 \<longrightarrow>
       sc_WorkingDir ctx \<noteq> sc_WorkingDir ctx2 \<and> sc_CgroupPath ctx \<noteq> sc_CgroupPath ctx2)"
proof -
  let ?ws = "[''tmp'', ''speedcode'']" and ?cg = "[''sys'', ''fs'', ''cgroup'', ''speedcode'']"
  have names: "list_all simple_name ?ws" "list_all simple_name ?cg" by code_simp+
  have roots: "EphemeralWorkspace = abs_path ?ws" "CgroupBaseSlice = abs_path ?cg" by code_simp+
  have same: "abs_path (ps @ [req_ID req]) = abs_path (ps @ [req_ID req2]) \<Longrightarrow> req_ID req = req_ID req2"
    if "list_all simple_name ps" for ps
    using abs_path_inject [of "ps @ [req_ID req]" "ps @ [req_ID req2]"] that assms(3,4) by simp
  have paths: "Join [EphemeralWorkspace, req_ID req] = abs_path (?ws @ [req_ID req])"
      "Join [CgroupBaseSlice, req_ID req] = abs_path (?cg @ [req_ID req])"
      "Join [EphemeralWorkspace, req_ID req2] = abs_path (?ws @ [req_ID req2])"
      "Join [CgroupBaseSlice, req_ID req2] = abs_path (?cg @ [req_ID req2])"
    unfolding roots using Join_simple names assms(3,4) by blast+
  show ?thesis
    unfolding native_Prepare_paths [OF assms(1)] native_Prepare_paths [OF assms(2)] paths
    using same [OF names(1)] same [OF names(2)] by auto
qed

theorem native_workspace_confined_witness:
  "let (p, w') = run_state (native_Prepare sample_host sample_request PythonHandler) world0;
       (q, v') = run_state (native_Prepare sample_host (sample_request\<lparr>req_ID := ''sub-2''\<rparr>) PythonHandler) world0
   in \<exists>c c2. p = Inr c \<and> q = Inr c2 \<and> sc_WorkingDir c = abs_path [''tmp'', ''speedcode'', ''sub-1''] \<and>
        sc_CgroupPath c = abs_path [''sys'', ''fs'', ''cgroup'', ''speedcode'', ''sub-1''] \<and>
        sc_WorkingDir c \<noteq> sc_WorkingDir c2 \<and> sc_CgroupPath c \<noteq> sc_CgroupPath c2"
proof -
  have ex: "\<exists>ctx w'. run_state (native_Prepare sample_host req PythonHandler) world0 = (Inr ctx, w')" for req
    by (simp add: native_Prepare_def WriteSourceFile_def setupCgroupHierarchy_def sample_host_def Let_def)
  obtain c w' where p: "run_state (native_Prepare sample_host sample_request PythonHandler) world0 = (Inr c, w')"
    using ex by blast
  obtain c2 v' where q: "run_state (native_Prepare sample_host (sample_request\<lparr>req_ID := ''sub-2''\<rparr>) PythonHandler) world0 = (Inr c2, v')"
    using ex by blast
  have i: "req_ID sample_request = ''sub-1''" "req_ID (sample_request\<lparr>req_ID := ''sub-2''\<rparr>) = ''sub-2''"
    by (simp_all add: sample_request_def exec_request_def sample_job_def)
  have n: "simple_name ''sub-1''" "simple_name ''sub-2''" and ne: "''sub-1'' \<noteq> ''sub-2''" by code_simp+
  show ?thesis
    unfolding p q Let_def prod.case using native_workspace_confined [OF p q, unfolded i, OF n] ne by blast
qed

text \<open>
  C10.  Identifiers are trusted.  The native backend joins the identifier of a request to its
  workspace root without a check, so an identifier with parent steps leads out of it: preparing a
  request with the identifier \<^verbatim>\<open>../../etc\<close> makes \<^verbatim>\<open>/etc\<close> the workspace, on every host.
\<close>

theorem native_workspace_escape:
  "MkdirAll ''/etc'' 493 \<in>
     set (w_trace (snd (run_state (native_Prepare h (r\<lparr>req_ID := ''../../etc''\<rparr>) lang) w)))"
proof -
  have "Join [EphemeralWorkspace, ''../../etc''] = ''/etc''" by code_simp
  then obtain ops where "w_trace (snd (run_state (native_Prepare h (r\<lparr>req_ID := ''../../etc''\<rparr>) lang) w)) =
      w_trace w @ [Now, MkdirAll ''/etc'' 493] @ ops"
    using native_Prepare_mkdir [of h "r\<lparr>req_ID := ''../../etc''\<rparr>" lang w] by auto
  then show ?thesis by simp
qed

text \<open>
  C11.  The verdicts of the container backend: the exact condition of each of the six.  The memory
  verdict is given exactly for a memory kill; time is overrun when the run took longer than the limit,
  or exactly as long and ended with exit code 124 or 137; a run that failed without such an overrun is a
  runtime error; of the others, one over its output cap is reported for that, even when it also
  overran its time; and a run is accepted exactly when nothing of this is the case and its output is
  the expected one, if any is expected.
\<close>

theorem docker_verdict_order:
  "let over = flt (time_limit_float req) wall \<or>
         feq (time_limit_float req) wall \<and> (ec = 124 \<or> ec = 137);
       overrun = Exceeded ob \<or> Exceeded eb;
       wrong = req_ExpectedOutput req \<noteq> [] \<and> \<not> outputs_match (Buf_String ob) (req_ExpectedOutput req);
       v = docker_verdict req wall ec oom ob eb
   in (v = VerdictMemoryLimitExceeded \<longleftrightarrow> oom) \<and>
      (v = VerdictRuntimeError \<longleftrightarrow> \<not> oom \<and> ec \<noteq> 0 \<and> \<not> over) \<and>
      (v = VerdictOutputLimitExceeded \<longleftrightarrow> \<not> oom \<and> (ec = 0 \<or> over) \<and> overrun) \<and>
      (v = VerdictTimeLimitExceeded \<longleftrightarrow> \<not> oom \<and> over \<and> \<not> overrun) \<and>
      (v = VerdictWrongAnswer \<longleftrightarrow> \<not> oom \<and> ec = 0 \<and> \<not> over \<and> \<not> overrun \<and> wrong) \<and>
      (v = VerdictAccepted \<longleftrightarrow> \<not> oom \<and> ec = 0 \<and> \<not> over \<and> \<not> overrun \<and> \<not> wrong)"
  unfolding Let_def docker_verdict_cases over_time_def by auto

text \<open>
  C12.  Isolation of the container backend.  An execution runs exactly three commands: the container of
  the program, its inspection and its removal.  The first has no network, a read-only root and
  workspace, no capabilities, no privilege escalation, the memory limit both with and without swap,
  the process limit and one core, all of them before the image name, so they are options of the container
  engine and not arguments of the program.  The container of the compiler, which is another one, has no
  network either; the other restrictions do not hold for it.
\<close>

theorem docker_isolated:
  "(\<exists>run opts prog core.
     [c. RunCmd c \<leftarrow> drop (length (w_trace w)) (w_trace (snd (run_state (docker_Execute h img ctx) w)))] =
       [run, plain_cmd ''docker'' [''inspect'', container_name ctx] None,
        plain_cmd ''docker'' [''rm'', ''-f'', container_name ctx] None] \<and>
     cmd_Name run = ''docker'' \<and> cmd_Args run = ''run'' # opts @ img # prog \<and>
     sublist [''--network'', ''none''] opts \<and> ''--read-only'' \<in> set opts \<and>
     sublist [''--cap-drop'', ''ALL''] opts \<and> sublist [''--security-opt'', ''no-new-privileges''] opts \<and>
     sublist [''--memory'', FormatInt (req_MemoryLimitMB (sc_Request ctx)) @ ''m'',
              ''--memory-swap'', FormatInt (req_MemoryLimitMB (sc_Request ctx)) @ ''m''] opts \<and>
     sublist [''--pids-limit'', FormatInt (req_PidsLimit (sc_Request ctx))] opts \<and>
     sublist [''--cpuset-cpus'', FormatInt core] opts \<and>
     sublist [''-v'', sc_WorkingDir ctx @ '':/workspace:ro''] opts) \<and>
   list_all (\<lambda>c. cmd_Name c = ''docker'' \<and>
       (\<exists>opts prog. cmd_Args c = ''run'' # opts @ img # prog \<and> sublist [''--network'', ''none''] opts))
     [c. RunCmd c \<leftarrow> drop (length (w_trace w)) (w_trace (snd (run_state (docker_Compile h img ctx) w)))]"
proof (rule conjI)
  obtain core where core: "[c. RunCmd c \<leftarrow> drop (length (w_trace w)) (w_trace (snd (run_state (docker_Execute h img ctx) w)))] =
       [docker_run_cmd img ctx core, plain_cmd ''docker'' [''inspect'', container_name ctx] None,
        plain_cmd ''docker'' [''rm'', ''-f'', container_name ctx] None]"
    by (rule docker_Execute_commands)
  define groups where "groups =
     [[''-i'', ''--name'', container_name ctx], [''--network'', ''none''], [''--read-only''],
      [''--tmpfs'', ''/tmp:rw,noexec,nosuid,nodev,size=64m''],
      [''--memory'', FormatInt (req_MemoryLimitMB (sc_Request ctx)) @ ''m'',
       ''--memory-swap'', FormatInt (req_MemoryLimitMB (sc_Request ctx)) @ ''m''],
      [''--cpus'', fmt_f2 (req_CpuQuota (sc_Request ctx))], [''--cpuset-cpus'', FormatInt core],
      [''--pids-limit'', FormatInt (req_PidsLimit (sc_Request ctx))], [''--cap-drop'', ''ALL''],
      [''--security-opt'', ''no-new-privileges''], [''-v'', sc_WorkingDir ctx @ '':/workspace:ro''],
      [''-w'', ''/workspace'']]"
  obtain prog where "cmd_Name (docker_run_cmd img ctx core) = ''docker''"
      "cmd_Args (docker_run_cmd img ctx core) = ''run'' # concat groups @ img # prog"
    by (simp add: docker_run_cmd_def plain_cmd_def docker_args_def groups_def Let_def split_def)
  moreover have "''--read-only'' \<in> set (concat groups)" by (simp add: groups_def)
  moreover have "sublist b (concat groups)" if "b \<in> set groups" for b
    using that by (rule sublist_concat)
  ultimately show "\<exists>run opts prog core.
     [c. RunCmd c \<leftarrow> drop (length (w_trace w)) (w_trace (snd (run_state (docker_Execute h img ctx) w)))] =
       [run, plain_cmd ''docker'' [''inspect'', container_name ctx] None,
        plain_cmd ''docker'' [''rm'', ''-f'', container_name ctx] None] \<and>
     cmd_Name run = ''docker'' \<and> cmd_Args run = ''run'' # opts @ img # prog \<and>
     sublist [''--network'', ''none''] opts \<and> ''--read-only'' \<in> set opts \<and>
     sublist [''--cap-drop'', ''ALL''] opts \<and> sublist [''--security-opt'', ''no-new-privileges''] opts \<and>
     sublist [''--memory'', FormatInt (req_MemoryLimitMB (sc_Request ctx)) @ ''m'',
              ''--memory-swap'', FormatInt (req_MemoryLimitMB (sc_Request ctx)) @ ''m''] opts \<and>
     sublist [''--pids-limit'', FormatInt (req_PidsLimit (sc_Request ctx))] opts \<and>
     sublist [''--cpuset-cpus'', FormatInt core] opts \<and>
     sublist [''-v'', sc_WorkingDir ctx @ '':/workspace:ro''] opts"
    by (intro exI [of _ "docker_run_cmd img ctx core"] exI [of _ "concat groups"] exI [of _ prog] exI [of _ core] conjI core)
      (simp_all add: groups_def)
  show "list_all (\<lambda>c. cmd_Name c = ''docker'' \<and>
       (\<exists>opts prog. cmd_Args c = ''run'' # opts @ img # prog \<and> sublist [''--network'', ''none''] opts))
     [c. RunCmd c \<leftarrow> drop (length (w_trace w)) (w_trace (snd (run_state (docker_Compile h img ctx) w)))]"
    using docker_Compile_commands [of w h img ctx] docker_compile_cmd_args [of img ctx] by (auto simp: list_all_iff)
qed

text \<open>
  C13.  Output capture.  However a program's output is cut into chunks, the bounded buffer holds
  exactly its first bytes up to the cap; with chunks that are not empty it reports an overrun exactly
  when a byte was dropped.
\<close>

theorem capture_exact:
  assumes "\<forall>p \<in> set chunks. p \<noteq> []"
  shows "Buf_String (feed (NewBoundedBuffer m) chunks) = take (cap_of m) (concat chunks) \<and>
    (Exceeded (feed (NewBoundedBuffer m) chunks) \<longleftrightarrow> cap_of m < length (concat chunks))"
  using feed_new_String feed_new_Exceeded [OF assms] by simp

theorem capture_exact_witness:
  "Buf_String (feed (NewBoundedBuffer 3) [''ab'', ''cd'']) = take (cap_of 3) (concat [''ab'', ''cd'']) \<and>
    (Exceeded (feed (NewBoundedBuffer 3) [''ab'', ''cd'']) \<longleftrightarrow> cap_of 3 < length (concat [''ab'', ''cd'']))"
  by (rule capture_exact) simp

section \<open>Requests and languages\<close>

text \<open>
  C14.  Normalization, whatever the client sent.  A normalized request has an identifier, limits inside
  the allowed ranges and a backend preference; a time or memory limit that was in range already is
  kept, and so are the code, the input and the expected output; its watchdog duration is the
  time limit in nanoseconds with no wrap-around.  For a language name that is ASCII after trimming,
  normalizing again changes nothing and makes no call.
\<close>

theorem normalize_establishes_limits:
  "let n = fst (run_state (Normalize h r) w)
   in normalized n \<and>
      req_TimeLimitMs n = clamp 2000 10000 (req_TimeLimitMs r) \<and>
      req_MemoryLimitMB n = clamp 128 1024 (req_MemoryLimitMB r) \<and>
      req_Code n = req_Code r \<and> req_Stdin n = req_Stdin r \<and> req_ExpectedOutput n = req_ExpectedOutput r \<and>
      TimeoutDuration n = req_TimeLimitMs n * 1000000 \<and>
      (is_ascii (TrimSpace (req_Language r)) \<longrightarrow> run_state (Normalize h n) v = (n, v))"
proof -
  let ?n = "fst (run_state (Normalize h r) w)"
  have n: "normalized ?n" by (rule Normalize_normalized)
  then have "req_ID ?n \<noteq> []" by (simp add: normalized_def)
  then have "run_state (Normalize h ?n) v = (normalize_fields h (req_ID ?n) ?n, v)"
    by (rule Normalize_given_id)
  moreover have "normalize_language h (req_Language ?n) = req_Language ?n"
    if "is_ascii (TrimSpace (req_Language r))"
    using normalize_language_idem [OF that, of h] by (simp add: Normalize_fst)
  moreover have "req_TimeLimitMs ?n = clamp 2000 10000 (req_TimeLimitMs r)"
      "req_MemoryLimitMB ?n = clamp 128 1024 (req_MemoryLimitMB r)"
      "req_Code ?n = req_Code r" "req_Stdin ?n = req_Stdin r" "req_ExpectedOutput ?n = req_ExpectedOutput r"
    by (simp_all add: Normalize_fst normalize_fields_def clamp_def limit_defs)
  ultimately show ?thesis
    using normalize_fields_normalized [OF n] TimeoutDuration_exact [OF n] n unfolding Let_def by simp
qed

theorem normalize_establishes_limits_witness:
  "let n = fst (run_state (Normalize sample_host (sample_request\<lparr>req_Language := '' PY ''\<rparr>)) world0)
   in normalized n \<and> req_TimeLimitMs n = 1000 \<and> TimeoutDuration n = 1000 * 1000000 \<and>
      run_state (Normalize sample_host n) world0 = (n, world0)"
proof -
  have "is_ascii (TrimSpace '' PY '')" by code_simp
  moreover have "clamp 2000 10000 (req_TimeLimitMs sample_request) = 1000"
    by (simp add: clamp_def sample_request_def exec_request_def sample_job_def)
  ultimately show ?thesis
    using normalize_establishes_limits [of sample_host "sample_request\<lparr>req_Language := '' PY ''\<rparr>" world0 world0]
    unfolding Let_def by simp
qed

text \<open>
  C15.  Languages.  The registry finds the C++ handler exactly for the names that trim and lower to
  \<^verbatim>\<open>cpp\<close>, \<^verbatim>\<open>c++\<close> or \<^verbatim>\<open>g++\<close>, the Python handler exactly for \<^verbatim>\<open>python3\<close>, \<^verbatim>\<open>python\<close> or \<^verbatim>\<open>py\<close>, and for
  every other name reports that name as unsupported.  A handler found for a name is found for the
  normalized name too, so the gateway's check, the engine and the worker agree; and inside any clean
  directory the source file and the program of a compiled language are two different files of that
  directory.
\<close>

theorem language_lookup:
  "let n = ToLower (h_unicodeLower h) (TrimSpace l)
   in Get h (init_registry h) l =
        (if n \<in> {''cpp'', ''c++'', ''g++''} then Inr CppHandler
         else if n \<in> {''python3'', ''python'', ''py''} then Inr PythonHandler
         else Inl (unsupported_language l)) \<and>
      (\<forall>lh. Get h (init_registry h) l = Inr lh \<longrightarrow>
        lh_Name lh = normalize_language h l \<and>
        Get h (init_registry h) (normalize_language h l) = Inr lh \<and>
        (list_all simple_name ps \<longrightarrow>
          Join [abs_path ps, lh_SourceFilename lh] = abs_path (ps @ [lh_SourceFilename lh]) \<and>
          (lh_NeedsCompilation lh \<longrightarrow>
            Join [abs_path ps, lh_BinaryFilename lh] = abs_path (ps @ [lh_BinaryFilename lh]) \<and>
            Join [abs_path ps, lh_SourceFilename lh] \<noteq> Join [abs_path ps, lh_BinaryFilename lh])))"
  unfolding Let_def
proof (intro conjI allI)
  show "Get h (init_registry h) l =
        (if ToLower (h_unicodeLower h) (TrimSpace l) \<in> {''cpp'', ''c++'', ''g++''} then Inr CppHandler
         else if ToLower (h_unicodeLower h) (TrimSpace l) \<in> {''python3'', ''python'', ''py''} then Inr PythonHandler
         else Inl (unsupported_language l))"
    by (rule Get_spellings)
next
  fix lh
  show "Get h (init_registry h) l = Inr lh \<longrightarrow>
        lh_Name lh = normalize_language h l \<and>
        Get h (init_registry h) (normalize_language h l) = Inr lh \<and>
        (list_all simple_name ps \<longrightarrow>
          Join [abs_path ps, lh_SourceFilename lh] = abs_path (ps @ [lh_SourceFilename lh]) \<and>
          (lh_NeedsCompilation lh \<longrightarrow>
            Join [abs_path ps, lh_BinaryFilename lh] = abs_path (ps @ [lh_BinaryFilename lh]) \<and>
            Join [abs_path ps, lh_SourceFilename lh] \<noteq> Join [abs_path ps, lh_BinaryFilename lh]))"
    using Get_Name Get_again Get_handler language_handler.source_path language_handler.binary_path
      language_handler.paths_differ by metis
qed

theorem language_lookup_witness:
  "Get sample_host (init_registry sample_host) '' C++ '' = Inr CppHandler \<and>
   Get sample_host (init_registry sample_host) (normalize_language sample_host '' C++ '') = Inr CppHandler \<and>
   Join [abs_path [''tmp''], lh_SourceFilename CppHandler] = abs_path ([''tmp''] @ [lh_SourceFilename CppHandler]) \<and>
   Join [abs_path [''tmp''], lh_SourceFilename CppHandler] \<noteq> Join [abs_path [''tmp''], lh_BinaryFilename CppHandler]"
proof -
  have "ToLower (h_unicodeLower sample_host) (TrimSpace '' C++ '') = ''c++''" and "list_all simple_name [''tmp'']"
    by code_simp+
  moreover have "lh_NeedsCompilation CppHandler" by (simp add: CppHandler_def)
  ultimately show ?thesis
    using language_lookup [of sample_host "'' C++ ''" "[''tmp'']"] unfolding Let_def by auto
qed

text \<open>
  C16.  Cores are handed out fairly.  On a machine with more than one core, any as many consecutive
  allocations as there are cores hit every core exactly once, and the mask that pins a process to a
  core has exactly that core's bit set.
\<close>

theorem cores_round_robin:
  assumes "\<And>tr. h_numcpu h tr = n" and "1 < n" and "0 \<le> w_nextCore w" and "w_nextCore w + n < 2 ^ 63"
    and "0 \<le> c" and "c < 1024" and "i < 16" and "j < 64"
  shows "distinct (fst (run_state (allocate_many h (nat n)) w)) \<and>
    set (fst (run_state (allocate_many h (nat n)) w)) = {0..<n} \<and>
    (bit (affinity_mask c ! i) j \<longleftrightarrow> c = 64 * int i + int j)"
proof -
  let ?f = "\<lambda>k. (w_nextCore w + int k) mod n"
  have run: "fst (run_state (allocate_many h (nat n)) w) = map ?f [0..<nat n]"
    using assms(2,4) by (intro allocate_many_run [OF assms(1,2,3)]) simp
  have d: "distinct (map ?f [0..<nat n])"
    using assms(2) by (auto simp: distinct_map inj_on_def intro: mod_shift_inj)
  have "set (map ?f [0..<nat n]) \<subseteq> {0..<n}" using assms(2) by auto
  moreover have "card (set (map ?f [0..<nat n])) = card {0..<n}"
    using distinct_card [OF d] assms(2) by simp
  ultimately have "set (map ?f [0..<nat n]) = {0..<n}" by (intro card_subset_eq) auto
  with run d affinity_mask_bit [OF assms(5-8)] show ?thesis by simp
qed

theorem cores_round_robin_witness:
  "distinct (fst (run_state (allocate_many sample_host 4) world0)) \<and>
    set (fst (run_state (allocate_many sample_host 4) world0)) = {0..<4} \<and>
    (bit (affinity_mask 65 ! 1) 1 \<longleftrightarrow> 65 = 64 * int 1 + int 1)"
  using cores_round_robin [of sample_host 4 world0 65 1 1]
  by (simp add: sample_host_def world0_def)

section \<open>Queues\<close>

text \<open>
  C17.  The in-memory queue is first in, first out.  For every sequence of \<open>Enqueue\<close>,
  \<open>Dequeue\<close>, \<open>QueueDepth\<close> and \<open>Close\<close> calls and every outcome of contexts, timers and
  \<^verbatim>\<open>select\<close>, the jobs that were pending followed by the accepted ones are the ones handed out
  followed by the ones still pending: none is lost, duplicated or reordered.
\<close>

theorem memory_queue_fifo:
  assumes "mq_ok (w_queue w)"
    and "run_state (run_calls (MemoryQueue_ops h) cs) w = ((accepted, taken), w')"
  shows "mq_ok (w_queue w') \<and>
    map job_key (mq_pending (w_queue w) @ accepted) = map job_key (taken @ mq_pending (w_queue w'))"
  using mq.fifo [OF assms(1) _ assms(2)] by (simp add: list_all_iff)

theorem memory_queue_fifo_witness:
  "let ((accepted, taken), w') = run_state (run_calls (MemoryQueue_ops sample_host)
       [CallEnqueue sample_job, CallDequeue 5]) sample_world
   in mq_ok (w_queue w') \<and>
     map job_key (mq_pending (w_queue sample_world) @ accepted) =
     map job_key (taken @ mq_pending (w_queue w'))"
proof -
  have ok: "mq_ok (w_queue sample_world)" by (simp add: sample_world_def)
  obtain accepted taken w' where 1: "run_state (run_calls (MemoryQueue_ops sample_host)
      [CallEnqueue sample_job, CallDequeue 5]) sample_world = ((accepted, taken), w')"
    by (metis prod.exhaust)
  show ?thesis unfolding 1 Let_def prod.case by (rule memory_queue_fifo [OF ok 1])
qed

text \<open>
  C18.  The in-memory queue under concurrency.  In every state that any number of goroutines can
  reach by interleaving the critical steps of their calls, the jobs sent are the jobs received
  followed by the jobs in the channel, the channel holds at most its capacity, and a send has
  panicked only if the queue was closed.
\<close>

theorem memory_queue_interleaved:
  assumes "q_reach n s"
  shows "qs_in s = qs_out s @ mq_pending (qs_m s) \<and>
    length (mq_pending (qs_m s)) \<le> nat (if n \<le> 0 then 10000 else n) \<and>
    (qs_panic s \<longrightarrow> mq_closed (qs_m s))"
  using q_reach_inv [OF assms]
  by (auto simp: qsys_inv_def mq_ok_def chan_ok_def mq_pending_def NewMemoryQueue_def Let_def make_chan_def)

theorem memory_queue_interleaved_witness:
  "\<exists>s. q_reach 3 s \<and> mq_pending (qs_m s) \<noteq> [] \<and> qs_in s = qs_out s @ mq_pending (qs_m s) \<and>
    length (mq_pending (qs_m s)) \<le> nat (if (3::int) \<le> 0 then 10000 else 3) \<and>
    (qs_panic s \<longrightarrow> mq_closed (qs_m s))"
proof -
  from q_reach_pending obtain s where s: "q_reach 3 s" "mq_pending (qs_m s) \<noteq> []" by blast
  from memory_queue_interleaved [OF s(1)] s show ?thesis by blast
qed

text \<open>
  C19.  The race in \<open>Enqueue\<close>.  The lock is released between the check of the closed flag and
  the send, so a \<open>Close\<close> in between makes the send panic: such a state is reachable.
\<close>

theorem enqueue_close_race:
  "\<exists>s. q_reach 1 s \<and> qs_panic s"
proof -
  let ?s0 = "qsys_init 1"
  let ?s1 = "?s0\<lparr>qs_enq := (qs_enq ?s0)(0 := Some sample_job)\<rparr>"
  let ?s2 = "?s1\<lparr>qs_m := close_step (qs_m ?s1)\<rparr>"
  have 1: "q_step ?s0 ?s1" by (rule EnqueueCheck) (simp_all add: qsys_init_def NewMemoryQueue_def)
  have 2: "q_step ?s1 ?s2" by (rule CloseQueue)
  have sel: "enqueue_select False None (job_defaults sample_job 1) (qs_m ?s2) =
      (Some (ErrPanic ''send on closed channel''), qs_m ?s2)"
    by (simp add: enqueue_select_def close_step_def chan_close_def chan_send_def qsys_init_def
        NewMemoryQueue_def make_chan_def)
  have "qs_enq ?s2 0 = Some sample_job" and "ctx_error None" by (simp_all add: ctx_error_def)
  note 3 = EnqueueSelect [OF this sel]
  show ?thesis
    by (rule exI, rule conjI, rule q_next [OF q_next [OF q_next [OF q_start 1] 2] 3]) simp
qed

text \<open>
  C20.  The Redis queue, shared with other programs.  On a server that executes \<^verbatim>\<open>LPUSH\<close> and \<^verbatim>\<open>BRPOP\<close> as
  documented, in which other clients may push and pop at any moment and commands that failed may have
  been executed or not, and with a JSON codec faithful on jobs of valid UTF-8: during any sequence of
  calls of this program, the jobs it had accepted are among the elements pushed, in order and with
  their defaults filled in; the jobs it was given are among the elements popped, in order; and what
  all clients together popped, followed by what is still pending, is what they pushed, in order.
\<close>

theorem redis_queue_fifo:
  assumes "codec_faithful job_utf8 (rq_codec r)" and "redis_server h (rq_queueKey r) srv"
    and "list_all job_utf8 (call_jobs cs)"
    and "run_state (run_calls (RedisQueue_ops h r) cs) w = ((accepted, taken), w')"
  shows "\<exists>E vs us. srv (w_trace w') = srv (w_trace w) @ E \<and>
    subseq vs (pushes E) \<and>
    list_all2 (\<lambda>j v. \<exists>t. cd_Unmarshal (rq_codec r) v = Inr (job_defaults j t)) accepted vs \<and>
    subseq us (pops E) \<and> list_all2 (\<lambda>j u. cd_Unmarshal (rq_codec r) u = Inr j) taken us \<and>
    pushes (srv (w_trace w')) = pops (srv (w_trace w')) @ rev (list_from [] (srv (w_trace w')))"
proof -
  obtain E where "srv (w_trace w') = srv (w_trace w) @ E" "contributes r E accepted taken"
    using redis_calls [OF assms] by blast
  moreover have "pushes (srv (w_trace w')) = pops (srv (w_trace w')) @ rev (list_from [] (srv (w_trace w')))"
    using lawful_fifo [OF redis_serverD(1) [OF assms(2), of "w_trace w'"]] by simp
  ultimately show ?thesis unfolding contributes_def pushed_as_def popped_as_def by blast
qed

theorem redis_queue_fifo_witness:
  "let srv = model_history (rq_queueKey sample_redis_queue);
       ((accepted, taken), w') = run_state (run_calls (RedisQueue_ops redis_host sample_redis_queue)
         [CallEnqueue sample_job, CallDequeue 5]) world0
   in accepted = [sample_job] \<and> taken = [sample_job] \<and>
      (\<exists>E vs us. srv (w_trace w') = srv (w_trace world0) @ E \<and> length vs = 1 \<and>
        subseq vs (pushes E) \<and> us = [''J''] \<and> subseq us (pops E))"
proof -
  have c: "codec_faithful job_utf8 (rq_codec sample_redis_queue)"
    by (simp add: sample_redis_queue_def NewRedisQueue_def one_codec_faithful)
  have "job_utf8 sample_job" by code_simp
  then have j: "list_all job_utf8 (call_jobs [CallEnqueue sample_job, CallDequeue 5])"
    by (simp add: call_jobs_def)
  obtain accepted taken w' where 1: "run_state (run_calls (RedisQueue_ops redis_host sample_redis_queue)
      [CallEnqueue sample_job, CallDequeue 5]) world0 = ((accepted, taken), w')"
    by (metis prod.exhaust)
  have at: "accepted = [sample_job] \<and> taken = [sample_job]"
    using arg_cong [OF 1, of fst] unfolding sample_redis_calls by auto
  have u: "us = [''J'']" if "list_all2 (\<lambda>j u. cd_Unmarshal (rq_codec sample_redis_queue) u = Inr j) [sample_job] us" for us
    using that by (auto simp: list_all2_Cons1 sample_redis_queue_def NewRedisQueue_def one_codec_def split: if_splits)
  from redis_queue_fifo [OF c redis_host_server j 1] obtain E vs us where
      e: "model_history (rq_queueKey sample_redis_queue) (w_trace w') =
          model_history (rq_queueKey sample_redis_queue) (w_trace world0) @ E"
        "subseq vs (pushes E)" "subseq us (pops E)"
      and "list_all2 (\<lambda>j v. \<exists>t. cd_Unmarshal (rq_codec sample_redis_queue) v = Inr (job_defaults j t)) accepted vs"
        "list_all2 (\<lambda>j u. cd_Unmarshal (rq_codec sample_redis_queue) u = Inr j) taken us"
    by blast
  then have "length vs = 1" "us = [''J'']" using at u by (auto dest: list_all2_lengthD)
  with e at show ?thesis unfolding 1 Let_def prod.case by blast
qed

section \<open>Events and states\<close>

text \<open>
  C21.  Delivery on the in-memory bus.  A subscriber that does not read meanwhile finds the published
  events in its channel in order, complete up to 64 and with nothing else; and publishing for
  another submission leaves its channel as it was.
\<close>

theorem memory_bus_delivers:
  assumes "mb_subscribed sid c (w_bus w)"
    and "run_state (publish_all (MemoryEventBus_ops h) sid evs) w = ((), w')"
    and "sid' \<noteq> sid" and "run_state (mb_Publish h sid' (Some ev)) w = (r, w'')"
  shows "(\<exists>xs. mb_seen c w' = take 64 (mb_seen c w @ xs) \<and> map unstamped xs = map unstamped evs) \<and>
    mb_seen c w'' = mb_seen c w"
proof -
  have "\<exists>xs. mb_seen c w' = take 64 (mb_seen c w @ xs) \<and> map unstamped xs = map unstamped evs"
    using mb.publish_all_seen [OF assms(1) _ assms(2)] by (simp add: list_all_iff)
  moreover have "c \<notin> set (subs_of sid' (w_bus w))"
    using assms(1,3) mb_okD(4) [of "w_bus w" c sid sid'] by (auto simp: mb_subscribed_def)
  with assms(4) have "mb_seen c w'' = mb_seen c w"
    using publish_step_ok [OF mb_subscribedD(1) [OF assms(1)]]
    by (elim mb_Publish_run) (auto simp: mb_seen_def)
  ultimately show ?thesis by blast
qed

theorem memory_bus_delivers_witness:
  "let w = sample_world; evs = [event_of [] StatusRunning 0, event_of [] StatusCompleted 0];
       w' = snd (run_state (publish_all (MemoryEventBus_ops sample_host) ''sub-1'' evs) w);
       w'' = snd (run_state (mb_Publish sample_host ''sub-2'' (Some (event_of [] StatusQueued 0))) w)
   in (\<exists>xs. mb_seen 0 w' = take 64 (mb_seen 0 w @ xs) \<and> map unstamped xs = map unstamped evs) \<and>
      mb_seen 0 w'' = mb_seen 0 w"
proof -
  let ?evs = "[event_of [] StatusRunning 0, event_of [] StatusCompleted 0]"
  have "''sub-2'' \<noteq> ''sub-1''" by simp
  from memory_bus_delivers [OF sample_subscribed run_unit this run_pair] show ?thesis
    unfolding Let_def .
qed

text \<open>
  C22.  Panics of the in-memory bus.  From a state that satisfies the bus invariant, publishing and
  closing never panic and neither does the cleanup of a registered subscription; but the cleanup of
  a subscription that the bus has closed itself always panics.
\<close>

theorem memory_bus_panics:
  assumes "mb_subscribed sid c m"
  shows "fst (publish_step sid ev m) = None \<and> fst (bus_close_step m) = None \<and>
    fst (cleanup_step sid c m) = None \<and> mb_ok (snd (cleanup_step sid c m)) \<and>
    fst (cleanup_step sid c (snd (bus_close_step m))) = Some (ErrPanic ''close of closed channel'')"
proof -
  note D = mb_subscribedD [OF assms]
  have once: "c \<notin> set (mb_once m)" using D(2) by (simp add: live_chan_def)
  have sub: "c \<in> set (subs_of sid m)" using assms by (simp add: mb_subscribed_def)
  have owner: "owns sid c m"
    unfolding owns_def using D(2) mb_okD(4) [OF D(1) sub] by (metis live_chan_def)
  have "c \<in> set (registered m)" using sub registered_iff(2) [OF D(1)] by blast
  then have "ch_closed (mb_heap (snd (bus_close_step m)) c)" "mb_once (snd (bus_close_step m)) = mb_once m"
    using bus_close_step_closes [OF D(1,3)] by auto
  with once have "fst (cleanup_step sid c (snd (bus_close_step m))) = Some (ErrPanic ''close of closed channel'')"
    by (simp add: cleanup_step_cases(6))
  moreover have "fst (cleanup_step sid c m) = None"
    using D(2) by (simp add: cleanup_step_cases(6) [OF once] live_chan_def)
  moreover have "fst (publish_step sid ev m) = None" by (simp add: publish_step_ok [OF D(1)])
  ultimately show ?thesis
    using bus_close_step_ok(1) [OF D(1)] mb_ok_cleanup [OF D(1) owner] by blast
qed

theorem memory_bus_panics_witness:
  "fst (publish_step ''sub-1'' (event_of [] StatusQueued 0) sample_bus) = None \<and>
    fst (bus_close_step sample_bus) = None \<and>
    fst (cleanup_step ''sub-1'' 0 sample_bus) = None \<and> mb_ok (snd (cleanup_step ''sub-1'' 0 sample_bus)) \<and>
    fst (cleanup_step ''sub-1'' 0 (snd (bus_close_step sample_bus))) =
      Some (ErrPanic ''close of closed channel'')"
proof -
  have "mb_subscribed ''sub-1'' 0 sample_bus" using sample_subscribed by (simp add: sample_world_def)
  then show ?thesis by (rule memory_bus_panics)
qed

text \<open>
  C23.  A Redis subscription.  In every reachable state of the reader goroutine and its clients, what
  was received followed by what is buffered is a prefix of the decoded messages in order, and the
  whole of them when the reader waits for the next message; and a panic needs a cancelled
  subscription.
\<close>

theorem redis_subscription_order:
  assumes "rb_reach json s"
  shows "prefix (rs_got s @ ch_buf (rs_ch s)) (decode_messages json (rs_msgs s)) \<and>
    (rs_pc s = Receiving \<longrightarrow> rs_got s @ ch_buf (rs_ch s) = decode_messages json (rs_msgs s)) \<and>
    (rs_panic s \<longrightarrow> rs_once s)"
  using rb_reach_inv [OF assms] rb_inv_prefix [of json s] by (auto simp: rb_inv_def)

theorem redis_subscription_order_witness:
  "\<exists>s. rb_reach sample_codec s \<and> ch_buf (rs_ch s) \<noteq> [] \<and>
    prefix (rs_got s @ ch_buf (rs_ch s)) (decode_messages sample_codec (rs_msgs s)) \<and>
    (rs_pc s = Receiving \<longrightarrow> rs_got s @ ch_buf (rs_ch s) = decode_messages sample_codec (rs_msgs s)) \<and>
    (rs_panic s \<longrightarrow> rs_once s)"
proof -
  from rb_reach_buffered obtain s where s: "rb_reach sample_codec s" "ch_buf (rs_ch s) \<noteq> []" by blast
  from redis_subscription_order [OF s(1)] s show ?thesis by blast
qed

text \<open>
  C24.  The race in the Redis subscription.  If any message decodes, then a panic is reachable: the
  cleanup function closes the channel while the reader holds a decoded event.
\<close>

theorem redis_subscription_race:
  assumes "cd_Unmarshal json v = Inr ev"
  shows "\<exists>s. rb_reach json s \<and> rs_panic s"
proof -
  let ?s0 = rb_sub_init
  let ?s1 = "?s0\<lparr>rs_pc := Sending ev, rs_msgs := rs_msgs ?s0 @ [v]\<rparr>"
  have 1: "rb_step json ?s0 ?s1" by (rule Message) (simp_all add: rb_sub_init_def assms)
  have 2: "rb_step json ?s1 (rb_clean ?s1)" by (rule Cancel)
  have "rs_pc (rb_clean ?s1) = Sending ev" and "chan_send ev (rs_ch (rb_clean ?s1)) = SendPanic"
    by (simp_all add: rb_clean_def rb_sub_init_def chan_close_def make_chan_def chan_send_def)
  then have "rb_step json (rb_clean ?s1) ((rb_clean ?s1)\<lparr>rs_pc := Exited, rs_panic := True\<rparr>)"
    by (rule ForwardClosed)
  with rb_next [OF rb_next [OF rb_start 1] 2] have
    "rb_reach json ((rb_clean ?s1)\<lparr>rs_pc := Exited, rs_panic := True\<rparr>)" by (rule rb_next)
  then show ?thesis by (intro exI conjI) (assumption, simp)
qed

theorem redis_subscription_race_witness:
  "\<exists>s. rb_reach sample_codec s \<and> rs_panic s"
  by (rule redis_subscription_race [OF sample_codec_decodes])

text \<open>
  C25.  The in-memory store.  After any sequence of saves, reading a submission gives the last state
  saved under its identifier, with a fresh update time, or what was there before when none was; an
  identifier never saved is reported as not found.
\<close>

theorem memory_store_reads_last:
  assumes "run_state (save_all (MemoryStore_ops h) ss) w = ((), w1)"
    and "run_state (st_GetState (MemoryStore_ops h) sid) w1 = (r, w2)"
  shows "case last_of sid ss of
      Some s \<Rightarrow> \<exists>t. r = Inr (s\<lparr>ss_UpdatedAt := t\<rparr>)
    | None \<Rightarrow> r = (case ms_lookup w sid of Some s \<Rightarrow> Inr s | None \<Rightarrow> Inl ErrNotFound)"
  using ms.read_after_saves [OF _ _ assms] by (simp add: list_all_iff)

theorem memory_store_reads_last_witness:
  "let w1 = snd (run_state (save_all (MemoryStore_ops sample_host) [sample_state]) sample_world)
   in case last_of ''sub-1'' [sample_state] of
      Some s \<Rightarrow> \<exists>t. fst (run_state (st_GetState (MemoryStore_ops sample_host) ''sub-1'') w1) =
        Inr (s\<lparr>ss_UpdatedAt := t\<rparr>)
    | None \<Rightarrow> fst (run_state (st_GetState (MemoryStore_ops sample_host) ''sub-1'') w1) =
        (case ms_lookup sample_world ''sub-1'' of Some s \<Rightarrow> Inr s | None \<Rightarrow> Inl ErrNotFound)"
proof -
  from memory_store_reads_last [OF run_unit run_pair] show ?thesis unfolding Let_def .
qed



section \<open>Security\<close>


text \<open>
  C28.  Audit records.  Whatever bytes a submission's fields contain, the line the audit logger writes
  has no byte below \<^verbatim>\<open>0x20\<close>, hence no line feed, carriage return or tab, so one violation is one record of
  the log.
\<close>

theorem audit_record_one_line:
  "\<exists>line. w_trace (snd (run_state (LogViolation h i l b v d) w)) = w_trace w @ [Hostname, Now, AuditLog line] \<and>
     prefix ''[SECURITY AUDIT] '' line \<and> list_all (\<lambda>c. 0x20 \<le> (of_char c :: int)) line"
proof -
  let ?e = "\<lparr>ae_Timestamp = h_now h (w_trace w @ [Hostname]), ae_SubmissionID = i, ae_ViolationType = v,
        ae_Language = l, ae_SandboxBackend = b, ae_Details = d, ae_ClientIP = [],
        ae_HostName = (case h_hostname h (w_trace w) of Inr n \<Rightarrow> n | Inl _ \<Rightarrow> [])\<rparr>"
  have "w_trace (snd (run_state (LogViolation h i l b v d) w)) = w_trace w @ [Hostname, Now, AuditLog (audit_line h ?e)]"
    by (simp add: LogViolation_def)
  moreover have "prefix ''[SECURITY AUDIT] '' (audit_line h ?e)" by (simp add: audit_line_def)
  moreover have "list_all (\<lambda>c. 0x20 \<le> (of_char c :: int)) (audit_line h ?e)"
    using audit_line_plain [of h ?e] unfolding plain_byte_def .
  ultimately show ?thesis by blast
qed

end
